(* ===== verification/Prelude.thy ===== *)
theory Prelude
  imports Main "HOL-Library.Word" "HOL-Library.AList"
begin

text \<open>
  Shared vocabulary of the development: the outcome of a fallible Rust call, the loops
  that stop at the first \<open>Err\<close> (the \<open>?\<close> operator inside a \<open>for\<close>), bytes, and hash maps as
  association lists with distinct keys. The collections \<open>result_simps\<close> and \<open>hmap_simps\<close>
  hold the rewrite rules the component theories hand to the simplifier.
\<close>

named_theorems err_simps \<open>when a fallible computation returns Err\<close>
named_theorems result_simps \<open>when a fallible computation returns Ok\<close>
named_theorems hmap_simps \<open>lookups and updates of association-list hash maps\<close>

section \<open>Outcomes of fallible code\<close>

text \<open>
  \<open>Ok\<close> and \<open>Err\<close> are Rust's \<open>Result\<close>. \<open>Panic\<close> is a call that unwinds (an \<open>expect\<close> that
  fails): it returns no value to its caller.
\<close>

datatype ('a, 'e) result = Ok 'a | Err 'e | Panic

type_synonym u8 = "8 word"
type_synonym u16 = "16 word"
type_synonym u32 = "32 word"
type_synonym u64 = "64 word"

fun and_then :: "('a, 'e) result \<Rightarrow> ('a \<Rightarrow> ('b, 'e) result) \<Rightarrow> ('b, 'e) result" where
  "and_then (Ok x) f = f x"
| "and_then (Err e) f = Err e"
| "and_then Panic f = Panic"

fun map_err :: "('e \<Rightarrow> 'f) \<Rightarrow> ('a, 'e) result \<Rightarrow> ('a, 'f) result" where
  "map_err g (Ok x) = Ok x"
| "map_err g (Err e) = Err (g e)"
| "map_err g Panic = Panic"

fun ok_or :: "'a option \<Rightarrow> 'e \<Rightarrow> ('a, 'e) result" where
  "ok_or (Some x) e = Ok x"
| "ok_or None e = Err e"

fun expect :: "'a option \<Rightarrow> ('a, 'e) result" where
  "expect (Some x) = Ok x"
| "expect None = Panic"

definition is_ok :: "('a, 'e) result \<Rightarrow> bool" where
  "is_ok r = (case r of Ok _ \<Rightarrow> True | _ \<Rightarrow> False)"

definition unwrap_or :: "('a, 'e) result \<Rightarrow> 'a \<Rightarrow> 'a" where
  "unwrap_or r d = (case r of Ok x \<Rightarrow> x | _ \<Rightarrow> d)"

text \<open>
  An \<open>anyhow::Error\<close> is its chain of messages, outermost context first.
  \<open>with_context\<close> is \<open>Context::context\<close> on a \<open>Result\<close>; on an \<open>Option\<close> it is \<open>ok_or\<close>.
\<close>

type_synonym anyhow = "string list"

text \<open>\<open>Display\<close> of an unsigned integer.\<close>

fun show_nat :: "nat \<Rightarrow> string" where
  "show_nat n =
     (if n < 10 then [char_of (48 + n)] else show_nat (n div 10) @ [char_of (48 + n mod 10)])"

declare show_nat.simps [simp del]

definition with_context :: "('a, anyhow) result \<Rightarrow> string \<Rightarrow> ('a, anyhow) result" where
  "with_context r msg = map_err (Cons msg) r"

text \<open>\<open>for x in xs { s = f(x, s)?; }\<close>: the loop state is threaded, the first failure ends it.\<close>

fun try_fold :: "('a \<Rightarrow> 's \<Rightarrow> ('s, 'e) result) \<Rightarrow> 'a list \<Rightarrow> 's \<Rightarrow> ('s, 'e) result" where
  "try_fold f [] s = Ok s"
| "try_fold f (x # xs) s = and_then (f x s) (try_fold f xs)"

text \<open>\<open>for x in xs.iter_mut() { *x = f(x)?; }\<close>: every element rewritten in place, in order.\<close>

fun try_map :: "('a \<Rightarrow> ('b, 'e) result) \<Rightarrow> 'a list \<Rightarrow> ('b list, 'e) result" where
  "try_map f [] = Ok []"
| "try_map f (x # xs) = and_then (f x) (\<lambda>y. and_then (try_map f xs) (\<lambda>ys. Ok (y # ys)))"

lemma and_then_Ok_iff [result_simps]:
  "and_then r f = Ok y \<longleftrightarrow> (\<exists>x. r = Ok x \<and> f x = Ok y)"
  by (cases r) auto

lemma and_then_Ok_iff' [result_simps]:
  "Ok y = and_then r f \<longleftrightarrow> (\<exists>x. r = Ok x \<and> f x = Ok y)"
  by (cases r) auto

lemma and_then_Panic_iff [result_simps]:
  "and_then r f = Panic \<longleftrightarrow> r = Panic \<or> (\<exists>x. r = Ok x \<and> f x = Panic)"
  by (cases r) auto

lemma map_err_Ok_iff [result_simps]: "map_err g r = Ok x \<longleftrightarrow> r = Ok x"
  by (cases r) auto

lemma with_context_Ok_iff [result_simps]: "with_context r msg = Ok x \<longleftrightarrow> r = Ok x"
  by (simp add: with_context_def map_err_Ok_iff)

lemma ok_or_Ok_iff [result_simps]: "ok_or m e = Ok x \<longleftrightarrow> m = Some x"
  by (cases m) auto

lemma expect_Ok_iff [result_simps]: "expect m = Ok x \<longleftrightarrow> m = Some x"
  by (cases m) auto

lemma is_ok_iff [result_simps]: "is_ok r \<longleftrightarrow> (\<exists>x. r = Ok x)"
  by (cases r) (auto simp: is_ok_def)

lemma unwrap_or_Ok [simp]: "unwrap_or (Ok x) d = x"
  by (simp add: unwrap_or_def)

lemma ok_or_not_Panic [simp]: "ok_or m e \<noteq> Panic"
  by (cases m) auto

text \<open>The same for the failing branch, kept apart: it is wanted only where errors are told apart.\<close>

lemma and_then_Err_iff [err_simps]:
  "and_then r f = Err e \<longleftrightarrow> r = Err e \<or> (\<exists>x. r = Ok x \<and> f x = Err e)"
  by (cases r) auto

lemma map_err_Err_iff [err_simps]: "map_err g r = Err e \<longleftrightarrow> (\<exists>d. r = Err d \<and> e = g d)"
  by (cases r) auto

lemma map_err_Panic_iff [result_simps, err_simps]: "map_err g r = Panic \<longleftrightarrow> r = Panic"
  by (cases r) auto

lemma ok_or_Err_iff [err_simps]: "ok_or m e = Err d \<longleftrightarrow> m = None \<and> d = e"
  by (cases m) auto

lemma is_ok_and_then: "is_ok (and_then r f) \<longleftrightarrow> (\<exists>x. r = Ok x \<and> is_ok (f x))"
  by (cases r) (auto simp: is_ok_def)

lemma try_map_cong [fundef_cong]:
  "xs = ys \<Longrightarrow> (\<And>x. x \<in> set ys \<Longrightarrow> f x = g x) \<Longrightarrow> try_map f xs = try_map g ys"
  by (induction ys arbitrary: xs) auto

lemma try_map_Ok_iff [result_simps]:
  "try_map f xs = Ok ys \<longleftrightarrow> list_all2 (\<lambda>x y. f x = Ok y) xs ys"
proof (induction xs arbitrary: ys)
  case (Cons x xs)
  then show ?case by (cases ys) (auto simp: result_simps)
qed auto

lemma list_all2_functional:
  "(\<And>x y. x \<in> set xs \<Longrightarrow> R x y \<longleftrightarrow> Q x \<and> y = f x) \<Longrightarrow>
     list_all2 R xs ys \<longleftrightarrow> (\<forall>x \<in> set xs. Q x) \<and> ys = map f xs"
proof (induction xs arbitrary: ys)
  case (Cons x xs)
  then show ?case by (cases ys) auto
qed simp

lemma try_fold_append: "try_fold f (xs @ ys) s = and_then (try_fold f xs s) (try_fold f ys)"
proof (induction xs arbitrary: s)
  case (Cons x xs)
  then show ?case by (cases "f x s") auto
qed auto

lemma try_fold_map: "try_fold (\<lambda>x. f (g x)) xs s = try_fold f (map g xs) s"
proof (induction xs arbitrary: s)
  case (Cons x xs)
  then show ?case by (cases "f (g x) s") auto
qed simp

lemma try_fold_not_Panic: "(\<And>x s. x \<in> set xs \<Longrightarrow> f x s \<noteq> Panic) \<Longrightarrow> try_fold f xs s \<noteq> Panic"
proof (induction xs arbitrary: s)
  case (Cons x xs)
  then show ?case by (cases "f x s") auto
qed simp

lemma try_map_not_Panic: "(\<And>x. x \<in> set xs \<Longrightarrow> f x \<noteq> Panic) \<Longrightarrow> try_map f xs \<noteq> Panic"
  by (induction xs) (auto simp: and_then_Panic_iff)

section \<open>Bounded recursion\<close>

text \<open>
  A recursion that the source does not bound carries the number of stack frames left;
  \<open>None\<close> is an exhausted stack, which no caller can recover from.
\<close>

fun opt_fold :: "('a \<Rightarrow> 's \<Rightarrow> 's option) \<Rightarrow> 'a list \<Rightarrow> 's \<Rightarrow> 's option" where
  "opt_fold f [] s = Some s"
| "opt_fold f (x # xs) s = Option.bind (f x s) (opt_fold f xs)"

lemma opt_fold_Nil_eq [simp]: "opt_fold f [] = Some"
  by (rule ext) simp

lemma opt_fold_append: "opt_fold f (xs @ ys) s = Option.bind (opt_fold f xs s) (opt_fold f ys)"
proof (induction xs arbitrary: s)
  case (Cons x xs)
  then show ?case by (cases "f x s") simp_all
qed simp

lemma opt_fold_mono:
  "(\<And>x s s'. x \<in> set xs \<Longrightarrow> f x s = Some s' \<Longrightarrow> g x s = Some s') \<Longrightarrow>
     opt_fold f xs s = Some s' \<Longrightarrow> opt_fold g xs s = Some s'"
proof (induction xs arbitrary: s)
  case (Cons x xs)
  then obtain u where "f x s = Some u" "opt_fold f xs u = Some s'"
    by (auto simp: bind_eq_Some_conv)
  with Cons show ?case by fastforce
qed simp

lemma opt_fold_total:
  "(\<And>x s. x \<in> set xs \<Longrightarrow> \<exists>s'. f x s = Some s') \<Longrightarrow> \<exists>s'. opt_fold f xs s = Some s'"
proof (induction xs arbitrary: s)
  case (Cons x xs)
  then obtain u where "f x s = Some u" by (meson list.set_intros(1))
  with Cons show ?case by fastforce
qed simp

lemma opt_fold_union:
  "(\<And>x s s'. x \<in> set xs \<Longrightarrow> f x s = Some s' \<Longrightarrow> s' = s \<union> A x) \<Longrightarrow>
     opt_fold f xs s = Some s' \<Longrightarrow> s' = s \<union> (\<Union>x \<in> set xs. A x)"
proof (induction xs arbitrary: s)
  case (Cons x xs)
  then obtain u where "f x s = Some u" "opt_fold f xs u = Some s'"
    by (auto simp: bind_eq_Some_conv)
  with Cons have "u = s \<union> A x" "s' = u \<union> (\<Union>x \<in> set xs. A x)" by auto
  then show ?case by auto
qed simp

lemma opt_fold_steps:
  "opt_fold f xs s = Some s' \<Longrightarrow> x \<in> set xs \<Longrightarrow> \<exists>u u'. f x u = Some u'"
proof (induction xs arbitrary: s)
  case (Cons y xs)
  then show ?case by (auto simp: bind_eq_Some_conv)
qed simp

lemma opt_fold_invariant:
  "(\<And>x s s'. x \<in> set xs \<Longrightarrow> I s \<Longrightarrow> f x s = Some s' \<Longrightarrow> I s') \<Longrightarrow>
     opt_fold f xs s = Some s' \<Longrightarrow> I s \<Longrightarrow> I s'"
proof (induction xs arbitrary: s)
  case (Cons x xs)
  then obtain u where "f x s = Some u" "opt_fold f xs u = Some s'"
    by (auto simp: bind_eq_Some_conv)
  with Cons show ?case by (metis list.set_intros)
qed simp

text \<open>
  A machine whose steps may be disabled or fatal (\<open>None\<close>), with an invariant; its runs are
  \<open>opt_fold\<close> over the list of events.
\<close>

locale step_machine =
  fixes step :: "'e \<Rightarrow> 's \<Rightarrow> 's option"
    and invar :: "'s \<Rightarrow> bool"
  assumes step_invar: "invar s \<Longrightarrow> step e s = Some s' \<Longrightarrow> invar s'"
begin

lemma run_invar: "invar s \<Longrightarrow> opt_fold step es s = Some s' \<Longrightarrow> invar s'"
  by (rule opt_fold_invariant [where f = step and I = invar]) (auto intro: step_invar)

lemma run_mono:
  assumes "\<And>e s s'. invar s \<Longrightarrow> step e s = Some s' \<Longrightarrow> R s s'" "\<And>s. R s s"
    and "\<And>s t u. R s t \<Longrightarrow> R t u \<Longrightarrow> R s u"
  shows "invar s \<Longrightarrow> opt_fold step es s = Some s' \<Longrightarrow> R s s'"
proof (induction es arbitrary: s)
  case (Cons e es)
  then obtain u where "step e s = Some u" "opt_fold step es u = Some s'"
    by (auto simp: bind_eq_Some_conv)
  with Cons assms(1,3) step_invar show ?case by blast
qed (simp add: assms(2))

end

section \<open>Hash maps\<close>

text \<open>
  A \<open>HashMap\<close>, \<open>IndexMap\<close> or \<open>serde_json::Map\<close> is an association list whose keys are
  distinct (\<open>hmap_ok\<close>). \<open>insert\<close> is \<^const>\<open>AList.update\<close>, which replaces the value in place.
\<close>

type_synonym ('k, 'v) hmap = "('k \<times> 'v) list"

definition hmap_ok :: "('k, 'v) hmap \<Rightarrow> bool" where
  "hmap_ok m \<longleftrightarrow> distinct (map fst m)"

lemma hmap_ok_Nil [simp, hmap_simps]: "hmap_ok []"
  by (simp add: hmap_ok_def)

lemma hmap_ok_update [hmap_simps]: "hmap_ok m \<Longrightarrow> hmap_ok (AList.update k v m)"
  by (simp add: hmap_ok_def distinct_update)

lemma hmap_get_update [hmap_simps]:
  "map_of (AList.update k v m) k' = (if k' = k then Some v else map_of m k')"
  by (simp add: update_conv')

lemma hmap_length_update [hmap_simps]:
  "length (AList.update k v m) = (if k \<in> fst ` set m then length m else Suc (length m))"
  by (induction m) (auto split: if_splits)

lemma hmap_update_map:
  "hmap_ok m \<Longrightarrow> k \<in> fst ` set m \<Longrightarrow>
     AList.update k v m = map (\<lambda>(k', x). (k', if k' = k then v else x)) m"
proof (induction m)
  case (Cons a m)
  obtain k0 x0 where a: "a = (k0, x0)" by force
  show ?case
  proof (cases "k0 = k")
    case True
    with Cons.prems a have "k \<notin> fst ` set m" by (auto simp: hmap_ok_def)
    then have "map (\<lambda>(k', x). (k', if k' = k then v else x)) m = m"
      by (intro map_idI) force
    with True a show ?thesis by simp
  next
    case False
    with Cons a show ?thesis by (auto simp: hmap_ok_def)
  qed
qed simp

section \<open>Characters and bytes\<close>

text \<open>
  A Rust \<open>str\<close> is its UTF-8 bytes. It is modelled as an Isabelle string, one \<^typ>\<open>char\<close> per
  byte; \<open>as_bytes\<close> reads it as a byte slice and \<open>of_bytes\<close> is its inverse.
\<close>

definition as_bytes :: "string \<Rightarrow> u8 list" where
  "as_bytes s = map (\<lambda>c. word_of_nat (of_char c)) s"

definition of_bytes :: "u8 list \<Rightarrow> string" where
  "of_bytes bs = map (\<lambda>b. char_of (unat b)) bs"

lemma length_as_bytes [simp]: "length (as_bytes s) = length s"
  by (simp add: as_bytes_def)

lemma length_of_bytes [simp]: "length (of_bytes bs) = length bs"
  by (simp add: of_bytes_def)

lemma of_bytes_as_bytes [simp]: "of_bytes (as_bytes s) = s"
proof -
  have "char_of (unat (word_of_nat (of_char c) :: u8)) = c" for c
  proof -
    have "(of_char c :: nat) < 256" by simp
    then have "unat (word_of_nat (of_char c) :: u8) = of_char c"
      by (simp add: unat_of_nat take_bit_eq_mod)
    then show ?thesis by simp
  qed
  then show ?thesis
    by (simp add: of_bytes_def as_bytes_def comp_def)
qed

lemma as_bytes_of_bytes [simp]: "as_bytes (of_bytes bs) = bs"
proof -
  have "word_of_nat (of_char (char_of (unat b))) = b" for b :: u8
  proof -
    have "unat b < 256" using unsigned_less [of b] by simp
    then show ?thesis by (simp add: of_char_of)
  qed
  then show ?thesis
    by (simp add: of_bytes_def as_bytes_def comp_def)
qed

lemma as_bytes_inject [simp]: "as_bytes s = as_bytes t \<longleftrightarrow> s = t"
  by (metis of_bytes_as_bytes)

lemma as_bytes_append [simp]: "as_bytes (s @ t) = as_bytes s @ as_bytes t"
  by (simp add: as_bytes_def)

end
