(* ===== verification/Rust_Str.thy ===== *)
theory Rust_Str
  imports Prelude
begin

text \<open>
  The methods of Rust's \<open>str\<close> that the source calls (\<open>starts_with\<close>, \<open>contains\<close>,
  \<open>strip_prefix\<close>, \<open>strip_suffix\<close>, \<open>split\<close>, \<open>splitn\<close>, \<open>trim\<close>) and UTF-8 validation as in
  \<open>String::from_utf8\<close>. Every delimiter the source searches for is ASCII, so searching the
  bytes of a string is searching its characters.
\<close>

named_theorems str_simps \<open>characterisations of the string methods\<close>

section \<open>Searching and stripping\<close>

definition starts_with :: "string \<Rightarrow> string \<Rightarrow> bool" where
  "starts_with s p \<longleftrightarrow> take (length p) s = p"

fun contains :: "string \<Rightarrow> string \<Rightarrow> bool" where
  "contains [] p = (p = [])"
| "contains (c # s) p = (starts_with (c # s) p \<or> contains s p)"

definition strip_prefix :: "string \<Rightarrow> string \<Rightarrow> string option" where
  "strip_prefix s p = (if starts_with s p then Some (drop (length p) s) else None)"

definition strip_suffix :: "string \<Rightarrow> string \<Rightarrow> string option" where
  "strip_suffix s q =
     (if length q \<le> length s \<and> drop (length s - length q) s = q
      then Some (take (length s - length q) s) else None)"

fun split_on :: "char \<Rightarrow> string \<Rightarrow> string list" where
  "split_on d [] = [[]]"
| "split_on d (c # s) =
     (if c = d then [] # split_on d s
      else (case split_on d s of [] \<Rightarrow> [[c]] | p # ps \<Rightarrow> (c # p) # ps))"

fun splitn :: "nat \<Rightarrow> char \<Rightarrow> string \<Rightarrow> string list" where
  "splitn 0 d s = []"
| "splitn (Suc 0) d s = [s]"
| "splitn (Suc (Suc n)) d s =
     (case dropWhile (\<lambda>c. c \<noteq> d) s of
        [] \<Rightarrow> [s]
      | _ # rest \<Rightarrow> takeWhile (\<lambda>c. c \<noteq> d) s # splitn (Suc n) d rest)"

fun join_on :: "char \<Rightarrow> string list \<Rightarrow> string" where
  "join_on d [] = []"
| "join_on d [p] = p"
| "join_on d (p # q # ps) = p @ d # join_on d (q # ps)"

lemma starts_with_iff [str_simps]: "starts_with s p \<longleftrightarrow> (\<exists>t. s = p @ t)"
proof
  assume "starts_with s p"
  then have "s = p @ drop (length p) s"
    unfolding starts_with_def by (metis append_take_drop_id)
  then show "\<exists>t. s = p @ t" ..
qed (auto simp: starts_with_def)

lemma contains_iff [str_simps]: "contains s p \<longleftrightarrow> (\<exists>a b. s = a @ p @ b)"
proof (induction s)
  case (Cons c s)
  show ?case
  proof
    assume "contains (c # s) p"
    then consider "starts_with (c # s) p" | "contains s p" by auto
    then show "\<exists>a b. c # s = a @ p @ b"
    proof cases
      case 1
      then show ?thesis by (metis append_Nil starts_with_iff)
    next
      case 2
      with Cons.IH show ?thesis by (metis append_Cons)
    qed
  next
    assume "\<exists>a b. c # s = a @ p @ b"
    then obtain a b where ab: "c # s = a @ p @ b" by blast
    show "contains (c # s) p"
    proof (cases a)
      case Nil
      with ab have "starts_with (c # s) p" by (auto simp: starts_with_iff)
      then show ?thesis by simp
    next
      case (Cons c' a')
      with ab have "s = a' @ p @ b" by simp
      with Cons.IH show ?thesis by auto
    qed
  qed
qed auto

lemma strip_prefix_Some_iff [str_simps]: "strip_prefix s p = Some t \<longleftrightarrow> s = p @ t"
  by (auto simp: strip_prefix_def starts_with_iff)

lemma strip_prefix_None_iff: "strip_prefix s p = None \<longleftrightarrow> \<not> starts_with s p"
  by (simp add: strip_prefix_def)

lemma strip_suffix_Some_iff [str_simps]: "strip_suffix s q = Some t \<longleftrightarrow> s = t @ q"
proof
  assume *: "strip_suffix s q = Some t"
  then have "t = take (length s - length q) s" "drop (length s - length q) s = q"
    by (auto simp: strip_suffix_def split: if_splits)
  then show "s = t @ q" by (metis append_take_drop_id)
qed (auto simp: strip_suffix_def)

lemma strip_suffix_append [simp]: "strip_suffix (t @ q) q = Some t"
  by (simp add: strip_suffix_Some_iff)

lemma strip_suffix_None_iff: "strip_suffix s q = None \<longleftrightarrow> (\<forall>t. s \<noteq> t @ q)"
  by (metis not_None_eq strip_suffix_Some_iff)

lemma split_on_not_Nil [simp]: "split_on d s \<noteq> []"
  by (induction s) (auto split: list.split)

lemma join_on_Cons: "ps \<noteq> [] \<Longrightarrow> join_on d (p # ps) = p @ d # join_on d ps"
  by (cases ps) auto

lemma join_on_split_on [simp]: "join_on d (split_on d s) = s"
proof (induction s)
  case (Cons c s)
  obtain p ps where ps: "split_on d s = p # ps"
    by (meson neq_Nil_conv split_on_not_Nil)
  with Cons have j: "join_on d (p # ps) = s" by simp
  show ?case
  proof (cases "c = d")
    case True
    with ps j show ?thesis by simp
  next
    case False
    with ps j show ?thesis by (cases ps) auto
  qed
qed simp

lemma split_on_inject: "split_on d s = split_on d t \<longleftrightarrow> s = t"
  by (metis join_on_split_on)

lemma split_on_pieces: "p \<in> set (split_on d s) \<Longrightarrow> d \<notin> set p"
proof (induction s arbitrary: p)
  case (Cons c s)
  then show ?case by (auto split: if_splits list.splits)
qed simp

lemma split_on_free: "d \<notin> set p \<Longrightarrow> split_on d p = [p]"
  by (induction p) auto

lemma split_on_append:
  "d \<notin> set p \<Longrightarrow> split_on d (p @ d # s) = p # split_on d s"
  by (induction p) auto

lemma split_on_join_on:
  "ps \<noteq> [] \<Longrightarrow> (\<And>p. p \<in> set ps \<Longrightarrow> d \<notin> set p) \<Longrightarrow> split_on d (join_on d ps) = ps"
proof (induction ps)
  case (Cons p ps)
  then show ?case
    by (cases ps) (auto simp: split_on_free split_on_append)
qed simp

lemma splitn_3_iff:
  "splitn 3 d s = [a, b, c] \<longleftrightarrow> s = a @ d # b @ d # c \<and> d \<notin> set a \<and> d \<notin> set b"
proof
  assume *: "splitn 3 d s = [a, b, c]"
  then obtain r where r: "dropWhile (\<lambda>c. c \<noteq> d) s = d # r"
      "a = takeWhile (\<lambda>c. c \<noteq> d) s" "splitn 2 d r = [b, c]"
    by (auto simp: numeral_3_eq_3 numeral_2_eq_2 split: list.splits)
       (metis (mono_tags, lifting) dropWhile_eq_Cons_conv)
  then obtain r' where r': "dropWhile (\<lambda>c. c \<noteq> d) r = d # r'"
      "b = takeWhile (\<lambda>c. c \<noteq> d) r" "c = r'"
    by (auto simp: numeral_2_eq_2 split: list.splits)
       (metis (mono_tags, lifting) dropWhile_eq_Cons_conv)
  have "s = a @ d # r" using r(1,2) by (metis takeWhile_dropWhile_id)
  moreover have "r = b @ d # c" using r' by (metis takeWhile_dropWhile_id)
  moreover have "d \<notin> set a" "d \<notin> set b" using r(2) r'(2) by (auto dest: set_takeWhileD)
  ultimately show "s = a @ d # b @ d # c \<and> d \<notin> set a \<and> d \<notin> set b" by simp
next
  assume "s = a @ d # b @ d # c \<and> d \<notin> set a \<and> d \<notin> set b"
  then show "splitn 3 d s = [a, b, c]"
    by (simp add: numeral_3_eq_3 dropWhile_append takeWhile_append)
qed

section \<open>UTF-8\<close>

text \<open>
  \<open>utf8_chars\<close> decodes a byte slice to Unicode scalar values, or fails where
  \<open>core::str::from_utf8\<close> fails: stray or missing continuation bytes, overlong forms,
  surrogates, and values above U+10FFFF.
\<close>

definition utf8_cont :: "u8 \<Rightarrow> bool" where
  "utf8_cont b \<longleftrightarrow> 0x80 \<le> b \<and> b \<le> 0xBF"

definition utf8_snd3 :: "u8 \<Rightarrow> u8 \<Rightarrow> bool" where
  "utf8_snd3 b c \<longleftrightarrow> utf8_cont c \<and> (b = 0xE0 \<longrightarrow> 0xA0 \<le> c) \<and> (b = 0xED \<longrightarrow> c \<le> 0x9F)"

definition utf8_snd4 :: "u8 \<Rightarrow> u8 \<Rightarrow> bool" where
  "utf8_snd4 b c \<longleftrightarrow> utf8_cont c \<and> (b = 0xF0 \<longrightarrow> 0x90 \<le> c) \<and> (b = 0xF4 \<longrightarrow> c \<le> 0x8F)"

fun utf8_chars :: "u8 list \<Rightarrow> nat list option" where
  "utf8_chars [] = Some []"
| "utf8_chars (b # bs) =
     (if b < 0x80 then map_option (Cons (unat b)) (utf8_chars bs)
      else if 0xC2 \<le> b \<and> b \<le> 0xDF then
        (case bs of
           c # r \<Rightarrow>
             if utf8_cont c
             then map_option (Cons ((unat b - 0xC0) * 64 + (unat c - 0x80))) (utf8_chars r)
             else None
         | _ \<Rightarrow> None)
      else if 0xE0 \<le> b \<and> b \<le> 0xEF then
        (case bs of
           c # d # r \<Rightarrow>
             if utf8_snd3 b c \<and> utf8_cont d
             then map_option
               (Cons ((unat b - 0xE0) * 4096 + (unat c - 0x80) * 64 + (unat d - 0x80)))
               (utf8_chars r)
             else None
         | _ \<Rightarrow> None)
      else if 0xF0 \<le> b \<and> b \<le> 0xF4 then
        (case bs of
           c # d # e # r \<Rightarrow>
             if utf8_snd4 b c \<and> utf8_cont d \<and> utf8_cont e
             then map_option
               (Cons ((unat b - 0xF0) * 262144 + (unat c - 0x80) * 4096
                      + (unat d - 0x80) * 64 + (unat e - 0x80)))
               (utf8_chars r)
             else None
         | _ \<Rightarrow> None)
      else None)"

definition valid_str :: "string \<Rightarrow> bool" where
  "valid_str s \<longleftrightarrow> utf8_chars (as_bytes s) \<noteq> None"

definition from_utf8 :: "u8 list \<Rightarrow> string option" where
  "from_utf8 bs = (if utf8_chars bs \<noteq> None then Some (of_bytes bs) else None)"

definition is_ascii :: "char \<Rightarrow> bool" where
  "is_ascii c \<longleftrightarrow> (of_char c :: nat) < 128"

text \<open>\<open>char::is_whitespace\<close>: the Unicode property \<open>White_Space\<close>.\<close>

definition is_whitespace :: "nat \<Rightarrow> bool" where
  "is_whitespace c \<longleftrightarrow>
     9 \<le> c \<and> c \<le> 13 \<or> c = 32 \<or> c = 0x85 \<or> c = 0xA0 \<or> c = 0x1680
     \<or> 0x2000 \<le> c \<and> c \<le> 0x200A \<or> c = 0x2028 \<or> c = 0x2029 \<or> c = 0x202F
     \<or> c = 0x205F \<or> c = 0x3000"

definition trim_chars :: "nat list \<Rightarrow> nat list" where
  "trim_chars cs = dropWhile is_whitespace (rev (dropWhile is_whitespace (rev cs)))"

text \<open>\<open>s.trim().is_empty()\<close>, the only use of \<open>trim\<close> in the source.\<close>

definition trim_is_empty :: "string \<Rightarrow> bool" where
  "trim_is_empty s = (map_option trim_chars (utf8_chars (as_bytes s)) = Some [])"

lemma from_utf8_as_bytes: "valid_str s \<Longrightarrow> from_utf8 (as_bytes s) = Some s"
  by (simp add: from_utf8_def valid_str_def)

lemma from_utf8_Some_iff [str_simps]:
  "from_utf8 bs = Some s \<longleftrightarrow> bs = as_bytes s \<and> valid_str s"
  by (auto simp: from_utf8_def valid_str_def)

lemma ascii_valid_str: "(\<And>c. c \<in> set s \<Longrightarrow> is_ascii c) \<Longrightarrow> valid_str s"
proof (induction s)
  case Nil
  then show ?case by (simp add: valid_str_def as_bytes_def)
next
  case (Cons c s)
  then have "(of_char c :: nat) < 128" by (auto simp: is_ascii_def)
  then have "(word_of_nat (of_char c) :: u8) < 0x80"
    by (simp add: word_less_nat_alt unat_of_nat take_bit_eq_mod)
  with Cons show ?case by (auto simp: valid_str_def as_bytes_def)
qed

lemma trim_chars_Nil_iff: "trim_chars cs = [] \<longleftrightarrow> (\<forall>c \<in> set cs. is_whitespace c)"
proof
  assume "trim_chars cs = []"
  then have "\<forall>c \<in> set (dropWhile is_whitespace (rev cs)). is_whitespace c"
    by (simp add: trim_chars_def)
  then have "dropWhile is_whitespace (rev cs) = []"
    by (metis hd_dropWhile hd_in_set)
  then show "\<forall>c \<in> set cs. is_whitespace c" by simp
qed (auto simp: trim_chars_def dest: set_dropWhileD)

text \<open>A string that starts with a visible ASCII character is not blank.\<close>

lemma not_blank:
  assumes "is_ascii c" "\<not> is_whitespace (of_char c)"
  shows "\<not> trim_is_empty (c # s)"
proof -
  from assms(1) have "(of_char c :: nat) < 128" by (simp add: is_ascii_def)
  then have "(word_of_nat (of_char c) :: u8) < 0x80" "unat (word_of_nat (of_char c) :: u8) = of_char c"
    by (simp_all add: word_less_nat_alt unat_of_nat take_bit_eq_mod)
  then have "utf8_chars (as_bytes (c # s)) = map_option (Cons (of_char c)) (utf8_chars (as_bytes s))"
    by (simp add: as_bytes_def)
  with assms(2) show ?thesis
    by (cases "utf8_chars (as_bytes s)") (auto simp: trim_is_empty_def trim_chars_Nil_iff)
qed

end
