(* ===== verification/Config.thy ===== *)
theory Config
  imports Rust_Str
begin

text \<open>
  Configuration of the two binaries: \<open>src/crates/enclave/src/config.rs\<close> and
  \<open>src/crates/vsock-proxy/src/config.rs\<close>. Reading the environment and converting a variable
  to its type is the work of the \<open>config\<close> crate; the model starts from what it finds for
  each field (\<open>env_var\<close>) and applies the \<open>serde\<close> defaults and the validation of the source.
\<close>

section \<open>What the environment provides for a field\<close>

datatype 'a env_var = Absent | Present 'a | Malformed

definition required :: "string \<Rightarrow> 'a env_var \<Rightarrow> ('a, anyhow) result" where
  "required name v =
     (case v of Present x \<Rightarrow> Ok x | Absent \<Rightarrow> Err [''missing field '' @ name]
              | Malformed \<Rightarrow> Err [''invalid value for '' @ name])"

definition with_default :: "'a \<Rightarrow> string \<Rightarrow> 'a env_var \<Rightarrow> ('a, anyhow) result" where
  "with_default d name v =
     (case v of Present x \<Rightarrow> Ok x | Absent \<Rightarrow> Ok d
              | Malformed \<Rightarrow> Err [''invalid value for '' @ name])"

definition ensure_non_empty :: "string \<Rightarrow> string \<Rightarrow> (unit, anyhow) result" where
  "ensure_non_empty value name =
     (if trim_is_empty value then Err [name @ '' is required and must not be empty''] else Ok ())"

section \<open>The enclave\<close>

record config =
  secret_arn :: string
  kms_key_id :: string
  s3_bucket :: string
  s3_prefix :: string
  schema_header_name :: string
  dek_rotation_interval_secs :: u64
  schema_refresh_interval_secs :: u64
  vsock_proxy_cid :: u32
  vsock_proxy_port :: u32
  tls_port :: u16
  tls_cert_path :: string
  tls_key_path :: string
  otel_exporter_otlp_endpoint :: string
  log_level :: string

record environment =
  env_secret_arn :: "string env_var"
  env_kms_key_id :: "string env_var"
  env_s3_bucket :: "string env_var"
  env_s3_prefix :: "string env_var"
  env_schema_header_name :: "string env_var"
  env_dek_rotation_interval_secs :: "u64 env_var"
  env_schema_refresh_interval_secs :: "u64 env_var"
  env_vsock_proxy_cid :: "u32 env_var"
  env_vsock_proxy_port :: "u32 env_var"
  env_tls_port :: "u16 env_var"
  env_tls_cert_path :: "string env_var"
  env_tls_key_path :: "string env_var"
  env_otel_exporter_otlp_endpoint :: "string env_var"
  env_log_level :: "string env_var"

definition default_s3_prefix :: string where
  "default_s3_prefix = ''schemas/''"

definition default_schema_header :: string where
  "default_schema_header = ''X-Schema-Name''"

definition default_dek_rotation_interval :: u64 where
  "default_dek_rotation_interval = 3600"

definition default_schema_refresh_interval :: u64 where
  "default_schema_refresh_interval = 300"

definition default_vsock_proxy_port :: u32 where
  "default_vsock_proxy_port = 8000"

definition default_tls_port :: u16 where
  "default_tls_port = 443"

definition default_log_level :: string where
  "default_log_level = ''info''"

definition deserialize :: "environment \<Rightarrow> (config, anyhow) result" where
  "deserialize e =
     and_then (required ''secret_arn'' (env_secret_arn e)) (\<lambda>arn.
     and_then (required ''kms_key_id'' (env_kms_key_id e)) (\<lambda>kms.
     and_then (required ''s3_bucket'' (env_s3_bucket e)) (\<lambda>bucket.
     and_then (with_default default_s3_prefix ''s3_prefix'' (env_s3_prefix e)) (\<lambda>pre.
     and_then (with_default default_schema_header ''schema_header_name''
                 (env_schema_header_name e)) (\<lambda>hdr.
     and_then (with_default default_dek_rotation_interval ''dek_rotation_interval_secs''
                 (env_dek_rotation_interval_secs e)) (\<lambda>rot.
     and_then (with_default default_schema_refresh_interval ''schema_refresh_interval_secs''
                 (env_schema_refresh_interval_secs e)) (\<lambda>ref.
     and_then (required ''vsock_proxy_cid'' (env_vsock_proxy_cid e)) (\<lambda>cid.
     and_then (with_default default_vsock_proxy_port ''vsock_proxy_port''
                 (env_vsock_proxy_port e)) (\<lambda>port.
     and_then (with_default default_tls_port ''tls_port'' (env_tls_port e)) (\<lambda>tls.
     and_then (required ''tls_cert_path'' (env_tls_cert_path e)) (\<lambda>cert.
     and_then (required ''tls_key_path'' (env_tls_key_path e)) (\<lambda>key.
     and_then (required ''otel_exporter_otlp_endpoint''
                 (env_otel_exporter_otlp_endpoint e)) (\<lambda>otel.
     and_then (with_default default_log_level ''log_level'' (env_log_level e)) (\<lambda>level.
       Ok \<lparr>secret_arn = arn, kms_key_id = kms, s3_bucket = bucket, s3_prefix = pre,
           schema_header_name = hdr, dek_rotation_interval_secs = rot,
           schema_refresh_interval_secs = ref, vsock_proxy_cid = cid, vsock_proxy_port = port,
           tls_port = tls, tls_cert_path = cert, tls_key_path = key,
           otel_exporter_otlp_endpoint = otel, log_level = level\<rparr>))))))))))))))"

definition validate :: "config \<Rightarrow> (unit, anyhow) result" where
  "validate c =
     and_then (ensure_non_empty (secret_arn c) ''SECRET_ARN'') (\<lambda>_.
     and_then (ensure_non_empty (kms_key_id c) ''KMS_KEY_ID'') (\<lambda>_.
     and_then (ensure_non_empty (s3_bucket c) ''S3_BUCKET'') (\<lambda>_.
     and_then (ensure_non_empty (otel_exporter_otlp_endpoint c)
                 ''OTEL_EXPORTER_OTLP_ENDPOINT'') (\<lambda>_.
     and_then (ensure_non_empty (tls_cert_path c) ''TLS_CERT_PATH'') (\<lambda>_.
     and_then (ensure_non_empty (tls_key_path c) ''TLS_KEY_PATH'') (\<lambda>_.
       if vsock_proxy_cid c = 0 then Err [''VSOCK_PROXY_CID must be a non-zero vsock CID'']
       else if dek_rotation_interval_secs c = 0 then Err [''DEK_ROTATION_INTERVAL_SECS must be > 0'']
       else if schema_refresh_interval_secs c = 0 then Err [''SCHEMA_REFRESH_INTERVAL_SECS must be > 0'']
       else Ok ()))))))"

text \<open>\<open>build\<close> is the outcome of building the \<open>config\<close> crate's source from the environment.\<close>

definition from_env :: "(environment, anyhow) result \<Rightarrow> (config, anyhow) result" where
  "from_env build =
     and_then (with_context build ''failed to build configuration from environment'') (\<lambda>cfg.
     and_then (with_context (deserialize cfg) ''failed to deserialise configuration'') (\<lambda>c.
     and_then (validate c) (\<lambda>_. Ok c)))"

section \<open>The proxy\<close>

record proxy_config =
  listen_port :: u16
  enclave_cid :: u32
  enclave_port :: u32
  main_app_addr :: string
  proxy_log_level :: string

record proxy_environment =
  env_listen_port :: "u16 env_var"
  env_enclave_cid :: "u32 env_var"
  env_enclave_port :: "u32 env_var"
  env_main_app_addr :: "string env_var"
  env_proxy_log_level :: "string env_var"

definition default_listen_port :: u16 where
  "default_listen_port = 8443"

definition default_enclave_port :: u32 where
  "default_enclave_port = 443"

definition default_proxy_log_level :: string where
  "default_proxy_log_level = ''info''"

definition proxy_deserialize :: "proxy_environment \<Rightarrow> (proxy_config, anyhow) result" where
  "proxy_deserialize e =
     and_then (with_default default_listen_port ''listen_port'' (env_listen_port e)) (\<lambda>port.
     and_then (required ''enclave_cid'' (env_enclave_cid e)) (\<lambda>cid.
     and_then (with_default default_enclave_port ''enclave_port'' (env_enclave_port e)) (\<lambda>eport.
     and_then (required ''main_app_addr'' (env_main_app_addr e)) (\<lambda>addr.
     and_then (with_default default_proxy_log_level ''log_level'' (env_proxy_log_level e)) (\<lambda>level.
       Ok \<lparr>listen_port = port, enclave_cid = cid, enclave_port = eport, main_app_addr = addr,
           proxy_log_level = level\<rparr>)))))"

definition proxy_validate :: "proxy_config \<Rightarrow> (unit, anyhow) result" where
  "proxy_validate c =
     (if enclave_cid c = 0 then Err [''ENCLAVE_CID must be a non-zero vsock CID'']
      else if trim_is_empty (main_app_addr c)
      then Err [''MAIN_APP_ADDR is required and must not be empty'']
      else Ok ())"

definition proxy_from_env :: "(proxy_environment, anyhow) result \<Rightarrow> (proxy_config, anyhow) result" where
  "proxy_from_env build =
     and_then (with_context build ''failed to build vsock-proxy configuration'') (\<lambda>cfg.
     and_then (with_context (proxy_deserialize cfg)
                 ''failed to deserialise vsock-proxy configuration'') (\<lambda>c.
     and_then (proxy_validate c) (\<lambda>_. Ok c)))"

section \<open>What validation guarantees\<close>

definition config_ok :: "config \<Rightarrow> bool" where
  "config_ok c \<longleftrightarrow>
     list_all (\<lambda>s. \<not> trim_is_empty s)
       [secret_arn c, kms_key_id c, s3_bucket c, otel_exporter_otlp_endpoint c,
        tls_cert_path c, tls_key_path c] \<and>
     vsock_proxy_cid c \<noteq> 0 \<and> dek_rotation_interval_secs c \<noteq> 0 \<and>
     schema_refresh_interval_secs c \<noteq> 0"

lemma ensure_non_empty_Ok_iff [result_simps]:
  "ensure_non_empty value name = Ok u \<longleftrightarrow> \<not> trim_is_empty value"
  by (simp add: ensure_non_empty_def)

lemma required_Ok_iff [result_simps]: "required name v = Ok x \<longleftrightarrow> v = Present x"
  by (auto simp: required_def split: env_var.splits)

lemma with_default_Ok_iff [result_simps]:
  "with_default d name v = Ok x \<longleftrightarrow> v = Present x \<or> v = Absent \<and> x = d"
  by (auto simp: with_default_def split: env_var.splits)

lemma validate_Ok_iff: "validate c = Ok () \<longleftrightarrow> config_ok c"
  by (auto simp: validate_def config_ok_def result_simps)

lemma from_env_Ok_iff:
  "from_env build = Ok c \<longleftrightarrow> (\<exists>e. build = Ok e \<and> deserialize e = Ok c) \<and> config_ok c"
  by (auto simp: from_env_def result_simps validate_Ok_iff)

lemma deserialize_Ok_iff:
  "deserialize e = Ok c \<longleftrightarrow>
     env_secret_arn e = Present (secret_arn c) \<and>
     env_kms_key_id e = Present (kms_key_id c) \<and>
     env_s3_bucket e = Present (s3_bucket c) \<and>
     with_default ''schemas/'' ''s3_prefix'' (env_s3_prefix e) = Ok (s3_prefix c) \<and>
     with_default ''X-Schema-Name'' ''schema_header_name'' (env_schema_header_name e) =
       Ok (schema_header_name c) \<and>
     with_default 3600 ''dek_rotation_interval_secs'' (env_dek_rotation_interval_secs e) =
       Ok (dek_rotation_interval_secs c) \<and>
     with_default 300 ''schema_refresh_interval_secs'' (env_schema_refresh_interval_secs e) =
       Ok (schema_refresh_interval_secs c) \<and>
     env_vsock_proxy_cid e = Present (vsock_proxy_cid c) \<and>
     with_default 8000 ''vsock_proxy_port'' (env_vsock_proxy_port e) = Ok (vsock_proxy_port c) \<and>
     with_default 443 ''tls_port'' (env_tls_port e) = Ok (tls_port c) \<and>
     env_tls_cert_path e = Present (tls_cert_path c) \<and>
     env_tls_key_path e = Present (tls_key_path c) \<and>
     env_otel_exporter_otlp_endpoint e = Present (otel_exporter_otlp_endpoint c) \<and>
     with_default ''info'' ''log_level'' (env_log_level e) = Ok (log_level c)"
  by (cases c)
    (simp add: deserialize_def and_then_Ok_iff required_Ok_iff default_s3_prefix_def
      default_schema_header_def default_dek_rotation_interval_def
      default_schema_refresh_interval_def default_vsock_proxy_port_def default_tls_port_def
      default_log_level_def)

section \<open>Properties\<close>

definition sample_config :: config where
  "sample_config =
     \<lparr>secret_arn = ''arn'', kms_key_id = ''key'', s3_bucket = ''bucket'', s3_prefix = ''schemas/'',
      schema_header_name = ''X-Schema-Name'', dek_rotation_interval_secs = 3600,
      schema_refresh_interval_secs = 300, vsock_proxy_cid = 3, vsock_proxy_port = 8000,
      tls_port = 443, tls_cert_path = ''cert'', tls_key_path = ''pem'',
      otel_exporter_otlp_endpoint = ''http://127.0.0.1:4317'', log_level = ''info''\<rparr>"

text \<open>
  \<open>Config::from_env\<close> of the enclave accepts an environment and gives the configuration \<open>c\<close>
  exactly when every required variable is present, every optional one is present or takes its
  documented default, and the six required strings are not blank, the vsock CID is not zero and
  both background intervals are positive.
\<close>

lemma from_env_exact:
  "from_env (Ok e) = Ok c \<longleftrightarrow>
     (env_secret_arn e = Present (secret_arn c) \<and>
      env_kms_key_id e = Present (kms_key_id c) \<and>
      env_s3_bucket e = Present (s3_bucket c) \<and>
      with_default ''schemas/'' ''s3_prefix'' (env_s3_prefix e) = Ok (s3_prefix c) \<and>
      with_default ''X-Schema-Name'' ''schema_header_name'' (env_schema_header_name e) =
        Ok (schema_header_name c) \<and>
      with_default 3600 ''dek_rotation_interval_secs'' (env_dek_rotation_interval_secs e) =
        Ok (dek_rotation_interval_secs c) \<and>
      with_default 300 ''schema_refresh_interval_secs'' (env_schema_refresh_interval_secs e) =
        Ok (schema_refresh_interval_secs c) \<and>
      env_vsock_proxy_cid e = Present (vsock_proxy_cid c) \<and>
      with_default 8000 ''vsock_proxy_port'' (env_vsock_proxy_port e) = Ok (vsock_proxy_port c) \<and>
      with_default 443 ''tls_port'' (env_tls_port e) = Ok (tls_port c) \<and>
      env_tls_cert_path e = Present (tls_cert_path c) \<and>
      env_tls_key_path e = Present (tls_key_path c) \<and>
      env_otel_exporter_otlp_endpoint e = Present (otel_exporter_otlp_endpoint c) \<and>
      with_default ''info'' ''log_level'' (env_log_level e) = Ok (log_level c)) \<and>
     list_all (\<lambda>s. \<not> trim_is_empty s)
       [secret_arn c, kms_key_id c, s3_bucket c, otel_exporter_otlp_endpoint c,
        tls_cert_path c, tls_key_path c] \<and>
     0 < vsock_proxy_cid c \<and> 0 < dek_rotation_interval_secs c \<and>
     0 < schema_refresh_interval_secs c"
  unfolding from_env_Ok_iff deserialize_Ok_iff [symmetric] config_ok_def
  by (auto simp: word_neq_0_conv)

text \<open>
  The environment of \<open>src/config/enclave.env.example\<close> sets what its comment calls required, but
  neither \<open>TLS_CERT_PATH\<close> nor \<open>TLS_KEY_PATH\<close>, and is not accepted.
\<close>

definition example_env :: environment where
  "example_env =
     \<lparr>env_secret_arn = Present ''arn:aws:secretsmanager:us-east-1:123456789012:secret:nitro-enc-svc/dek'',
      env_kms_key_id = Present ''arn:aws:kms:us-east-1:123456789012:key/00000000-0000-0000-0000-000000000000'',
      env_s3_bucket = Present ''my-schema-bucket'',
      env_s3_prefix = Present ''schemas/'',
      env_schema_header_name = Present ''X-Schema-Name'',
      env_dek_rotation_interval_secs = Present 3600,
      env_schema_refresh_interval_secs = Present 300,
      env_vsock_proxy_cid = Present 3,
      env_vsock_proxy_port = Present 8000,
      env_tls_port = Present 443,
      env_tls_cert_path = Absent,
      env_tls_key_path = Absent,
      env_otel_exporter_otlp_endpoint = Present ''http://127.0.0.1:4317'',
      env_log_level = Present ''info''\<rparr>"

lemma example_env_is_refused:
  "from_env (Ok example_env) = Err [''failed to deserialise configuration'', ''missing field tls_cert_path'']"
  by (simp add: from_env_def deserialize_def example_env_def required_def with_default_def with_context_def)

end
