(* ===== verification/Protocol.thy ===== *)
theory Protocol
  imports Rust_Str
begin

text \<open>
  The crate \<open>common\<close>: the JSON values that requests and responses carry, the error type with
  its HTTP status, and the bodies of the endpoints (\<open>src/crates/common/src/protocol.rs\<close> and
  \<open>error.rs\<close>). The structure of a JSON value is shared by every component, so its
  well-formedness (\<open>wf_json\<close>) and the two views of it used in the specifications are here:
  \<open>leaves\<close> lists every string with the path that leads to it, \<open>map_strings\<close> rewrites every
  string knowing its path.
\<close>

section \<open>Errors\<close>

datatype service_error =
    BadRequest string
  | EncryptionFailure string
  | Unavailable string
  | Internal string

fun show_service_error :: "service_error \<Rightarrow> string" where
  "show_service_error (BadRequest m) = ''bad request: '' @ m"
| "show_service_error (EncryptionFailure m) = ''encryption failure: '' @ m"
| "show_service_error (Unavailable m) = ''service unavailable: '' @ m"
| "show_service_error (Internal m) = ''internal error: '' @ m"

fun http_status :: "service_error \<Rightarrow> u16" where
  "http_status (BadRequest _) = 400"
| "http_status (EncryptionFailure _) = 500"
| "http_status (Unavailable _) = 503"
| "http_status (Internal _) = 500"

section \<open>JSON values\<close>

text \<open>
  \<open>serde_json::Value\<close>. The source never looks inside a number, so the type of numbers is a
  parameter. An object is a map with distinct keys.
\<close>

datatype 'n json =
    JNull
  | JBool bool
  | JNumber 'n
  | JString string
  | JArray "'n json list"
  | JObject "(string, 'n json) hmap"

fun as_bool :: "'n json \<Rightarrow> bool option" where
  "as_bool (JBool b) = Some b"
| "as_bool _ = None"

fun wf_json :: "'n json \<Rightarrow> bool" where
  "wf_json (JString s) = valid_str s"
| "wf_json (JArray xs) = (\<forall>x \<in> set xs. wf_json x)"
| "wf_json (JObject m) = (hmap_ok m \<and> (\<forall>(k, x) \<in> set m. valid_str k \<and> wf_json x))"
| "wf_json _ = True"

text \<open>The part of well-formedness that does not speak of strings: keys are distinct.\<close>

fun keys_ok :: "'n json \<Rightarrow> bool" where
  "keys_ok (JArray xs) = (\<forall>x \<in> set xs. keys_ok x)"
| "keys_ok (JObject m) = (hmap_ok m \<and> (\<forall>(k, x) \<in> set m. keys_ok x))"
| "keys_ok _ = True"

text \<open>
  The step from a value into a part of it: a property of an object or any element of an
  array. This is \<open>PathSegment\<close> of \<open>handlers.rs\<close>.
\<close>

datatype path_segment = Key string | ArrayItem

fun leaves :: "'n json \<Rightarrow> (path_segment list \<times> string) list" where
  "leaves (JString s) = [([], s)]"
| "leaves (JArray xs) = concat (map (\<lambda>x. map (\<lambda>(p, s). (ArrayItem # p, s)) (leaves x)) xs)"
| "leaves (JObject m) =
     concat (map (\<lambda>(k, x). map (\<lambda>(p, s). (Key k # p, s)) (leaves x)) m)"
| "leaves _ = []"

fun map_strings :: "(path_segment list \<Rightarrow> string \<Rightarrow> string) \<Rightarrow> 'n json \<Rightarrow> 'n json" where
  "map_strings f (JString s) = JString (f [] s)"
| "map_strings f (JArray xs) = JArray (map (\<lambda>x. map_strings (\<lambda>p. f (ArrayItem # p)) x) xs)"
| "map_strings f (JObject m) =
     JObject (map (\<lambda>(k, x). (k, map_strings (\<lambda>p. f (Key k # p)) x)) m)"
| "map_strings f v = v"

section \<open>Bodies\<close>

record 'n encrypt_request =
  encrypt_request_payload :: "'n json"

record 'n encrypt_response =
  encrypt_response_payload :: "'n json"

record 'n decrypt_request =
  decrypt_request_payload :: "'n json"

record 'n decrypt_response =
  decrypt_response_payload :: "'n json"

record error_response =
  err_code :: string
  err_message :: string

definition error_response_new :: "string \<Rightarrow> string \<Rightarrow> error_response" where
  "error_response_new c m = \<lparr>err_code = c, err_message = m\<rparr>"

record health_response =
  health_status :: string
  health_dek_ready :: bool
  health_schemas_loaded :: nat

section \<open>Strings of a value\<close>

lemma leaves_map_strings:
  "leaves (map_strings f v) = map (\<lambda>(p, s). (p, f p s)) (leaves v)"
proof (induction v arbitrary: f)
  case (JArray xs)
  then show ?case
    by (auto simp: map_concat comp_def case_prod_beta intro!: arg_cong [where f = concat])
next
  case (JObject m)
  have IH: "leaves (map_strings g (snd kx)) = map (\<lambda>(p, s). (p, g p s)) (leaves (snd kx))"
    if "kx \<in> set m" for kx g
    by (rule JObject.IH [OF that]) (cases kx, simp)
  show ?case
    by (auto simp: map_concat comp_def case_prod_beta IH intro!: arg_cong [where f = concat])
qed auto

lemma leaves_map_strings_iff:
  "(p, t) \<in> set (leaves (map_strings f v)) \<longleftrightarrow> (\<exists>s. (p, s) \<in> set (leaves v) \<and> t = f p s)"
  by (auto simp: leaves_map_strings)

lemma map_strings_compose:
  "map_strings f (map_strings g v) = map_strings (\<lambda>p s. f p (g p s)) v"
proof (induction v arbitrary: f g)
  case (JObject m)
  then show ?case by (auto simp: case_prod_beta)
qed auto

lemma map_strings_cong:
  "(\<And>p s. (p, s) \<in> set (leaves v) \<Longrightarrow> f p s = g p s) \<Longrightarrow> map_strings f v = map_strings g v"
proof (induction v arbitrary: f g)
  case (JArray xs)
  show ?case
    by (auto intro!: JArray.IH JArray.prems) force
next
  case (JObject m)
  show ?case
    by (auto intro!: JObject.IH JObject.prems) force+
qed auto

lemma map_strings_ident: "map_strings (\<lambda>p s. s) v = v"
proof (induction v)
  case (JArray xs)
  then show ?case by (simp add: map_idI)
next
  case (JObject m)
  then show ?case by (auto intro!: map_idI)
qed auto

lemma map_strings_id:
  "(\<And>p s. (p, s) \<in> set (leaves v) \<Longrightarrow> f p s = s) \<Longrightarrow> map_strings f v = v"
  using map_strings_cong [of v f "\<lambda>p s. s"] by (simp add: map_strings_ident)

lemma leaves_Nil_iff: "([], s) \<in> set (leaves v) \<longleftrightarrow> v = JString s"
  by (cases v) auto

lemma leaves_Key_iff:
  "(Key k # p, s) \<in> set (leaves v) \<longleftrightarrow>
     (\<exists>m x. v = JObject m \<and> (k, x) \<in> set m \<and> (p, s) \<in> set (leaves x))"
  by (cases v) force+

lemma leaves_ArrayItem_iff:
  "(ArrayItem # p, s) \<in> set (leaves v) \<longleftrightarrow>
     (\<exists>xs x. v = JArray xs \<and> x \<in> set xs \<and> (p, s) \<in> set (leaves x))"
  by (cases v) force+

lemma wf_json_keys_ok: "wf_json v \<Longrightarrow> keys_ok v"
proof (induction v)
  case (JObject m)
  then show ?case by (auto simp: case_prod_beta)
qed auto

lemma keys_ok_map_strings: "keys_ok v \<Longrightarrow> keys_ok (map_strings f v)"
proof (induction v arbitrary: f)
  case (JObject m)
  have keys: "map fst (map (\<lambda>(k, x). (k, map_strings (\<lambda>p. f (Key k # p)) x)) m) = map fst m"
    by (simp add: case_prod_beta comp_def)
  show ?case
    using JObject.prems keys
    by (auto simp: hmap_ok_def simp del: map_map intro!: JObject.IH)
qed auto

lemma wf_json_leaves: "wf_json v \<Longrightarrow> (p, s) \<in> set (leaves v) \<Longrightarrow> valid_str s"
proof (induction v arbitrary: p)
  case (JObject m)
  then show ?case by (auto simp: case_prod_beta)
qed auto

lemma wf_json_map_strings:
  "wf_json v \<Longrightarrow> (\<And>p s. (p, s) \<in> set (leaves v) \<Longrightarrow> valid_str (f p s)) \<Longrightarrow>
     wf_json (map_strings f v)"
proof (induction v arbitrary: f)
  case (JArray xs)
  show ?case
    using JArray.prems by (auto intro!: JArray.IH) force
next
  case (JObject m)
  have keys: "map fst (map (\<lambda>(k, x). (k, map_strings (\<lambda>p. f (Key k # p)) x)) m) = map fst m"
    by (simp add: case_prod_beta comp_def)
  show ?case
    using JObject.prems keys
    by (auto simp: hmap_ok_def simp del: map_map intro!: JObject.IH) (force split: prod.splits)+
qed auto

end
