(* ===== verification/Cipher.thy ===== *)
theory Cipher
  imports Protocol
begin

text \<open>
  Field encryption (\<open>src/crates/enclave/src/crypto/cipher.rs\<close>). The AES-256-GCM-SIV cipher,
  HMAC-SHA256 and the base64url codec are third-party crates: they are the fields of the
  record \<open>crypto\<close>, an argument of every operation that calls them, and \<open>crypto_ok\<close> states
  their documented behaviour. The operations keep the order of checks and the errors of the
  source.
\<close>

section \<open>The third-party primitives\<close>

record 'c crypto =
  b64_encode :: "u8 list \<Rightarrow> string"
  b64_decode :: "string \<Rightarrow> u8 list option"
  hmac_sha256 :: "u8 list \<Rightarrow> u8 list \<Rightarrow> u8 list option"
  aead_new :: "u8 list \<Rightarrow> 'c option"
  aead_encrypt :: "'c \<Rightarrow> u8 list \<Rightarrow> u8 list \<Rightarrow> u8 list option"
  aead_decrypt :: "'c \<Rightarrow> u8 list \<Rightarrow> u8 list \<Rightarrow> u8 list option"

text \<open>
  \<open>URL_SAFE_NO_PAD\<close>: the output is over the URL-safe alphabet; decoding inverts encoding and
  accepts only what encoding produces (no padding, no trailing bits).
\<close>

definition b64_alphabet :: "char set" where
  "b64_alphabet =
     set ''ABCDEFGHIJKLMNOPQRSTUVWXYZabcdefghijklmnopqrstuvwxyz0123456789-_''"

definition b64_ok :: "('c, 'x) crypto_scheme \<Rightarrow> bool" where
  "b64_ok P \<longleftrightarrow>
     (\<forall>bs. set (b64_encode P bs) \<subseteq> b64_alphabet) \<and>
     (\<forall>bs. b64_decode P (b64_encode P bs) = Some bs) \<and>
     (\<forall>s bs. b64_decode P s = Some bs \<longrightarrow> b64_encode P bs = s)"

text \<open>HMAC accepts keys of any length and SHA-256 gives 32 bytes.\<close>

definition hmac_ok :: "('c, 'x) crypto_scheme \<Rightarrow> bool" where
  "hmac_ok P \<longleftrightarrow> (\<forall>k d. \<exists>t. hmac_sha256 P k d = Some t \<and> length t = 32)"

text \<open>
  AES-256-GCM-SIV (RFC 8452): a key is 32 bytes, plaintexts of up to \<open>2 ^ 36\<close> bytes are
  accepted, decryption inverts encryption, and since the tag is a function of key, nonce and
  plaintext, a ciphertext that authenticates is the encryption of its plaintext.
\<close>

definition aead_ok :: "('c, 'x) crypto_scheme \<Rightarrow> bool" where
  "aead_ok P \<longleftrightarrow>
     (\<forall>k. aead_new P k \<noteq> None \<longleftrightarrow> length k = 32) \<and>
     (\<forall>c n p. length n = 12 \<and> length p \<le> 2 ^ 36 \<longrightarrow> aead_encrypt P c n p \<noteq> None) \<and>
     (\<forall>c n p x. aead_encrypt P c n p = Some x \<longrightarrow> aead_decrypt P c n x = Some p) \<and>
     (\<forall>c n p x. aead_decrypt P c n x = Some p \<longrightarrow> aead_encrypt P c n p = Some x)"

definition crypto_ok :: "('c, 'x) crypto_scheme \<Rightarrow> bool" where
  "crypto_ok P \<longleftrightarrow> b64_ok P \<and> hmac_ok P \<and> aead_ok P"

section \<open>The operations\<close>

definition KEY_LEN :: nat where
  "KEY_LEN = 32"

definition NONCE_LEN :: nat where
  "NONCE_LEN = 12"

definition VERSION_PREFIX :: string where
  "VERSION_PREFIX = ''v1''"

record encrypted_field =
  nonce :: "u8 list"
  ciphertext :: "u8 list"

text \<open>The Rust type of the nonce is \<open>[u8; NONCE_LEN]\<close>.\<close>

definition field_ok :: "encrypted_field \<Rightarrow> bool" where
  "field_ok f \<longleftrightarrow> length (nonce f) = NONCE_LEN"

datatype cipher_error = InvalidKeyLength | AeadFailure | InvalidFormat

definition to_string_repr :: "('c, 'x) crypto_scheme \<Rightarrow> encrypted_field \<Rightarrow> string" where
  "to_string_repr P f =
     VERSION_PREFIX @ ''.'' @ b64_encode P (nonce f) @ ''.'' @ b64_encode P (ciphertext f)"

definition from_str ::
  "('c, 'x) crypto_scheme \<Rightarrow> string \<Rightarrow> (encrypted_field, cipher_error) result" where
  "from_str P s =
     (let parts = splitn 3 CHR ''.'' s in
      if length parts \<noteq> 3 \<or> parts ! 0 \<noteq> VERSION_PREFIX then Err InvalidFormat
      else and_then (ok_or (b64_decode P (parts ! 1)) InvalidFormat) (\<lambda>nonce_bytes.
        if length nonce_bytes \<noteq> NONCE_LEN then Err InvalidFormat
        else and_then (ok_or (b64_decode P (parts ! 2)) InvalidFormat) (\<lambda>ct.
          Ok \<lparr>nonce = nonce_bytes, ciphertext = ct\<rparr>)))"

text \<open>
  \<open>new_from_slice(dek).expect(...)\<close> panics if the key is refused; slicing the first 12 bytes
  panics if the digest is shorter.
\<close>

definition derive_nonce ::
  "('c, 'x) crypto_scheme \<Rightarrow> u8 list \<Rightarrow> u8 list \<Rightarrow> (u8 list, cipher_error) result" where
  "derive_nonce P dek plaintext =
     and_then (expect (hmac_sha256 P dek plaintext)) (\<lambda>digest.
       if length digest < NONCE_LEN then Panic else Ok (take NONCE_LEN digest))"

definition build_cipher ::
  "('c, 'x) crypto_scheme \<Rightarrow> u8 list \<Rightarrow> ('c, cipher_error) result" where
  "build_cipher P dek =
     (if length dek \<noteq> KEY_LEN then Err InvalidKeyLength
      else ok_or (aead_new P dek) InvalidKeyLength)"

definition encrypt_field ::
  "('c, 'x) crypto_scheme \<Rightarrow> u8 list \<Rightarrow> u8 list \<Rightarrow> (encrypted_field, cipher_error) result" where
  "encrypt_field P plaintext dek =
     and_then (build_cipher P dek) (\<lambda>cipher.
     and_then (derive_nonce P dek plaintext) (\<lambda>nonce_bytes.
     and_then (ok_or (aead_encrypt P cipher nonce_bytes plaintext) AeadFailure) (\<lambda>ct.
       Ok \<lparr>nonce = nonce_bytes, ciphertext = ct\<rparr>)))"

definition decrypt_field ::
  "('c, 'x) crypto_scheme \<Rightarrow> encrypted_field \<Rightarrow> u8 list \<Rightarrow> (u8 list, cipher_error) result" where
  "decrypt_field P f dek =
     and_then (build_cipher P dek) (\<lambda>cipher.
       ok_or (aead_decrypt P cipher (nonce f) (ciphertext f)) AeadFailure)"

section \<open>The string form\<close>

lemma b64_alphabet_ascii: "c \<in> b64_alphabet \<Longrightarrow> is_ascii c"
proof -
  have "\<forall>c \<in> b64_alphabet. is_ascii c"
    by code_simp
  then show "c \<in> b64_alphabet \<Longrightarrow> is_ascii c" by blast
qed

lemma b64_no_dot: "b64_ok P \<Longrightarrow> CHR ''.'' \<notin> set (b64_encode P bs)"
proof -
  assume "b64_ok P"
  then have "set (b64_encode P bs) \<subseteq> b64_alphabet" by (simp add: b64_ok_def)
  moreover have "CHR ''.'' \<notin> b64_alphabet" by (simp add: b64_alphabet_def)
  ultimately show ?thesis by blast
qed

lemma b64_ok_decode: "b64_ok P \<Longrightarrow> b64_decode P (b64_encode P bs) = Some bs"
  unfolding b64_ok_def by blast

lemma b64_ok_encode: "b64_ok P \<Longrightarrow> b64_decode P s = Some bs \<Longrightarrow> b64_encode P bs = s"
  unfolding b64_ok_def by blast

lemma to_string_repr_eq:
  "to_string_repr P f = ''v1'' @ CHR ''.'' # b64_encode P (nonce f) @
     CHR ''.'' # b64_encode P (ciphertext f)"
  by (simp add: to_string_repr_def VERSION_PREFIX_def)

lemma to_string_repr_valid: "b64_ok P \<Longrightarrow> valid_str (to_string_repr P f)"
proof (rule ascii_valid_str)
  fix c assume P: "b64_ok P" and c: "c \<in> set (to_string_repr P f)"
  have "set (b64_encode P bs) \<subseteq> b64_alphabet" for bs using P by (simp add: b64_ok_def)
  with c have "c \<in> b64_alphabet \<or> c \<in> set ''v1.''"
    by (auto simp: to_string_repr_eq)
  moreover have "\<forall>d \<in> set ''v1.''. is_ascii d" by (simp add: is_ascii_def)
  ultimately show "is_ascii c" using b64_alphabet_ascii by blast
qed

lemma to_string_repr_prefix: "starts_with (to_string_repr P f) ''v1.''"
  by (simp add: to_string_repr_eq starts_with_def)

lemma length_3_conv: "length xs = 3 \<longleftrightarrow> (\<exists>a b c. xs = [a, b, c])"
  by (auto simp: numeral_3_eq_3 length_Suc_conv)

text \<open>What \<open>from_str\<close> accepts, whatever the codec does.\<close>

lemma from_str_Ok_iff:
  "from_str P s = Ok f \<longleftrightarrow>
     (\<exists>a b. s = ''v1'' @ CHR ''.'' # a @ CHR ''.'' # b \<and> CHR ''.'' \<notin> set a \<and>
        b64_decode P a = Some (nonce f) \<and> b64_decode P b = Some (ciphertext f) \<and> field_ok f)"
  (is "?L \<longleftrightarrow> ?R")
proof
  assume L: ?L
  then obtain v a b where parts: "splitn 3 CHR ''.'' s = [v, a, b]"
    by (auto simp: from_str_def Let_def length_3_conv split: if_splits)
  with L have "v = ''v1''" "b64_decode P a = Some (nonce f)" "b64_decode P b = Some (ciphertext f)"
      "field_ok f"
    by (auto simp: from_str_def Let_def result_simps field_ok_def VERSION_PREFIX_def
        split: if_splits)
  with parts show ?R by (auto simp: splitn_3_iff)
next
  assume ?R
  then obtain a b where s: "s = ''v1'' @ CHR ''.'' # a @ CHR ''.'' # b" "CHR ''.'' \<notin> set a"
      "b64_decode P a = Some (nonce f)" "b64_decode P b = Some (ciphertext f)" "field_ok f"
    by blast
  then have "splitn 3 CHR ''.'' s = [''v1'', a, b]" by (simp add: splitn_3_iff)
  with s show ?L by (simp add: from_str_def field_ok_def VERSION_PREFIX_def)
qed

lemma from_str_canonical:
  assumes "b64_ok P"
  shows "from_str P s = Ok f \<longleftrightarrow> field_ok f \<and> s = to_string_repr P f"
proof -
  have enc: "b64_decode P a = Some bs \<longleftrightarrow> a = b64_encode P bs" for a bs
    using assms by (auto simp: b64_ok_decode dest: b64_ok_encode)
  show ?thesis
    using b64_no_dot [OF assms] by (auto simp: from_str_Ok_iff enc to_string_repr_eq)
qed

lemma from_str_never_panics: "from_str P s \<noteq> Panic"
  by (auto simp: from_str_def Let_def result_simps)

section \<open>Encryption and decryption of one field\<close>

lemma aead_ok_decrypt: "aead_ok P \<Longrightarrow> aead_encrypt P c n p = Some x \<Longrightarrow> aead_decrypt P c n x = Some p"
  unfolding aead_ok_def by blast

lemma aead_ok_encrypt: "aead_ok P \<Longrightarrow> aead_decrypt P c n x = Some p \<Longrightarrow> aead_encrypt P c n p = Some x"
  unfolding aead_ok_def by blast

lemma aead_ok_total:
  "aead_ok P \<Longrightarrow> length n = 12 \<Longrightarrow> length p \<le> 2 ^ 36 \<Longrightarrow> aead_encrypt P c n p \<noteq> None"
  unfolding aead_ok_def by blast

lemma aead_ok_new: "aead_ok P \<Longrightarrow> aead_new P k \<noteq> None \<longleftrightarrow> length k = 32"
  unfolding aead_ok_def by blast

lemma build_cipher_Ok:
  "aead_ok P \<Longrightarrow> length dek = KEY_LEN \<Longrightarrow> \<exists>c. build_cipher P dek = Ok c"
  using aead_ok_new [of P dek] by (auto simp: build_cipher_def KEY_LEN_def)

lemma derive_nonce_Ok:
  "hmac_ok P \<Longrightarrow> \<exists>n. derive_nonce P dek p = Ok n \<and> length n = NONCE_LEN"
proof -
  assume "hmac_ok P"
  then obtain t where "hmac_sha256 P dek p = Some t" "length t = 32"
    unfolding hmac_ok_def by blast
  then show ?thesis by (simp add: derive_nonce_def NONCE_LEN_def)
qed

lemma encrypt_field_Ok:
  assumes "crypto_ok P" "length dek = KEY_LEN" "length p \<le> 2 ^ 36"
  shows "\<exists>f. encrypt_field P p dek = Ok f \<and> field_ok f"
proof -
  from assms obtain c where c: "build_cipher P dek = Ok c"
    using build_cipher_Ok [of P dek] by (auto simp: crypto_ok_def)
  from assms obtain n where n: "derive_nonce P dek p = Ok n" "length n = NONCE_LEN"
    using derive_nonce_Ok [of P dek p] by (auto simp: crypto_ok_def)
  have "aead_encrypt P c n p \<noteq> None"
    using assms n by (simp add: crypto_ok_def aead_ok_total NONCE_LEN_def)
  with c n show ?thesis by (auto simp: encrypt_field_def field_ok_def)
qed

lemma encrypt_field_field_ok:
  "hmac_ok P \<Longrightarrow> encrypt_field P p dek = Ok f \<Longrightarrow> field_ok f"
  using derive_nonce_Ok [of P dek p] by (auto simp: encrypt_field_def result_simps field_ok_def)

lemma encrypt_field_not_Panic: "hmac_ok P \<Longrightarrow> encrypt_field P p dek \<noteq> Panic"
proof -
  assume "hmac_ok P"
  then obtain n where "derive_nonce P dek p = Ok n" using derive_nonce_Ok by blast
  then show ?thesis
    by (simp add: encrypt_field_def build_cipher_def and_then_Panic_iff)
qed

lemma decrypt_encrypt_field:
  "aead_ok P \<Longrightarrow> encrypt_field P p dek = Ok f \<Longrightarrow> decrypt_field P f dek = Ok p"
  by (auto simp: encrypt_field_def decrypt_field_def aead_ok_decrypt result_simps)

lemma bad_key_length:
  assumes "length dek \<noteq> KEY_LEN"
  shows "encrypt_field P p dek = Err InvalidKeyLength"
    and "decrypt_field P f dek = Err InvalidKeyLength"
  using assms by (simp_all add: encrypt_field_def decrypt_field_def build_cipher_def)

lemma decrypt_field_Ok_iff:
  assumes "aead_ok P"
  shows "decrypt_field P f dek = Ok p \<longleftrightarrow>
    (\<exists>c. build_cipher P dek = Ok c \<and> aead_encrypt P c (nonce f) p = Some (ciphertext f))"
proof -
  have "aead_decrypt P c n x = Some p \<longleftrightarrow> aead_encrypt P c n p = Some x" for c n x
    using aead_ok_encrypt [OF assms] aead_ok_decrypt [OF assms] by blast
  then show ?thesis by (simp add: decrypt_field_def result_simps)
qed

section \<open>A sample instance of the primitives\<close>

text \<open>
  A codec, a digest and a cipher with no cryptographic strength that meet \<open>crypto_ok\<close>. Bytes
  are written as two letters; the cipher reverses the plaintext and appends nonce and key.
\<close>

definition sample_letter :: "nat \<Rightarrow> char" where
  "sample_letter n = char_of (65 + n)"

definition sample_encode :: "u8 list \<Rightarrow> string" where
  "sample_encode bs = concat (map (\<lambda>b. [sample_letter (unat b div 16), sample_letter (unat b mod 16)]) bs)"

definition sample_digit :: "char \<Rightarrow> nat option" where
  "sample_digit c =
     (let n = (of_char c :: nat) in if 65 \<le> n \<and> n < 81 then Some (n - 65) else None)"

fun sample_decode :: "string \<Rightarrow> u8 list option" where
  "sample_decode [] = Some []"
| "sample_decode [_] = None"
| "sample_decode (c # d # s) =
     Option.bind (sample_digit c) (\<lambda>h. Option.bind (sample_digit d) (\<lambda>l.
       map_option (Cons (of_nat (16 * h + l))) (sample_decode s)))"

definition sample_crypto :: "u8 list crypto" where
  "sample_crypto =
     \<lparr>b64_encode = sample_encode,
      b64_decode = sample_decode,
      hmac_sha256 = (\<lambda>k d. Some (take 32 (d @ k @ replicate 32 0))),
      aead_new = (\<lambda>k. if length k = 32 then Some k else None),
      aead_encrypt = (\<lambda>c n p. Some (rev p @ n @ c @ p)),
      aead_decrypt = (\<lambda>c n x.
        let p = rev (take ((length x - length (n @ c)) div 2) x)
        in if rev p @ n @ c @ p = x then Some p else None)\<rparr>"

lemma sample_digit_letter [simp]: "n < 16 \<Longrightarrow> sample_digit (sample_letter n) = Some n"
  by (simp add: sample_digit_def sample_letter_def Let_def)

lemma sample_letter_digit: "sample_digit c = Some n \<Longrightarrow> n < 16 \<and> sample_letter n = c"
  by (auto simp: sample_digit_def sample_letter_def Let_def split: if_splits)

lemma byte_div_16: "unat (b :: u8) div 16 < 16"
proof -
  have "unat b < 256" using unsigned_less [of b, where 'a = nat] by simp
  then show ?thesis by (simp add: less_mult_imp_div_less)
qed

lemma sample_decode_encode: "sample_decode (sample_encode bs) = Some bs"
proof (induction bs)
  case (Cons b bs)
  have "unat b div 16 < 16" by (rule byte_div_16)
  moreover have "(of_nat (16 * (unat b div 16) + unat b mod 16) :: u8) = b"
    by (simp only: mult_div_mod_eq) simp
  ultimately show ?case using Cons by (simp add: sample_encode_def del: of_nat_add of_nat_mult)
qed (simp add: sample_encode_def)

lemma sample_encode_decode: "sample_decode s = Some bs \<Longrightarrow> sample_encode bs = s"
proof (induction s arbitrary: bs rule: sample_decode.induct)
  case (3 c d s)
  then obtain h l bs' where h: "sample_digit c = Some h" and l: "sample_digit d = Some l"
    and s: "sample_decode s = Some bs'" and bs: "bs = of_nat (16 * h + l) # bs'"
    by (auto simp: bind_eq_Some_conv)
  have hl: "h < 16" "l < 16" "sample_letter h = c" "sample_letter l = d"
    using sample_letter_digit h l by auto
  then have "unat (of_nat (16 * h + l) :: u8) = 16 * h + l"
    by (subst unat_of_nat) simp
  moreover have "sample_encode bs' = s" using 3 h l s by simp
  ultimately show ?case using hl by (simp add: bs sample_encode_def del: of_nat_add of_nat_mult)
qed (simp_all add: sample_encode_def)

lemma sample_letter_alphabet: "n < 16 \<Longrightarrow> sample_letter n \<in> b64_alphabet"
proof -
  have "\<forall>n \<in> {0..<16}. sample_letter n \<in> b64_alphabet" by code_simp
  then show "n < 16 \<Longrightarrow> sample_letter n \<in> b64_alphabet" by simp
qed

lemma sample_encode_alphabet: "set (sample_encode bs) \<subseteq> b64_alphabet"
proof (induction bs)
  case (Cons b bs)
  have "unat b div 16 < 16" by (rule byte_div_16)
  with Cons show ?case by (simp add: sample_encode_def sample_letter_alphabet)
qed (simp add: sample_encode_def)

lemma sample_crypto_ok: "crypto_ok sample_crypto"
  by (auto simp: crypto_ok_def b64_ok_def hmac_ok_def aead_ok_def sample_crypto_def Let_def
      sample_encode_alphabet sample_decode_encode sample_encode_decode split: if_splits)

section \<open>Properties\<close>

text \<open>
  C30. The token format is canonical: \<open>EncryptedField::from_str\<close> accepts a string and gives the
  field \<open>f\<close> exactly when the string is \<open>to_string_repr f\<close> and the nonce has 12 bytes. So parsing
  inverts printing, and no two strings parse to the same field.
\<close>

theorem token_canonical:
  assumes "b64_ok P"
  shows "from_str P s = Ok f \<longleftrightarrow> field_ok f \<and> s = to_string_repr P f"
  using assms by (rule from_str_canonical)

theorem token_canonical_witness:
  "from_str sample_crypto (to_string_repr sample_crypto \<lparr>nonce = replicate 12 7, ciphertext = [1, 2]\<rparr>) =
     Ok \<lparr>nonce = replicate 12 7, ciphertext = [1, 2]\<rparr>"
  using token_canonical [of sample_crypto _ "\<lparr>nonce = replicate 12 7, ciphertext = [1, 2]\<rparr>"] sample_crypto_ok
  by (simp add: crypto_ok_def field_ok_def NONCE_LEN_def)

text \<open>
  C31. With a 32-byte key, \<open>encrypt_field\<close> succeeds on every plaintext of at most \<open>2 ^ 36\<close> bytes,
  and \<open>decrypt_field\<close> under the same key gives the plaintext back, also after the field has
  been printed and parsed.
\<close>

theorem field_round_trip:
  assumes "crypto_ok P" "length dek = KEY_LEN" "length plaintext \<le> 2 ^ 36"
  shows "\<exists>f. encrypt_field P plaintext dek = Ok f \<and>
    and_then (from_str P (to_string_repr P f)) (\<lambda>g. decrypt_field P g dek) = Ok plaintext"
proof -
  from assms obtain f where f: "encrypt_field P plaintext dek = Ok f" "field_ok f"
    using encrypt_field_Ok by blast
  with assms(1) have "from_str P (to_string_repr P f) = Ok f"
    by (simp add: crypto_ok_def from_str_canonical)
  with f(1) assms(1) show ?thesis
    by (auto simp: crypto_ok_def intro: decrypt_encrypt_field)
qed

theorem field_round_trip_witness:
  "\<exists>f. encrypt_field sample_crypto [104, 105] (replicate 32 9) = Ok f \<and>
    and_then (from_str sample_crypto (to_string_repr sample_crypto f))
      (\<lambda>g. decrypt_field sample_crypto g (replicate 32 9)) = Ok [104, 105]"
  by (rule field_round_trip [OF sample_crypto_ok]) (simp_all add: KEY_LEN_def)

text \<open>
  Encryption is deterministic and collision-free per key: two plaintexts have the same
  token exactly when they are equal, so tokens can be compared in place of values.
\<close>

lemma token_equality:
  assumes "crypto_ok P" "encrypt_field P p dek = Ok f" "encrypt_field P q dek = Ok g"
  shows "to_string_repr P f = to_string_repr P g \<longleftrightarrow> p = q"
proof
  assume eq: "to_string_repr P f = to_string_repr P g"
  have "field_ok f" "field_ok g"
    using assms encrypt_field_field_ok by (auto simp: crypto_ok_def)
  with eq assms(1) have "f = g"
    using from_str_canonical [of P] by (metis crypto_ok_def result.inject(1))
  with assms show "p = q"
    using decrypt_encrypt_field by (metis crypto_ok_def result.inject(1))
qed (use assms in simp)

end
