(* ===== verification/Metrics.thy ===== *)
theory Metrics
  imports Prelude
begin

text \<open>
  The metric instruments (\<open>src/crates/enclave/src/telemetry/metrics.rs\<close>). An instrument is what
  the meter is asked to build; recording on it appends a measurement, in the order the code
  makes the calls. The type \<open>'t\<close> of latencies is left open: they come from the clock.
\<close>

type_synonym attributes = "(string \<times> string) list"

datatype instrument =
    U64Counter (instrument_name: string) (description: string)
  | F64Histogram (instrument_name: string) (description: string) (metric_unit: string)

record metrics =
  encrypt_requests :: instrument
  encrypt_latency_ms :: instrument
  decrypt_requests :: instrument
  decrypt_latency_ms :: instrument
  dek_rotations :: instrument

definition metrics_new :: metrics where
  "metrics_new =
     \<lparr>encrypt_requests =
        U64Counter ''enclave_encrypt_requests'' ''Total number of /encrypt requests'',
      encrypt_latency_ms =
        F64Histogram ''enclave_encrypt_latency_ms''
          ''Latency of /encrypt requests in milliseconds'' ''ms'',
      decrypt_requests =
        U64Counter ''enclave_decrypt_requests'' ''Total number of /decrypt requests'',
      decrypt_latency_ms =
        F64Histogram ''enclave_decrypt_latency_ms''
          ''Latency of /decrypt requests in milliseconds'' ''ms'',
      dek_rotations =
        U64Counter ''enclave_dek_rotations'' ''Number of successful DEK background rotations''\<rparr>"

definition success_attrs :: attributes where
  "success_attrs = [(''status'', ''success'')]"

definition error_attrs :: attributes where
  "error_attrs = [(''status'', ''error'')]"

datatype 't measurement =
    Add instrument u64 attributes
  | Record instrument 't attributes

text \<open>What a counter has been increased by, over a log of measurements; it wraps at its width.\<close>

fun counted :: "instrument \<Rightarrow> 't measurement list \<Rightarrow> u64" where
  "counted i [] = 0"
| "counted i (Add j n _ # log) = (if i = j then n else 0) + counted i log"
| "counted i (Record _ _ _ # log) = counted i log"

lemma counted_append: "counted i (xs @ ys) = counted i xs + counted i ys"
  by (induction i xs rule: counted.induct) (auto simp: ac_simps)

lemma attrs_differ [simp]: "success_attrs \<noteq> error_attrs" "error_attrs \<noteq> success_attrs"
  by (simp_all add: success_attrs_def error_attrs_def)

end
