(* ===== verification/Dek.thy ===== *)
theory Dek
  imports Config Cipher Metrics
begin

text \<open>
  The data encryption key (\<open>src/crates/enclave/src/dek/store.rs\<close> and \<open>dek/mod.rs\<close>): the
  store, the fetch through Secrets Manager and KMS, and the rotation task. The AWS calls are
  the fields of \<open>dek_aws\<close>, an argument of the fetch; each tick of the rotation task sees its
  own answers. The locale \<open>key_store\<close> is the contract of the store that the fetch, the rotation
  and the request handlers rely on.
\<close>

section \<open>The store\<close>

datatype dek_error = NotInitialised | InvalidLength nat

text \<open>
  \<open>DekBytes\<close> is a boxed array, here the bytes it holds. What the boxes hold before and after they
  are released, and the lock around the store, are the subject of \<open>Key_Memory\<close>; here every
  operation of the store is one step.
\<close>

record dek_store =
  inner :: "u8 list option"

definition drop_dek_bytes :: "u8 list \<Rightarrow> u8 list" where
  "drop_dek_bytes b = map (\<lambda>_. 0) b"

definition fmt_dek_bytes :: "u8 list \<Rightarrow> string" where
  "fmt_dek_bytes b = ''DekBytes([REDACTED])''"

definition dek_store_new :: dek_store where
  "dek_store_new = \<lparr>inner = None\<rparr>"

definition is_ready :: "dek_store \<Rightarrow> bool" where
  "is_ready d \<longleftrightarrow> inner d \<noteq> None"

definition store :: "u8 list \<Rightarrow> dek_store \<Rightarrow> dek_store \<times> (unit, dek_error) result" where
  "store key_bytes d =
     (if length key_bytes \<noteq> KEY_LEN then (d, Err (InvalidLength (length key_bytes)))
      else (d\<lparr>inner := Some key_bytes\<rparr>, Ok ()))"

definition current :: "dek_store \<Rightarrow> (u8 list, dek_error) result" where
  "current d = ok_or (inner d) NotInitialised"

definition dek_store_default :: dek_store where
  "dek_store_default = dek_store_new"

section \<open>Fetching and rotating\<close>

text \<open>
  \<open>get_secret_value\<close> gives the secret's binary part, if it has one; \<open>kms_decrypt\<close> the
  plaintext, if the response has one.
\<close>

record dek_aws =
  get_secret_value :: "string \<Rightarrow> (u8 list option, anyhow) result"
  kms_decrypt :: "string \<Rightarrow> u8 list \<Rightarrow> (u8 list option, anyhow) result"

fun show_dek_error :: "dek_error \<Rightarrow> string" where
  "show_dek_error NotInitialised = ''DEK not yet initialised''"
| "show_dek_error (InvalidLength n) =
     ''DEK has invalid length: expected '' @ show_nat KEY_LEN @ '' bytes, got '' @ show_nat n"

text \<open>The two calls of the fetch, up to the plaintext of the answer.\<close>

definition kms_plaintext :: "('x) dek_aws_scheme \<Rightarrow> config \<Rightarrow> (u8 list, anyhow) result" where
  "kms_plaintext aws cfg =
     and_then (with_context (get_secret_value aws (secret_arn cfg))
        ''failed to fetch DEK from Secrets Manager'') (\<lambda>secret.
     and_then (ok_or secret [''DEK secret must be stored as binary in Secrets Manager''])
       (\<lambda>ciphertext_bytes.
     and_then (with_context (kms_decrypt aws (kms_key_id cfg) ciphertext_bytes)
        ''failed to decrypt DEK via KMS'') (\<lambda>decrypt_resp.
       ok_or decrypt_resp [''KMS decrypt response contained no plaintext''])))"

definition fetch_and_store ::
  "('x) dek_aws_scheme \<Rightarrow> config \<Rightarrow> dek_store \<Rightarrow> dek_store \<times> (unit, anyhow) result" where
  "fetch_and_store aws cfg d =
     (case kms_plaintext aws cfg of
        Ok plaintext \<Rightarrow>
          (case store plaintext d of
             (d', r) \<Rightarrow>
               (d', with_context (map_err (\<lambda>e. [show_dek_error e]) r)
                      ''failed to store decrypted DEK (unexpected key length)''))
      | Err e \<Rightarrow> (d, Err e)
      | Panic \<Rightarrow> (d, Panic))"

text \<open>
  One iteration of the rotation loop, on the store and the log of measurements;
  \<open>dek_rotations\<close> is the counter. A failed rotation keeps the previous key. (The calls of the SDK
  return errors as values. Were one to panic, the task would end there, with the key it had: a run
  in which the ticks from then on all fail.)
\<close>

definition rotation_tick ::
  "config \<Rightarrow> instrument \<Rightarrow> ('x) dek_aws_scheme \<Rightarrow> dek_store \<times> 't measurement list \<Rightarrow>
     dek_store \<times> 't measurement list" where
  "rotation_tick cfg rotations aws s =
     (case fetch_and_store aws cfg (fst s) of
        (d', Ok _) \<Rightarrow> (d', snd s @ [Add rotations 1 []])
      | (d', _) \<Rightarrow> (d', snd s))"

text \<open>
  \<open>rotation_task\<close>: \<open>time::interval\<close> panics on a zero period; the first tick is skipped, then
  one fetch per tick. The list gives what AWS answers at each tick.
\<close>

definition rotation_task ::
  "config \<Rightarrow> instrument \<Rightarrow> ('x) dek_aws_scheme list \<Rightarrow> dek_store \<times> 't measurement list \<Rightarrow>
     (dek_store \<times> 't measurement list, anyhow) result" where
  "rotation_task cfg rotations ticks s =
     (if dek_rotation_interval_secs cfg = 0 then Panic
      else Ok (fold (rotation_tick cfg rotations) ticks s))"

section \<open>The contract of a key store\<close>

locale key_store =
  fixes empty :: 's
    and put :: "'k \<Rightarrow> 's \<Rightarrow> 's \<times> (unit, 'e) result"
    and get :: "'s \<Rightarrow> ('k, 'e) result"
    and ready :: "'s \<Rightarrow> bool"
    and valid_key :: "'k \<Rightarrow> bool"
    and invar :: "'s \<Rightarrow> bool"
  assumes get_empty: "\<not> is_ok (get empty)"
    and invar_empty: "invar empty"
    and put_valid: "valid_key k \<Longrightarrow> snd (put k s) = Ok () \<and> get (fst (put k s)) = Ok k"
    and put_invalid: "\<not> valid_key k \<Longrightarrow> fst (put k s) = s \<and> \<not> is_ok (snd (put k s))"
    and invar_put: "invar s \<Longrightarrow> invar (fst (put k s))"
    and invar_valid: "invar s \<Longrightarrow> get s = Ok k \<Longrightarrow> valid_key k"
    and ready_iff: "ready s \<longleftrightarrow> is_ok (get s)"
begin

lemma put_cases:
  obtains (stored) "valid_key k" "snd (put k s) = Ok ()" "get (fst (put k s)) = Ok k"
  | (kept) "\<not> valid_key k" "\<not> is_ok (snd (put k s))" "fst (put k s) = s"
  using put_valid put_invalid by blast

lemma put_Ok_iff: "snd (put k s) = Ok () \<longleftrightarrow> valid_key k"
  by (cases rule: put_cases [of k s]) (auto simp: is_ok_iff)

lemma put_keeps_ready: "ready s \<Longrightarrow> ready (fst (put k s))"
  by (cases rule: put_cases [of k s]) (auto simp: ready_iff is_ok_iff)

lemma puts_invar: "invar s \<Longrightarrow> invar (fold (\<lambda>k s. fst (put k s)) ks s)"
  by (induction ks arbitrary: s) (auto intro: invar_put)

text \<open>After any sequence of stores the store holds the last acceptable key.\<close>

lemma puts_get:
  "get (fold (\<lambda>k s. fst (put k s)) ks s) =
     (if filter valid_key ks = [] then get s else Ok (last (filter valid_key ks)))"
proof (induction ks rule: rev_induct)
  case (snoc k ks)
  let ?t = "fold (\<lambda>k s. fst (put k s)) ks s"
  show ?case
    by (cases rule: put_cases [of k ?t]) (auto simp: snoc)
qed simp

end

definition dek_store_ok :: "dek_store \<Rightarrow> bool" where
  "dek_store_ok d \<longleftrightarrow>
     (\<forall>k. inner d = Some k \<longrightarrow> length k = KEY_LEN)"

interpretation dek: key_store dek_store_new store current is_ready "\<lambda>k. length k = KEY_LEN" dek_store_ok
proof unfold_locales
  show "\<not> is_ok (current dek_store_new)"
    by (simp add: is_ok_iff current_def dek_store_new_def)
  show "dek_store_ok dek_store_new"
    by (simp add: dek_store_ok_def dek_store_new_def)
  fix k :: "u8 list" and d :: dek_store
  show "length k = KEY_LEN \<Longrightarrow> snd (store k d) = Ok () \<and> current (fst (store k d)) = Ok k"
    by (simp add: store_def current_def)
  show "length k \<noteq> KEY_LEN \<Longrightarrow> fst (store k d) = d \<and> \<not> is_ok (snd (store k d))"
    by (simp add: store_def is_ok_iff)
  show "dek_store_ok d \<Longrightarrow> dek_store_ok (fst (store k d))"
    by (auto simp: store_def dek_store_ok_def)
  show "dek_store_ok d \<Longrightarrow> current d = Ok k \<Longrightarrow> length k = KEY_LEN"
    by (auto simp: current_def dek_store_ok_def result_simps)
  show "is_ready d \<longleftrightarrow> is_ok (current d)"
    by (auto simp: is_ready_def current_def result_simps)
qed

section \<open>Fetching and rotating keep the store usable\<close>

text \<open>The key that a fetch would store.\<close>

definition fetched_key :: "('x) dek_aws_scheme \<Rightarrow> config \<Rightarrow> u8 list option" where
  "fetched_key aws cfg =
     (case get_secret_value aws (secret_arn cfg) of
        Ok (Some blob) \<Rightarrow>
          (case kms_decrypt aws (kms_key_id cfg) blob of Ok p \<Rightarrow> p | _ \<Rightarrow> None)
      | _ \<Rightarrow> None)"

lemma fetched_key_plaintext:
  "fetched_key aws cfg = (case kms_plaintext aws cfg of Ok k \<Rightarrow> Some k | _ \<Rightarrow> None)"
  by (auto simp: fetched_key_def kms_plaintext_def with_context_def result_simps split: result.split option.split elim: ok_or.elims)

lemma fetch_and_store_state:
  "fst (fetch_and_store aws cfg d) =
     (case fetched_key aws cfg of Some k \<Rightarrow> fst (store k d) | None \<Rightarrow> d)"
  by (simp add: fetch_and_store_def fetched_key_plaintext split: result.split prod.split)

lemma fetch_and_store_Ok_iff:
  "snd (fetch_and_store aws cfg d) = Ok () \<longleftrightarrow>
     (\<exists>k. fetched_key aws cfg = Some k \<and> length k = KEY_LEN)"
  by (simp add: fetch_and_store_def fetched_key_plaintext with_context_def store_def split: result.split)

lemma rotation_tick_eq:
  "rotation_tick cfg i aws s =
     (fst (fetch_and_store aws cfg (fst s)),
      snd s @ (if snd (fetch_and_store aws cfg (fst s)) = Ok () then [Add i 1 []] else []))"
proof (cases "fetch_and_store aws cfg (fst s)")
  case (Pair d r)
  then show ?thesis by (cases r) (simp_all add: rotation_tick_def)
qed

lemma rotation_ticks_puts:
  "fst (fold (rotation_tick cfg i) ticks s) =
     fold (\<lambda>k d. fst (store k d)) (List.map_filter (\<lambda>aws. fetched_key aws cfg) ticks) (fst s)"
proof (induction ticks arbitrary: s)
  case (Cons aws ticks)
  then show ?case
    by (simp add: rotation_tick_eq fetch_and_store_state map_filter_simps split: option.split)
qed (simp add: map_filter_simps)

lemma rotation_ticks_counted:
  "counted i (snd (fold (rotation_tick cfg i) ticks s)) =
     counted i (snd s) +
     of_nat (length (filter (\<lambda>k. length k = KEY_LEN) (List.map_filter (\<lambda>aws. fetched_key aws cfg) ticks)))"
proof (induction ticks arbitrary: s)
  case (Cons aws ticks)
  then show ?case
    by (simp add: rotation_tick_eq fetch_and_store_Ok_iff counted_append map_filter_simps
        split: option.split)
qed (simp add: map_filter_simps)

section \<open>Properties\<close>

text \<open>AWS answers: a KMS that returns the blob itself, and the blob.\<close>

definition sample_aws :: "u8 list option \<Rightarrow> dek_aws" where
  "sample_aws blob = \<lparr>get_secret_value = (\<lambda>_. Ok blob), kms_decrypt = (\<lambda>_ c. Ok (Some c))\<rparr>"

text \<open>
  C22. The rotation task, over any sequence of ticks and whatever AWS answers at each, leaves in
  the store the last fetched key that has 32 bytes, or the key it started with if there is none,
  and the rotation counter has grown by the number of such keys.
\<close>

theorem rotation_keeps_last_valid_key:
  fixes s :: "dek_store \<times> 't measurement list"
  assumes "dek_rotation_interval_secs cfg \<noteq> 0"
    and "keys = filter (\<lambda>k. length k = 32) (List.map_filter (\<lambda>aws. fetched_key aws cfg) ticks)"
  shows "\<exists>s'. rotation_task cfg i ticks s = Ok s' \<and>
    current (fst s') = (if keys = [] then current (fst s) else Ok (last keys)) \<and>
    counted i (snd s') = counted i (snd s) + of_nat (length keys)"
  using assms dek.puts_get [of "List.map_filter (\<lambda>aws. fetched_key aws cfg) ticks" "fst s"]
  by (simp add: rotation_task_def rotation_ticks_puts rotation_ticks_counted KEY_LEN_def)

theorem rotation_keeps_last_valid_key_witness:
  "\<exists>s'. rotation_task sample_config (dek_rotations metrics_new)
      [sample_aws (Some (replicate 32 5)), sample_aws None, sample_aws (Some [1, 2])]
      (dek_store_new, [] :: nat measurement list) = Ok s' \<and> current (fst s') = Ok (replicate 32 5)"
  using rotation_keeps_last_valid_key [of sample_config "[replicate 32 5]"
      "[sample_aws (Some (replicate 32 5)), sample_aws None, sample_aws (Some [1, 2])]"
      "dek_rotations metrics_new" "(dek_store_new, [] :: nat measurement list)"]
  by (auto simp: sample_config_def sample_aws_def fetched_key_def map_filter_simps)

text \<open>
  No rotation makes the store unusable: from a store that holds a key, every sequence of
  ticks ends in a store that holds a key of 32 bytes.
\<close>

lemma rotation_keeps_store_usable:
  fixes s s' :: "dek_store \<times> 't measurement list"
  assumes "dek_store_ok (fst s)" "is_ready (fst s)" "rotation_task cfg i ticks s = Ok s'"
  shows "\<exists>k. current (fst s') = Ok k \<and> length k = 32"
proof -
  let ?keys = "List.map_filter (\<lambda>aws. fetched_key aws cfg) ticks"
  have s': "fst s' = fold (\<lambda>k d. fst (store k d)) ?keys (fst s)"
    using assms(3) by (auto simp: rotation_task_def rotation_ticks_puts split: if_splits)
  then have ok: "dek_store_ok (fst s')" using dek.puts_invar [OF assms(1)] by simp
  have "is_ready (fst s')"
    using assms(2) dek.puts_get [of ?keys "fst s"] by (auto simp: s' dek.ready_iff is_ok_iff)
  then show ?thesis
    using dek.invar_valid [OF ok] by (auto simp: dek.ready_iff is_ok_iff KEY_LEN_def)
qed

text \<open>
  C34. \<open>fetch_and_store\<close> succeeds exactly when Secrets Manager returns a binary secret that KMS
  decrypts to 32 bytes; then this is the current key. In every other case the store is unchanged.
\<close>

theorem fetch_and_store_exact:
  "(fetch_and_store aws cfg d = (d', Ok ()) \<longleftrightarrow>
      (\<exists>k. fetched_key aws cfg = Some k \<and> length k = 32 \<and> d' = fst (store k d) \<and> current d' = Ok k)) \<and>
   (snd (fetch_and_store aws cfg d) \<noteq> Ok () \<longrightarrow> fst (fetch_and_store aws cfg d) = d)"
proof
  show "fetch_and_store aws cfg d = (d', Ok ()) \<longleftrightarrow>
     (\<exists>k. fetched_key aws cfg = Some k \<and> length k = 32 \<and> d' = fst (store k d) \<and> current d' = Ok k)"
    using fetch_and_store_Ok_iff [of aws cfg d] fetch_and_store_state [of aws cfg d]
    by (cases "fetch_and_store aws cfg d") (auto simp: KEY_LEN_def dek.put_valid)
  show "snd (fetch_and_store aws cfg d) \<noteq> Ok () \<longrightarrow> fst (fetch_and_store aws cfg d) = d"
    using dek.put_invalid
    by (auto simp: fetch_and_store_Ok_iff fetch_and_store_state split: option.split)
qed

theorem fetch_and_store_exact_witness:
  "fst (fetch_and_store (sample_aws (Some [1, 2])) sample_config dek_store_new) = dek_store_new"
  using fetch_and_store_exact [of "sample_aws (Some [1, 2])" sample_config dek_store_new]
  by (simp add: fetch_and_store_Ok_iff fetched_key_def sample_aws_def KEY_LEN_def)

end
