(* ===== verification/Payload.thy ===== *)
theory Payload
  imports Cipher
begin

text \<open>
  Traversal of a request payload along PII paths: the helpers of
  \<open>src/crates/enclave/src/server/handlers.rs\<close> from \<open>PathSegment\<close> to \<open>decrypt_pii_fields\<close>.
  The set of paths is a Rust \<open>HashSet\<close>, whose iteration order is unspecified: the loops take
  the paths in the order the set yields them, as a list.

  The locale \<open>path_walker\<close> states what the two recursive walkers have in common, and
  \<open>walker_pair\<close> what makes decryption undo encryption; both are interpreted on
  \<open>encrypt_at_path\<close> and \<open>decrypt_at_path\<close>.
\<close>

section \<open>The operations\<close>

definition parse_part :: "string \<Rightarrow> path_segment list" where
  "parse_part part =
     (case strip_suffix part ''[]'' of
        Some key \<Rightarrow> [Key key, ArrayItem]
      | None \<Rightarrow> [Key part])"

definition parse_path :: "string \<Rightarrow> path_segment list" where
  "parse_path path = concat (map parse_part (split_on CHR ''.'' path))"

definition encrypt_leaf ::
  "('c, 'x) crypto_scheme \<Rightarrow> u8 list \<Rightarrow> string \<Rightarrow> (string, cipher_error) result" where
  "encrypt_leaf P dek s =
     and_then (encrypt_field P (as_bytes s) dek) (\<lambda>encrypted. Ok (to_string_repr P encrypted))"

fun encrypt_at_path ::
  "('c, 'x) crypto_scheme \<Rightarrow> u8 list \<Rightarrow> path_segment list \<Rightarrow> 'n json \<Rightarrow>
     ('n json, cipher_error) result" where
  "encrypt_at_path P dek [] value =
     (case value of
        JString s \<Rightarrow> and_then (encrypt_leaf P dek s) (\<lambda>t. Ok (JString t))
      | _ \<Rightarrow> Ok value)"
| "encrypt_at_path P dek (Key key # segments) value =
     (case value of
        JObject m \<Rightarrow>
          (case map_of m key of
             Some child \<Rightarrow>
               and_then (encrypt_at_path P dek segments child)
                 (\<lambda>child'. Ok (JObject (AList.update key child' m)))
           | None \<Rightarrow> Ok value)
      | _ \<Rightarrow> Ok value)"
| "encrypt_at_path P dek (ArrayItem # segments) value =
     (case value of
        JArray arr \<Rightarrow>
          and_then (try_map (encrypt_at_path P dek segments) arr) (\<lambda>arr'. Ok (JArray arr'))
      | _ \<Rightarrow> Ok value)"

definition encrypt_pii_fields ::
  "('c, 'x) crypto_scheme \<Rightarrow> string list \<Rightarrow> u8 list \<Rightarrow> 'n json \<Rightarrow>
     ('n json, cipher_error) result" where
  "encrypt_pii_fields P pii_paths dek payload =
     try_fold (\<lambda>path. encrypt_at_path P dek (parse_path path)) pii_paths payload"

definition decrypt_leaf ::
  "('c, 'x) crypto_scheme \<Rightarrow> u8 list \<Rightarrow> string \<Rightarrow> (string, cipher_error) result" where
  "decrypt_leaf P dek s =
     (if starts_with s ''v1.'' then
        and_then (from_str P s) (\<lambda>field.
        and_then (decrypt_field P field dek) (\<lambda>plaintext.
          ok_or (from_utf8 plaintext) AeadFailure))
      else Ok s)"

fun decrypt_at_path ::
  "('c, 'x) crypto_scheme \<Rightarrow> u8 list \<Rightarrow> path_segment list \<Rightarrow> 'n json \<Rightarrow>
     ('n json, cipher_error) result" where
  "decrypt_at_path P dek [] value =
     (case value of
        JString s \<Rightarrow> and_then (decrypt_leaf P dek s) (\<lambda>t. Ok (JString t))
      | _ \<Rightarrow> Ok value)"
| "decrypt_at_path P dek (Key key # segments) value =
     (case value of
        JObject m \<Rightarrow>
          (case map_of m key of
             Some child \<Rightarrow>
               and_then (decrypt_at_path P dek segments child)
                 (\<lambda>child'. Ok (JObject (AList.update key child' m)))
           | None \<Rightarrow> Ok value)
      | _ \<Rightarrow> Ok value)"
| "decrypt_at_path P dek (ArrayItem # segments) value =
     (case value of
        JArray arr \<Rightarrow>
          and_then (try_map (decrypt_at_path P dek segments) arr) (\<lambda>arr'. Ok (JArray arr'))
      | _ \<Rightarrow> Ok value)"

definition decrypt_pii_fields ::
  "('c, 'x) crypto_scheme \<Rightarrow> string list \<Rightarrow> u8 list \<Rightarrow> 'n json \<Rightarrow>
     ('n json, cipher_error) result" where
  "decrypt_pii_fields P pii_paths dek payload =
     try_fold (\<lambda>path. decrypt_at_path P dek (parse_path path)) pii_paths payload"

section \<open>Paths\<close>

lemma parse_part_cases:
  obtains (item) key where "part = key @ ''[]''" "parse_part part = [Key key, ArrayItem]"
  | (plain) "strip_suffix part ''[]'' = None" "parse_part part = [Key part]"
  by (cases "strip_suffix part ''[]''") (auto simp: parse_part_def strip_suffix_Some_iff)

lemma parse_part_not_Nil [simp]: "parse_part part \<noteq> []"
  by (simp add: parse_part_def split: option.split)

lemma parse_parts_head: "xs \<noteq> [] \<Longrightarrow> \<exists>k r. concat (map parse_part xs) = Key k # r"
  by (cases xs) (auto simp: parse_part_def split: option.split)

lemma parse_parts_inject:
  "concat (map parse_part xs) = concat (map parse_part ys) \<Longrightarrow> xs = ys"
proof (induction xs arbitrary: ys)
  case Nil
  then show ?case using parse_parts_head [of ys] by (cases ys) auto
next
  case (Cons x xs)
  then obtain y ys' where ys: "ys = y # ys'"
    using parse_parts_head [of "x # xs"] by (cases ys) auto
  have hd_ne: "concat (map parse_part zs) \<noteq> ArrayItem # r" for zs r
    using parse_parts_head [of zs] by (cases zs) auto
  then have hd_ne': "ArrayItem # r \<noteq> concat (map parse_part zs)" for zs r by metis
  have "x = y \<and> concat (map parse_part xs) = concat (map parse_part ys')"
  proof (cases x rule: parse_part_cases)
    case (item key)
    then show ?thesis using Cons.prems ys hd_ne'
      by (cases y rule: parse_part_cases) auto
  next
    case plain
    then show ?thesis using Cons.prems ys hd_ne
      by (cases y rule: parse_part_cases) auto
  qed
  with Cons.IH ys show ?case by blast
qed

lemma parse_path_inject: "parse_path s = parse_path t \<longleftrightarrow> s = t"
  by (auto simp: parse_path_def split_on_inject dest: parse_parts_inject)

lemma distinct_parse_paths: "distinct (map parse_path ps) \<longleftrightarrow> distinct ps"
  by (simp add: distinct_map inj_on_def parse_path_inject)

section \<open>What a walker does\<close>

locale path_walker =
  fixes walk :: "path_segment list \<Rightarrow> 'n json \<Rightarrow> ('n json, 'e) result"
    and leaf :: "string \<Rightarrow> (string, 'e) result"
  assumes walk_string: "walk [] (JString s) = and_then (leaf s) (\<lambda>t. Ok (JString t))"
    and walk_no_string: "(\<And>s. v \<noteq> JString s) \<Longrightarrow> walk [] v = Ok v"
    and walk_object: "walk (Key k # p) (JObject m) =
      (case map_of m k of
         Some x \<Rightarrow> and_then (walk p x) (\<lambda>x'. Ok (JObject (AList.update k x' m)))
       | None \<Rightarrow> Ok (JObject m))"
    and walk_no_object: "(\<And>m. v \<noteq> JObject m) \<Longrightarrow> walk (Key k # p) v = Ok v"
    and walk_array: "walk (ArrayItem # p) (JArray xs) =
      and_then (try_map (walk p) xs) (\<lambda>ys. Ok (JArray ys))"
    and walk_no_array: "(\<And>xs. v \<noteq> JArray xs) \<Longrightarrow> walk (ArrayItem # p) v = Ok v"
begin

lemma walk_Key_Ok_iff:
  assumes IH: "\<And>x y. keys_ok x \<Longrightarrow>
      walk p x = Ok y \<longleftrightarrow>
        (\<forall>s. (p, s) \<in> set (leaves x) \<longrightarrow> is_ok (leaf s)) \<and>
        y = map_strings (\<lambda>q s. if q = p then unwrap_or (leaf s) s else s) x"
    and v: "keys_ok v"
  shows "walk (Key k # p) v = Ok w \<longleftrightarrow>
      (\<forall>s. (Key k # p, s) \<in> set (leaves v) \<longrightarrow> is_ok (leaf s)) \<and>
      w = map_strings (\<lambda>q s. if q = Key k # p then unwrap_or (leaf s) s else s) v"
proof (cases "\<exists>m x. v = JObject m \<and> map_of m k = Some x")
  case True
  then obtain m x where m: "v = JObject m" "map_of m k = Some x" by blast
  with v have kx: "(k, x) \<in> set m" "hmap_ok m" "keys_ok x" by (auto dest: map_of_SomeD)
  then have uniq: "x' = x" if "(k, x') \<in> set m" for x'
    using that by (metis eq_key_imp_eq_value hmap_ok_def)
  let ?f = "\<lambda>q s. if q = p then unwrap_or (leaf s) s else s"
  have upd: "JObject (AList.update k (map_strings ?f x) m) =
      map_strings (\<lambda>q s. if q = Key k # p then unwrap_or (leaf s) s else s) v"
  proof -
    have "k \<in> fst ` set m" using kx by force
    with kx have "AList.update k (map_strings ?f x) m =
        map (\<lambda>(k', y). (k', if k' = k then map_strings ?f x else y)) m"
      by (simp add: hmap_update_map)
    also have "\<dots> = map (\<lambda>(k', y). (k', map_strings (\<lambda>q s.
        if Key k' # q = Key k # p then unwrap_or (leaf s) s else s) y)) m"
      using uniq by (intro map_cong) (auto simp: map_strings_ident)
    finally show ?thesis by (simp add: m)
  qed
  have "(Key k # p, s) \<in> set (leaves v) \<longleftrightarrow> (p, s) \<in> set (leaves x)" for s
    unfolding leaves_Key_iff m(1) json.inject using kx(1) uniq by blast
  with m IH [OF kx(3)] upd show ?thesis
    by (auto simp: walk_object result_simps)
next
  case False
  then have none: "(Key k # p, s) \<notin> set (leaves v)" for s
    by (auto simp: leaves_Key_iff dest: weak_map_of_SomeI)
  then have "map_strings (\<lambda>q s. if q = Key k # p then unwrap_or (leaf s) s else s) v = v"
    by (intro map_strings_id) auto
  moreover have "walk (Key k # p) v = Ok v"
    using False by (cases v) (auto simp: walk_object walk_no_object split: option.split)
  ultimately show ?thesis using none by auto
qed

lemma walk_ArrayItem_Ok_iff:
  assumes IH: "\<And>x y. keys_ok x \<Longrightarrow>
      walk p x = Ok y \<longleftrightarrow>
        (\<forall>s. (p, s) \<in> set (leaves x) \<longrightarrow> is_ok (leaf s)) \<and>
        y = map_strings (\<lambda>q s. if q = p then unwrap_or (leaf s) s else s) x"
    and v: "keys_ok v"
  shows "walk (ArrayItem # p) v = Ok w \<longleftrightarrow>
      (\<forall>s. (ArrayItem # p, s) \<in> set (leaves v) \<longrightarrow> is_ok (leaf s)) \<and>
      w = map_strings (\<lambda>q s. if q = ArrayItem # p then unwrap_or (leaf s) s else s) v"
proof (cases "\<exists>xs. v = JArray xs")
  case True
  then obtain xs where xs: "v = JArray xs" by blast
  let ?f = "\<lambda>q s. if q = p then unwrap_or (leaf s) s else s"
  have "list_all2 (\<lambda>x y. walk p x = Ok y) xs ys \<longleftrightarrow>
      (\<forall>x \<in> set xs. \<forall>s. (p, s) \<in> set (leaves x) \<longrightarrow> is_ok (leaf s)) \<and> ys = map (map_strings ?f) xs"
    for ys using v xs by (intro list_all2_functional IH) auto
  moreover have "(\<forall>s. (ArrayItem # p, s) \<in> set (leaves v) \<longrightarrow> is_ok (leaf s)) \<longleftrightarrow>
      (\<forall>x \<in> set xs. \<forall>s. (p, s) \<in> set (leaves x) \<longrightarrow> is_ok (leaf s))"
    by (auto simp only: leaves_ArrayItem_iff xs json.inject)
  ultimately show ?thesis
    by (auto simp: xs walk_array and_then_Ok_iff try_map_Ok_iff)
next
  case False
  then have none: "(ArrayItem # p, s) \<notin> set (leaves v)" for s
    by (auto simp: leaves_ArrayItem_iff)
  then have "map_strings (\<lambda>q s. if q = ArrayItem # p then unwrap_or (leaf s) s else s) v = v"
    by (intro map_strings_id) auto
  with none False show ?thesis by (auto simp: walk_no_array)
qed

lemma walk_Ok_iff:
  "keys_ok v \<Longrightarrow>
     walk p v = Ok w \<longleftrightarrow>
       (\<forall>s. (p, s) \<in> set (leaves v) \<longrightarrow> is_ok (leaf s)) \<and>
       w = map_strings (\<lambda>q s. if q = p then unwrap_or (leaf s) s else s) v"
proof (induction p arbitrary: v w)
  case Nil
  show ?case
  proof (cases "\<exists>s. v = JString s")
    case True
    then show ?thesis by (auto simp: walk_string result_simps)
  next
    case False
    then have "map_strings (\<lambda>q s. if q = [] then unwrap_or (leaf s) s else s) v = v"
      by (intro map_strings_id) (auto simp: leaves_Nil_iff)
    with False show ?thesis by (auto simp: walk_no_string leaves_Nil_iff)
  qed
next
  case (Cons seg p)
  show ?case
  proof (cases seg)
    case (Key k)
    then show ?thesis using Cons by (simp add: walk_Key_Ok_iff)
  next
    case ArrayItem
    then show ?thesis using Cons by (simp add: walk_ArrayItem_Ok_iff)
  qed
qed

lemma walk_not_Panic: "(\<And>s. leaf s \<noteq> Panic) \<Longrightarrow> walk p v \<noteq> Panic"
proof (induction p arbitrary: v)
  case Nil
  then show ?case
    by (cases "\<exists>s. v = JString s") (auto simp: walk_string walk_no_string and_then_Panic_iff)
next
  case (Cons seg p)
  then have IH: "walk p x \<noteq> Panic" for x by blast
  show ?case
  proof (cases seg)
    case (Key k)
    with IH show ?thesis
      by (cases v) (auto simp: walk_object walk_no_object and_then_Panic_iff split: option.split)
  next
    case ArrayItem
    with IH show ?thesis
      by (cases v) (auto simp: walk_array walk_no_array and_then_Panic_iff try_map_not_Panic)
  qed
qed

text \<open>
  Walking distinct paths one after the other rewrites each string at most once: a string is
  reached by exactly one path, so the walks do not see each other's results.
\<close>

lemma walk_all_Ok_iff:
  "keys_ok v \<Longrightarrow> distinct ps \<Longrightarrow>
     try_fold walk ps v = Ok w \<longleftrightarrow>
       (\<forall>p s. (p, s) \<in> set (leaves v) \<longrightarrow> p \<in> set ps \<longrightarrow> is_ok (leaf s)) \<and>
       w = map_strings (\<lambda>q s. if q \<in> set ps then unwrap_or (leaf s) s else s) v"
proof (induction ps arbitrary: v w)
  case Nil
  then show ?case by (auto simp: map_strings_ident)
next
  case (Cons p ps)
  let ?u = "map_strings (\<lambda>q s. if q = p then unwrap_or (leaf s) s else s) v"
  have first: "walk p v = Ok u \<longleftrightarrow>
      (\<forall>s. (p, s) \<in> set (leaves v) \<longrightarrow> is_ok (leaf s)) \<and> u = ?u" for u
    using Cons.prems by (intro walk_Ok_iff) auto
  have rest: "try_fold walk ps ?u = Ok w \<longleftrightarrow>
      (\<forall>q s. (q, s) \<in> set (leaves ?u) \<longrightarrow> q \<in> set ps \<longrightarrow> is_ok (leaf s)) \<and>
      w = map_strings (\<lambda>q s. if q \<in> set ps then unwrap_or (leaf s) s else s) ?u"
    using Cons.prems by (intro Cons.IH keys_ok_map_strings) auto
  have same: "(\<forall>q s. (q, s) \<in> set (leaves ?u) \<longrightarrow> q \<in> set ps \<longrightarrow> is_ok (leaf s)) \<longleftrightarrow>
      (\<forall>q s. (q, s) \<in> set (leaves v) \<longrightarrow> q \<in> set ps \<longrightarrow> is_ok (leaf s))"
  proof -
    have "(q, s) \<in> set (leaves ?u) \<longleftrightarrow> (q, s) \<in> set (leaves v)" if "q \<in> set ps" for q s
      using that Cons.prems by (auto simp: leaves_map_strings_iff)
    then show ?thesis by blast
  qed
  have comp: "map_strings (\<lambda>q s. if q \<in> set ps then unwrap_or (leaf s) s else s) ?u =
      map_strings (\<lambda>q s. if q \<in> set (p # ps) then unwrap_or (leaf s) s else s) v"
    using Cons.prems unfolding map_strings_compose by (intro map_strings_cong) auto
  have "try_fold walk (p # ps) v = Ok w \<longleftrightarrow>
      (\<forall>s. (p, s) \<in> set (leaves v) \<longrightarrow> is_ok (leaf s)) \<and> try_fold walk ps ?u = Ok w"
    by (simp only: try_fold.simps and_then_Ok_iff first) blast
  then show ?case
    unfolding rest same comp by auto
qed

lemma walk_order:
  "keys_ok v \<Longrightarrow> distinct ps \<Longrightarrow> distinct qs \<Longrightarrow> set ps = set qs \<Longrightarrow>
     try_fold walk ps v = Ok w \<longleftrightarrow> try_fold walk qs v = Ok w"
  by (simp add: walk_all_Ok_iff)

end

section \<open>Two walkers that undo each other\<close>

locale walker_pair =
  enc: path_walker ewalk eleaf + dec: path_walker dwalk dleaf
  for ewalk :: "path_segment list \<Rightarrow> 'n json \<Rightarrow> ('n json, 'e) result"
    and eleaf :: "string \<Rightarrow> (string, 'e) result"
    and dwalk :: "path_segment list \<Rightarrow> 'n json \<Rightarrow> ('n json, 'e) result"
    and dleaf :: "string \<Rightarrow> (string, 'e) result" +
  fixes good :: bool
  assumes leaf_inverse: "good \<Longrightarrow> valid_str s \<Longrightarrow> eleaf s = Ok t \<Longrightarrow> dleaf t = Ok s"
begin

lemma walk_round_trip:
  assumes good and v: "wf_json v"
    and ps: "distinct ps" "distinct qs" "set ps = set qs"
    and w: "try_fold ewalk ps v = Ok w"
  shows "try_fold dwalk qs w = Ok v"
proof -
  have kv: "keys_ok v" using v by (rule wf_json_keys_ok)
  let ?e = "\<lambda>q s. if q \<in> set ps then unwrap_or (eleaf s) s else s"
  have ok: "is_ok (eleaf s)" if "(p, s) \<in> set (leaves v)" "p \<in> set ps" for p s
    using enc.walk_all_Ok_iff [OF kv ps(1), of w] w that by blast
  have w_eq: "w = map_strings ?e v"
    using enc.walk_all_Ok_iff [OF kv ps(1), of w] w by blast
  have inv: "dleaf (unwrap_or (eleaf s) s) = Ok s" if "(p, s) \<in> set (leaves v)" "p \<in> set ps" for p s
    using ok [OF that] leaf_inverse [OF \<open>good\<close> wf_json_leaves [OF v that(1)]]
    by (auto simp: is_ok_iff)
  have "keys_ok w" using kv w_eq by (simp add: keys_ok_map_strings)
  moreover have "is_ok (dleaf t)" if "(p, t) \<in> set (leaves w)" "p \<in> set qs" for p t
    using that inv ps(3) by (auto simp: w_eq leaves_map_strings_iff is_ok_iff)
  moreover have "map_strings (\<lambda>q s. if q \<in> set qs then unwrap_or (dleaf s) s else s) w = v"
    unfolding w_eq map_strings_compose using inv ps(3) by (intro map_strings_id) auto
  ultimately show ?thesis
    using dec.walk_all_Ok_iff [of w qs v] ps(2) by blast
qed

end

section \<open>The walkers of the service\<close>

lemma decrypt_encrypt_leaf:
  assumes "crypto_ok P" "valid_str s" "encrypt_leaf P dek s = Ok t"
  shows "decrypt_leaf P dek t = Ok s"
proof -
  from assms obtain f where f: "encrypt_field P (as_bytes s) dek = Ok f" "t = to_string_repr P f"
    by (auto simp: encrypt_leaf_def result_simps)
  have "from_str P t = Ok f"
    using f assms(1) encrypt_field_field_ok [OF _ f(1)]
    by (simp add: from_str_canonical crypto_ok_def)
  moreover have "decrypt_field P f dek = Ok (as_bytes s)"
    using assms(1) f(1) by (simp add: decrypt_encrypt_field crypto_ok_def)
  ultimately show ?thesis
    using f(2) assms(2) by (simp add: decrypt_leaf_def to_string_repr_prefix from_utf8_as_bytes)
qed

interpretation svc: walker_pair
  "encrypt_at_path P dek" "encrypt_leaf P dek" "decrypt_at_path P dek" "decrypt_leaf P dek"
  "crypto_ok P"
  for P :: "('c, 'x) crypto_scheme" and dek :: "u8 list"
proof unfold_locales
  fix v :: "'n json" and k p
  show "(\<And>s. v \<noteq> JString s) \<Longrightarrow> encrypt_at_path P dek [] v = Ok v"
    by (cases v) auto
  show "(\<And>s. v \<noteq> JString s) \<Longrightarrow> decrypt_at_path P dek [] v = Ok v"
    by (cases v) auto
  show "(\<And>m. v \<noteq> JObject m) \<Longrightarrow> encrypt_at_path P dek (Key k # p) v = Ok v"
    by (cases v) auto
  show "(\<And>m. v \<noteq> JObject m) \<Longrightarrow> decrypt_at_path P dek (Key k # p) v = Ok v"
    by (cases v) auto
  show "(\<And>xs. v \<noteq> JArray xs) \<Longrightarrow> encrypt_at_path P dek (ArrayItem # p) v = Ok v"
    by (cases v) auto
  show "(\<And>xs. v \<noteq> JArray xs) \<Longrightarrow> decrypt_at_path P dek (ArrayItem # p) v = Ok v"
    by (cases v) auto
qed (auto simp: decrypt_encrypt_leaf split: option.split)

lemma encrypt_pii_fields_walk:
  "encrypt_pii_fields P paths dek v = try_fold (encrypt_at_path P dek) (map parse_path paths) v"
  by (simp add: encrypt_pii_fields_def try_fold_map)

lemma decrypt_pii_fields_walk:
  "decrypt_pii_fields P paths dek v = try_fold (decrypt_at_path P dek) (map parse_path paths) v"
  by (simp add: decrypt_pii_fields_def try_fold_map)

lemma encrypt_pii_fields_Ok_iff:
  assumes "keys_ok v" "distinct paths"
  shows "encrypt_pii_fields P paths dek v = Ok w \<longleftrightarrow>
      (\<forall>p s. (p, s) \<in> set (leaves v) \<longrightarrow> p \<in> parse_path ` set paths \<longrightarrow> is_ok (encrypt_leaf P dek s)) \<and>
      w = map_strings
        (\<lambda>p s. if p \<in> parse_path ` set paths then unwrap_or (encrypt_leaf P dek s) s else s) v"
  using svc.enc.walk_all_Ok_iff [OF assms(1), of "map parse_path paths" P dek w] assms(2)
  by (simp add: encrypt_pii_fields_walk distinct_parse_paths)

lemma decrypt_pii_fields_Ok_iff:
  assumes "keys_ok v" "distinct paths"
  shows "decrypt_pii_fields P paths dek v = Ok w \<longleftrightarrow>
      (\<forall>p s. (p, s) \<in> set (leaves v) \<longrightarrow> p \<in> parse_path ` set paths \<longrightarrow> is_ok (decrypt_leaf P dek s)) \<and>
      w = map_strings
        (\<lambda>p s. if p \<in> parse_path ` set paths then unwrap_or (decrypt_leaf P dek s) s else s) v"
  using svc.dec.walk_all_Ok_iff [OF assms(1), of "map parse_path paths" P dek w] assms(2)
  by (simp add: decrypt_pii_fields_walk distinct_parse_paths)

lemma decrypt_encrypt_pii_fields:
  assumes "crypto_ok P" "wf_json v" "distinct paths" "distinct paths'" "set paths = set paths'"
    and "encrypt_pii_fields P paths dek v = Ok w"
  shows "decrypt_pii_fields P paths' dek w = Ok v"
  using svc.walk_round_trip [of P v "map parse_path paths" "map parse_path paths'" dek w] assms
  by (simp add: encrypt_pii_fields_walk decrypt_pii_fields_walk distinct_parse_paths)

lemma encrypt_leaf_Ok:
  assumes "crypto_ok P" "length dek = KEY_LEN" "length s \<le> 2 ^ 36"
  shows "is_ok (encrypt_leaf P dek s)"
proof -
  from assms obtain f where "encrypt_field P (as_bytes s) dek = Ok f"
    using encrypt_field_Ok [of P dek "as_bytes s"] by auto
  then show ?thesis by (simp add: encrypt_leaf_def is_ok_iff)
qed

lemma encrypt_leaf_token:
  assumes "crypto_ok P" "encrypt_leaf P dek s = Ok t"
  shows "starts_with t ''v1.''" and "valid_str t"
  using assms
  by (auto simp: encrypt_leaf_def result_simps crypto_ok_def to_string_repr_prefix to_string_repr_valid)

lemma encrypt_leaf_not_Panic: "hmac_ok P \<Longrightarrow> encrypt_leaf P dek s \<noteq> Panic"
  by (auto simp: encrypt_leaf_def and_then_Panic_iff encrypt_field_not_Panic)

lemma decrypt_field_not_Panic: "decrypt_field P f dek \<noteq> Panic"
  by (auto simp: decrypt_field_def build_cipher_def result_simps)

lemma decrypt_leaf_not_Panic: "decrypt_leaf P dek s \<noteq> Panic"
  by (auto simp: decrypt_leaf_def result_simps from_str_never_panics decrypt_field_not_Panic)

lemma encrypt_pii_fields_not_Panic: "hmac_ok P \<Longrightarrow> encrypt_pii_fields P paths dek v \<noteq> Panic"
  unfolding encrypt_pii_fields_walk
  by (rule try_fold_not_Panic) (simp add: svc.enc.walk_not_Panic encrypt_leaf_not_Panic)

lemma decrypt_pii_fields_not_Panic: "decrypt_pii_fields P paths dek v \<noteq> Panic"
  unfolding decrypt_pii_fields_walk
  by (rule try_fold_not_Panic) (simp add: svc.dec.walk_not_Panic decrypt_leaf_not_Panic)

text \<open>No string is read as a path with two array steps in a row, or one that starts with one.\<close>

lemma parse_parts_no_nested_array:
  "concat (map parse_part xs) \<noteq> p @ ArrayItem # ArrayItem # q"
proof (induction xs arbitrary: p)
  case (Cons x xs)
  have head: "concat (map parse_part xs) \<noteq> ArrayItem # r" for r
    using parse_parts_head [of xs] by (cases "xs = []") auto
  show ?case
  proof (cases rule: parse_part_cases [of x])
    case (item key)
    show ?thesis using Cons.IH head
      by (auto simp: item(2) Cons_eq_append_conv)
  next
    case plain
    show ?thesis using Cons.IH head
      by (auto simp: plain(2) Cons_eq_append_conv)
  qed
qed simp

lemma parse_path_no_nested_array: "p @ ArrayItem # ArrayItem # q \<notin> parse_path ` A"
  using parse_parts_no_nested_array by (metis imageE parse_path_def)

section \<open>Properties\<close>

definition sample_payload :: "int json" where
  "sample_payload =
     JObject [(''name'', JString ''Ann''),
              (''tags'', JArray [JString ''x'', JNumber 3]),
              (''grid'', JArray [JArray [JString ''y'']])]"

definition sample_dek :: "u8 list" where
  "sample_dek = replicate 32 9"

lemma sample_payload_wf: "wf_json sample_payload"
  by (simp add: sample_payload_def hmap_ok_def) code_simp

lemmas sample_payload_keys_ok = wf_json_keys_ok [OF sample_payload_wf]

lemma sample_dek_length: "length sample_dek = KEY_LEN"
  by (simp add: sample_dek_def KEY_LEN_def)

text \<open>
  C11. Encrypting in place path by path equals one pass over the payload: \<open>encrypt_pii_fields\<close>
  succeeds exactly when every string at a PII path can be encrypted, and then the result is the
  payload in which exactly these strings are replaced by their tokens; keys, numbers, the shape
  and all other strings are as they were. Here \<open>parse_path\<close> of the given names are the PII paths.
\<close>

theorem encrypt_pii_fields_one_pass:
  assumes "keys_ok v" "distinct paths"
  shows "encrypt_pii_fields P paths dek v = Ok w \<longleftrightarrow>
      (\<forall>p s. (p, s) \<in> set (leaves v) \<longrightarrow> p \<in> parse_path ` set paths \<longrightarrow> is_ok (encrypt_leaf P dek s)) \<and>
      w = map_strings
        (\<lambda>p s. if p \<in> parse_path ` set paths then unwrap_or (encrypt_leaf P dek s) s else s) v"
  using assms by (rule encrypt_pii_fields_Ok_iff)

theorem encrypt_pii_fields_one_pass_witness:
  "encrypt_pii_fields sample_crypto [''name'', ''tags[]''] sample_dek sample_payload =
     Ok (map_strings
        (\<lambda>p s. if p \<in> parse_path ` set [''name'', ''tags[]'']
               then unwrap_or (encrypt_leaf sample_crypto sample_dek s) s else s) sample_payload)"
proof -
  have "length s \<le> 2 ^ 36" if "(p, s) \<in> set (leaves sample_payload)" for p s
    using that by (auto simp: sample_payload_def)
  then show ?thesis
    by (subst encrypt_pii_fields_one_pass)
      (auto simp: sample_payload_keys_ok sample_dek_length intro: encrypt_leaf_Ok [OF sample_crypto_ok])
qed

text \<open>
  The order in which the hash set of PII paths is iterated does not change the result of
  encrypting or of decrypting a payload.
\<close>

lemma pii_path_order:
  assumes "keys_ok v" "distinct ps" "distinct qs" "set ps = set qs"
  shows "(encrypt_pii_fields P ps dek v = Ok w \<longleftrightarrow> encrypt_pii_fields P qs dek v = Ok w) \<and>
    (decrypt_pii_fields P ps dek v = Ok w \<longleftrightarrow> decrypt_pii_fields P qs dek v = Ok w)"
  using assms by (simp add: encrypt_pii_fields_Ok_iff decrypt_pii_fields_Ok_iff)

end
