(* ===== verification/Resolver.thy ===== *)
theory Resolver
  imports Payload
begin

text \<open>
  PII path resolution (\<open>src/crates/enclave/src/schema/resolver.rs\<close>). The OpenAPI document is
  modelled by the parts of \<open>openapiv3\<close>'s types that the source matches on. The recursion of
  \<open>walk_schema\<close> follows \<open>$ref\<close>s and is not bounded by the document, so it carries the number
  of stack frames left.

  \<open>pii_at\<close> is the specification: the paths, as lists of steps into a JSON value, at which the
  document marks a value \<open>x-pii: true\<close>. The lemmas show that the resolver yields exactly the
  names of these paths, when it returns, for which names the payload traversal finds
  the way back, and exactly which documents it returns for.
\<close>

section \<open>OpenAPI documents\<close>

datatype 'a reference_or = Reference string | Item 'a

datatype 'n schema =
    Schema (extensions: "(string, 'n json) hmap") (schema_kind: "'n schema_kind")
and 'n schema_kind =
    TypeObject "(string, 'n schema reference_or) hmap"
  | TypeArray "'n schema reference_or option"
  | OtherKind

record 'n openapi =
  components :: "(string, 'n schema reference_or) hmap option"

section \<open>The operations\<close>

definition schemas_prefix :: string where
  "schemas_prefix = ''#/components/schemas/''"

definition resolve_ref :: "('n, 'x) openapi_scheme \<Rightarrow> string \<Rightarrow> 'n schema option" where
  "resolve_ref api reference =
     Option.bind (strip_prefix reference schemas_prefix) (\<lambda>name.
     Option.bind (components api) (\<lambda>schemas.
     Option.bind (map_of schemas name) (\<lambda>r.
       (case r of Item s \<Rightarrow> Some s | Reference _ \<Rightarrow> None))))"

text \<open>The \<open>match\<close> on a property or an array's items.\<close>

definition resolve_item ::
  "('n, 'x) openapi_scheme \<Rightarrow> 'n schema reference_or \<Rightarrow> 'n schema option" where
  "resolve_item api r = (case r of Item s \<Rightarrow> Some s | Reference reference \<Rightarrow> resolve_ref api reference)"

definition is_pii :: "'n schema \<Rightarrow> bool" where
  "is_pii s = (case Option.bind (map_of (extensions s) ''x-pii'') as_bool of
                 Some b \<Rightarrow> b | None \<Rightarrow> False)"

definition property_path :: "string \<Rightarrow> string \<Rightarrow> string" where
  "property_path prefix prop_name =
     (if prefix = '''' then prop_name else prefix @ ''.'' @ prop_name)"

definition array_path :: "string \<Rightarrow> string" where
  "array_path prefix = (if prefix = '''' then ''[]'' else prefix @ ''[]'')"

fun walk_schema ::
  "nat \<Rightarrow> ('n, 'x) openapi_scheme \<Rightarrow> 'n schema \<Rightarrow> string \<Rightarrow> string set \<Rightarrow> string set option" where
  "walk_schema 0 api schema prefix out = None"
| "walk_schema (Suc frames) api schema prefix out =
     (case schema_kind schema of
        TypeObject properties \<Rightarrow>
          opt_fold (\<lambda>(prop_name, prop_ref) out.
            let path = property_path prefix prop_name in
            (case resolve_item api prop_ref of
               Some prop_schema \<Rightarrow>
                 walk_schema frames api prop_schema path
                   (if is_pii prop_schema then insert path out else out)
             | None \<Rightarrow> Some out)) properties out
      | TypeArray (Some items_ref) \<Rightarrow>
          (case resolve_item api items_ref of
             Some items_schema \<Rightarrow>
               walk_schema frames api items_schema (array_path prefix)
                 (if is_pii items_schema then insert (array_path prefix) out else out)
           | None \<Rightarrow> Some out)
      | _ \<Rightarrow> Some out)"

definition resolve_pii_paths :: "nat \<Rightarrow> ('n, 'x) openapi_scheme \<Rightarrow> string set option" where
  "resolve_pii_paths frames api =
     (case components api of
        Some schemas \<Rightarrow>
          opt_fold (\<lambda>(_, schema_ref) paths.
            (case schema_ref of
               Item schema \<Rightarrow> walk_schema frames api schema '''' paths
             | Reference _ \<Rightarrow> Some paths)) schemas {}
      | None \<Rightarrow> Some {})"

section \<open>The specification\<close>

text \<open>The sub-schemas one step into the values a schema describes.\<close>

definition sub_schemas ::
  "('n, 'x) openapi_scheme \<Rightarrow> 'n schema \<Rightarrow> (path_segment \<times> 'n schema) list" where
  "sub_schemas api s =
     (case schema_kind s of
        TypeObject properties \<Rightarrow>
          List.map_filter (\<lambda>(k, r). map_option (\<lambda>t. (Key k, t)) (resolve_item api r)) properties
      | TypeArray (Some r) \<Rightarrow>
          (case resolve_item api r of Some t \<Rightarrow> [(ArrayItem, t)] | None \<Rightarrow> [])
      | _ \<Rightarrow> [])"

inductive pii_at :: "('n, 'x) openapi_scheme \<Rightarrow> 'n schema \<Rightarrow> path_segment list \<Rightarrow> bool"
  for api :: "('n, 'x) openapi_scheme" where
  here: "(seg, t) \<in> set (sub_schemas api s) \<Longrightarrow> is_pii t \<Longrightarrow> pii_at api s [seg]"
| below: "(seg, t) \<in> set (sub_schemas api s) \<Longrightarrow> pii_at api t p \<Longrightarrow> pii_at api s (seg # p)"

text \<open>The document's PII paths: from every schema that is not itself a reference.\<close>

definition api_pii :: "('n, 'x) openapi_scheme \<Rightarrow> path_segment list set" where
  "api_pii api =
     {p. \<exists>schemas name s. components api = Some schemas \<and> (name, Item s) \<in> set schemas \<and> pii_at api s p}"

text \<open>How the resolver writes a path down, below a prefix.\<close>

definition extend_name :: "string \<Rightarrow> path_segment \<Rightarrow> string" where
  "extend_name prefix seg =
     (case seg of Key k \<Rightarrow> property_path prefix k | ArrayItem \<Rightarrow> array_path prefix)"

definition render :: "string \<Rightarrow> path_segment list \<Rightarrow> string" where
  "render prefix p = foldl extend_name prefix p"

section \<open>The resolver finds exactly the marked paths\<close>

lemma pii_at_unfold:
  "pii_at api s p \<longleftrightarrow>
     (\<exists>seg t. (seg, t) \<in> set (sub_schemas api s) \<and>
        (is_pii t \<and> p = [seg] \<or> (\<exists>q. pii_at api t q \<and> p = seg # q)))"
  by (subst pii_at.simps) blast

lemma render_Nil [simp]: "render prefix [] = prefix"
  by (simp add: render_def)

lemma render_Cons [simp]: "render prefix (seg # p) = render (extend_name prefix seg) p"
  by (simp add: render_def)

lemma extend_name_simps [simp]:
  "extend_name prefix (Key k) = property_path prefix k"
  "extend_name prefix ArrayItem = array_path prefix"
  by (simp_all add: extend_name_def)

lemma walk_schema_sub_schemas:
  "walk_schema (Suc n) api s prefix out =
     opt_fold (\<lambda>(seg, t) out. walk_schema n api t (extend_name prefix seg)
       (if is_pii t then insert (extend_name prefix seg) out else out)) (sub_schemas api s) out"
proof (cases "schema_kind s")
  case (TypeObject properties)
  have "opt_fold (\<lambda>(k, r) out.
          case resolve_item api r of
            Some t \<Rightarrow> walk_schema n api t (property_path prefix k)
              (if is_pii t then insert (property_path prefix k) out else out)
          | None \<Rightarrow> Some out) ps =
        opt_fold (\<lambda>(seg, t) out. walk_schema n api t (extend_name prefix seg)
          (if is_pii t then insert (extend_name prefix seg) out else out))
          (List.map_filter (\<lambda>(k, r). map_option (\<lambda>t. (Key k, t)) (resolve_item api r)) ps)"
    for ps
  proof (induction ps)
    case (Cons a ps)
    obtain k r where a: "a = (k, r)" by force
    show ?case
      by (rule ext, cases "resolve_item api r") (simp_all add: a map_filter_simps Cons.IH)
  qed (simp add: map_filter_simps)
  with TypeObject show ?thesis by (simp add: sub_schemas_def Let_def)
next
  case (TypeArray items)
  then show ?thesis
    by (cases items) (auto simp: sub_schemas_def split: option.split)
qed (simp add: sub_schemas_def)

lemma pii_names_unfold:
  "{render prefix p |p. pii_at api s p} =
     (\<Union>(seg, t) \<in> set (sub_schemas api s).
        (if is_pii t then {extend_name prefix seg} else {}) \<union>
        {render (extend_name prefix seg) p |p. pii_at api t p})"
  (is "?L = ?R")
proof
  show "?L \<subseteq> ?R"
    by (auto simp: pii_at_unfold [of api s]) force+
  show "?R \<subseteq> ?L"
    by (auto split: if_splits intro: pii_at.intros) (metis render_Cons render_Nil pii_at.intros)+
qed

lemma walk_schema_exact:
  "walk_schema n api s prefix out = Some out' \<Longrightarrow>
     out' = out \<union> {render prefix p |p. pii_at api s p}"
proof (induction n arbitrary: s prefix out out')
  case (Suc n)
  have "out' = out \<union> (\<Union>x \<in> set (sub_schemas api s). case x of (seg, t) \<Rightarrow>
        (if is_pii t then {extend_name prefix seg} else {}) \<union>
        {render (extend_name prefix seg) p |p. pii_at api t p})"
    using Suc.prems unfolding walk_schema_sub_schemas
  proof (rule opt_fold_union [rotated])
    fix x s0 s'
    assume "x \<in> set (sub_schemas api s)"
      and step: "(case x of (seg, t) \<Rightarrow> \<lambda>out. walk_schema n api t (extend_name prefix seg)
            (if is_pii t then insert (extend_name prefix seg) out else out)) s0 = Some s'"
    obtain seg t where x: "x = (seg, t)" by force
    from step have "s' = (if is_pii t then insert (extend_name prefix seg) s0 else s0) \<union>
        {render (extend_name prefix seg) p |p. pii_at api t p}"
      unfolding x prod.case by (rule Suc.IH)
    then show "s' = s0 \<union> (case x of (seg, t) \<Rightarrow>
        (if is_pii t then {extend_name prefix seg} else {}) \<union>
        {render (extend_name prefix seg) p |p. pii_at api t p})"
      unfolding x prod.case by (cases "is_pii t") simp_all
  qed
  then show ?case by (subst pii_names_unfold)
qed simp

lemma resolve_pii_paths_exact:
  assumes "resolve_pii_paths n api = Some paths"
  shows "paths = render '''' ` api_pii api"
proof (cases "components api")
  case None
  with assms show ?thesis by (simp add: resolve_pii_paths_def api_pii_def)
next
  case (Some schemas)
  have "paths = {} \<union> (\<Union>x \<in> set schemas. case x of (_, r) \<Rightarrow>
      (case r of Item s \<Rightarrow> {render '''' p |p. pii_at api s p} | Reference _ \<Rightarrow> {}))"
    using assms unfolding resolve_pii_paths_def Some option.case
    by (rule opt_fold_union [rotated])
       (auto dest: walk_schema_exact split: reference_or.splits prod.splits)
  then show ?thesis
    by (auto simp: Some api_pii_def image_iff split: reference_or.splits prod.splits) blast+
qed

section \<open>When the resolver returns\<close>

definition sub_schema :: "('n, 'x) openapi_scheme \<Rightarrow> 'n schema \<Rightarrow> 'n schema \<Rightarrow> bool" where
  "sub_schema api t s \<longleftrightarrow> t \<in> snd ` set (sub_schemas api s)"

lemma walk_schema_mono:
  "walk_schema n api s prefix out = Some out' \<Longrightarrow> n \<le> m \<Longrightarrow>
     walk_schema m api s prefix out = Some out'"
proof (induction n arbitrary: m s prefix out out')
  case (Suc n)
  then obtain m' where m: "m = Suc m'" "n \<le> m'" by (cases m) auto
  from Suc.prems(1) show ?case
    unfolding m(1) walk_schema_sub_schemas
    by (rule opt_fold_mono [rotated]) (auto intro: Suc.IH [OF _ m(2)] split: prod.splits)
qed simp

lemma walk_schema_bounded:
  assumes "\<And>t. sub_schema api t s \<Longrightarrow> \<exists>n. \<forall>prefix out. walk_schema n api t prefix out \<noteq> None"
  shows "\<exists>n. \<forall>prefix out. walk_schema n api s prefix out \<noteq> None"
proof -
  from assms obtain f where f: "walk_schema (f t) api t prefix out \<noteq> None"
    if "sub_schema api t s" for t prefix out by metis
  define n where "n = Max (insert 0 (f ` snd ` set (sub_schemas api s)))"
  have step: "\<exists>out'. walk_schema n api t prefix out = Some out'"
    if "(seg, t) \<in> set (sub_schemas api s)" for seg t prefix out
  proof -
    have "sub_schema api t s" using that by (force simp: sub_schema_def)
    then obtain out' where "walk_schema (f t) api t prefix out = Some out'"
      using f unfolding not_None_eq by blast
    moreover have "f t \<le> n" using that unfolding n_def by (intro Max_ge) force+
    ultimately show ?thesis using walk_schema_mono by blast
  qed
  have "\<exists>out'. walk_schema (Suc n) api s prefix out = Some out'" for prefix out
    unfolding walk_schema_sub_schemas by (rule opt_fold_total) (auto intro: step split: prod.split)
  then show ?thesis by (metis option.distinct(1))
qed

lemma walk_schema_steps:
  assumes "walk_schema (Suc n) api s prefix out = Some out'" "sub_schema api t s"
  obtains path u u' where "walk_schema n api t path u = Some u'"
proof -
  from assms(2) obtain seg where seg: "(seg, t) \<in> set (sub_schemas api s)"
    by (auto simp: sub_schema_def)
  from opt_fold_steps [OF assms(1) [unfolded walk_schema_sub_schemas] seg]
  obtain u u' where "walk_schema n api t (extend_name prefix seg)
      (if is_pii t then insert (extend_name prefix seg) u else u) = Some u'"
    unfolding prod.case by (elim exE)
  then show thesis by (rule that)
qed

lemma walk_schema_returned:
  "walk_schema n api s prefix out = Some out' \<Longrightarrow> Wellfounded.accp (sub_schema api) s"
proof (induction n arbitrary: s prefix out out')
  case (Suc n)
  show ?case
  proof (rule accp.accI)
    fix t assume "sub_schema api t s"
    with Suc.prems obtain path u u' where "walk_schema n api t path u = Some u'"
      by (rule walk_schema_steps)
    then show "Wellfounded.accp (sub_schema api) t" by (rule Suc.IH)
  qed
qed simp

lemma walk_schema_returns_iff:
  "(\<exists>n. \<forall>prefix out. walk_schema n api s prefix out \<noteq> None) \<longleftrightarrow> Wellfounded.accp (sub_schema api) s"
proof
  assume "\<exists>n. \<forall>prefix out. walk_schema n api s prefix out \<noteq> None"
  then obtain n out' where "walk_schema n api s '''' {} = Some out'" by fast
  then show "Wellfounded.accp (sub_schema api) s" by (rule walk_schema_returned)
next
  assume "Wellfounded.accp (sub_schema api) s"
  then show "\<exists>n. \<forall>prefix out. walk_schema n api s prefix out \<noteq> None"
    by (induction rule: accp.induct) (rule walk_schema_bounded)
qed

lemma accp_not_cyclic: "Wellfounded.accp R x \<Longrightarrow> \<not> R\<^sup>+\<^sup>+ x x"
proof (induction rule: accp.induct)
  case (accI x)
  show ?case
  proof
    assume "R\<^sup>+\<^sup>+ x x"
    then obtain y where "R\<^sup>*\<^sup>* x y" "R y x" by (metis tranclp.cases tranclp_into_rtranclp rtranclp.rtrancl_refl)
    then have "R\<^sup>+\<^sup>+ y y" by (meson rtranclp_into_tranclp2)
    with accI \<open>R y x\<close> show False by blast
  qed
qed

text \<open>The schemas the resolver starts from.\<close>

definition root_schemas :: "('n, 'x) openapi_scheme \<Rightarrow> 'n schema set" where
  "root_schemas api = {s. \<exists>schemas name. components api = Some schemas \<and> (name, Item s) \<in> set schemas}"

lemma finite_root_schemas: "finite (root_schemas api)"
proof (cases "components api")
  case (Some schemas)
  have "root_schemas api \<subseteq> (\<lambda>x. case snd x of Item s \<Rightarrow> s) ` set schemas"
    using Some by (force simp: root_schemas_def)
  then show ?thesis by (rule finite_subset) simp
qed (simp add: root_schemas_def)

lemma resolve_pii_paths_returns_iff:
  "(\<exists>n paths. resolve_pii_paths n api = Some paths) \<longleftrightarrow>
     (\<forall>s \<in> root_schemas api. Wellfounded.accp (sub_schema api) s)"
proof
  assume "\<exists>n paths. resolve_pii_paths n api = Some paths"
  then obtain n paths where n: "resolve_pii_paths n api = Some paths" by blast
  show "\<forall>s \<in> root_schemas api. Wellfounded.accp (sub_schema api) s"
  proof
    fix s assume "s \<in> root_schemas api"
    then obtain schemas name where s: "components api = Some schemas" "(name, Item s) \<in> set schemas"
      by (auto simp: root_schemas_def)
    from opt_fold_steps [OF n [unfolded resolve_pii_paths_def s(1) option.case] s(2)]
    obtain u u' where "walk_schema n api s '''' u = Some u'"
      unfolding prod.case reference_or.case by (elim exE)
    then show "Wellfounded.accp (sub_schema api) s" by (rule walk_schema_returned)
  qed
next
  assume acc: "\<forall>s \<in> root_schemas api. Wellfounded.accp (sub_schema api) s"
  then have "\<exists>n. \<forall>prefix out. walk_schema n api s prefix out \<noteq> None" if "s \<in> root_schemas api" for s
    using that unfolding walk_schema_returns_iff by blast
  then obtain f where f: "walk_schema (f s) api s prefix out \<noteq> None"
    if "s \<in> root_schemas api" for s prefix out by metis
  define n where "n = Max (insert 0 (f ` root_schemas api))"
  have step: "\<exists>out'. walk_schema n api s prefix out = Some out'"
    if mem: "s \<in> root_schemas api" for s prefix out
  proof -
    obtain out' where "walk_schema (f s) api s prefix out = Some out'"
      using f [OF mem] unfolding not_None_eq by blast
    moreover have "f s \<le> n"
      using mem finite_root_schemas unfolding n_def by (intro Max_ge) auto
    ultimately show ?thesis using walk_schema_mono by blast
  qed
  have "\<exists>paths. resolve_pii_paths n api = Some paths"
  proof (cases "components api")
    case (Some schemas)
    show ?thesis
      unfolding resolve_pii_paths_def Some option.case
      by (rule opt_fold_total)
         (auto intro!: step simp: root_schemas_def Some split: prod.split reference_or.split)
  qed (simp add: resolve_pii_paths_def)
  then show "\<exists>n paths. resolve_pii_paths n api = Some paths" by blast
qed

lemma resolve_pii_paths_mono:
  assumes "resolve_pii_paths n api = Some paths" "n \<le> m"
  shows "resolve_pii_paths m api = Some paths"
proof (cases "components api")
  case None
  with assms show ?thesis by (simp add: resolve_pii_paths_def)
next
  case (Some schemas)
  from assms(1) show ?thesis
    unfolding resolve_pii_paths_def Some option.case
    by (rule opt_fold_mono [rotated])
       (auto intro: walk_schema_mono [OF _ assms(2)] split: prod.splits reference_or.splits)
qed

lemma walk_schema_finite:
  "walk_schema n api s prefix out = Some out' \<Longrightarrow> finite out \<Longrightarrow> finite out'"
proof (induction n arbitrary: s prefix out out')
  case (Suc n)
  from Suc.prems show ?case
    unfolding walk_schema_sub_schemas
    by (rule opt_fold_invariant [rotated]) (auto dest!: Suc.IH split: if_splits)
qed simp

lemma resolve_pii_paths_finite: "resolve_pii_paths n api = Some paths \<Longrightarrow> finite paths"
proof (cases "components api")
  case (Some schemas)
  assume "resolve_pii_paths n api = Some paths"
  then have "opt_fold (\<lambda>(_, schema_ref) paths.
      (case schema_ref of Item schema \<Rightarrow> walk_schema n api schema '''' paths
       | Reference _ \<Rightarrow> Some paths)) schemas {} = Some paths"
    by (simp add: resolve_pii_paths_def Some)
  then show ?thesis
    by (rule opt_fold_invariant [rotated])
      (auto intro: walk_schema_finite split: reference_or.splits)
qed (simp add: resolve_pii_paths_def)

lemma api_piiI:
  "components api = Some schemas \<Longrightarrow> (name, Item s) \<in> set schemas \<Longrightarrow> pii_at api s p \<Longrightarrow> p \<in> api_pii api"
  by (auto simp: api_pii_def)

lemma api_pii_not_Nil: "p \<in> api_pii api \<Longrightarrow> p \<noteq> []"
  by (auto simp: api_pii_def elim: pii_at.cases)

section \<open>Names the traversal can read back\<close>

text \<open>
  A property name that the dot notation can carry: not empty, no dot in it, and not itself
  ending in the array suffix. A path is readable when its names are and every array step
  directly follows a property step.
\<close>

definition plain_name :: "string \<Rightarrow> bool" where
  "plain_name k \<longleftrightarrow> k \<noteq> '''' \<and> CHR ''.'' \<notin> set k \<and> strip_suffix k ''[]'' = None"

fun readable :: "path_segment list \<Rightarrow> bool" where
  "readable [] = True"
| "readable (Key k # ArrayItem # p) = (plain_name k \<and> readable p)"
| "readable [Key k] = plain_name k"
| "readable (Key k # Key l # p) = (plain_name k \<and> readable (Key l # p))"
| "readable (ArrayItem # p) = False"

fun path_parts :: "path_segment list \<Rightarrow> string list" where
  "path_parts [] = []"
| "path_parts (Key k # ArrayItem # p) = (k @ ''[]'') # path_parts p"
| "path_parts [Key k] = [k]"
| "path_parts (Key k # Key l # p) = k # path_parts (Key l # p)"
| "path_parts (ArrayItem # p) = path_parts p"

lemma render_path_parts:
  "readable p \<Longrightarrow> prefix \<noteq> '''' \<Longrightarrow>
     render prefix p = prefix @ concat (map (Cons CHR ''.'') (path_parts p))"
proof (induction p arbitrary: prefix rule: readable.induct)
  case (2 k p)
  then show ?case
    using "2.IH" [of "prefix @ ''.'' @ k @ ''[]''"] by (simp add: property_path_def array_path_def)
next
  case (3 k)
  then show ?case by (simp add: property_path_def)
next
  case (4 k l p)
  then show ?case
    using "4.IH" [of "prefix @ ''.'' @ k"] by (simp add: property_path_def)
qed auto

lemma join_on_Cons_concat: "join_on d (q # ps) = q @ concat (map (Cons d) ps)"
  by (induction ps arbitrary: q) auto

lemma render_join:
  assumes "readable p" "p \<noteq> []"
  shows "render '''' p = join_on CHR ''.'' (path_parts p)"
  using assms
proof (cases p rule: readable.cases)
  case (2 k q)
  with assms show ?thesis
    by (simp add: property_path_def array_path_def plain_name_def render_path_parts join_on_Cons_concat)
next
  case (3 k)
  with assms show ?thesis by (simp add: property_path_def)
next
  case (4 k k' q)
  with assms show ?thesis
    using render_path_parts [of "Key k' # q" k]
    by (simp add: property_path_def plain_name_def join_on_Cons_concat)
qed auto

lemma path_parts_no_dot: "readable p \<Longrightarrow> part \<in> set (path_parts p) \<Longrightarrow> CHR ''.'' \<notin> set part"
  by (induction p rule: readable.induct) (auto simp: plain_name_def)

lemma parse_path_parts: "readable p \<Longrightarrow> concat (map parse_part (path_parts p)) = p"
  by (induction p rule: readable.induct) (auto simp: plain_name_def parse_part_def)

lemma parse_path_render:
  assumes "readable p" "p \<noteq> []"
  shows "parse_path (render '''' p) = p"
proof -
  have "path_parts p \<noteq> []" using assms by (cases p rule: readable.cases) auto
  with assms show ?thesis
    by (simp add: parse_path_def render_join split_on_join_on path_parts_no_dot parse_path_parts)
qed

section \<open>Properties\<close>

text \<open>
  A document whose \<open>User\<close> refers to an address, and one whose \<open>Node\<close> refers to itself.
\<close>

definition pii_schema :: "int schema" where
  "pii_schema = Schema [(''x-pii'', JBool True)] OtherKind"

definition address_schema :: "int schema" where
  "address_schema = Schema [] (TypeObject [(''street'', Item pii_schema), (''country'', Item (Schema [] OtherKind))])"

definition user_schema :: "int schema" where
  "user_schema = Schema [] (TypeObject
     [(''ssn'', Item pii_schema),
      (''homes'', Item (Schema [] (TypeArray (Some (Reference ''#/components/schemas/Address'')))))])"

definition sample_api :: "int openapi" where
  "sample_api = \<lparr>components = Some [(''User'', Item user_schema), (''Address'', Item address_schema)]\<rparr>"

definition node_schema :: "int schema" where
  "node_schema = Schema [] (TypeObject [(''next'', Reference ''#/components/schemas/Node'')])"

definition cyclic_api :: "int openapi" where
  "cyclic_api = \<lparr>components = Some [(''Node'', Item node_schema)]\<rparr>"

lemma sample_api_paths:
  "resolve_pii_paths 10 sample_api = Some {''ssn'', ''homes[].street'', ''street''}"
  by code_simp

text \<open>
  C10. \<open>resolve_pii_paths\<close> finds exactly the marked paths: whenever it returns, the set is the
  dot-notation of all paths to a property or array item that carries \<open>x-pii: true\<close>, from any
  schema of the document, through nested objects, arrays and references.
\<close>

theorem resolver_exact:
  assumes "resolve_pii_paths frames api = Some paths"
  shows "paths = render '''' ` api_pii api"
  using assms by (rule resolve_pii_paths_exact)

theorem resolver_exact_witness:
  "render '''' ` api_pii sample_api = {''ssn'', ''homes[].street'', ''street''}"
  using resolver_exact [OF sample_api_paths] by simp

text \<open>
  C13. The recursion of the resolver ends exactly on the documents without a cycle: some stack is
  deep enough for \<open>resolve_pii_paths\<close> if and only if every schema of the document is in the
  well-founded part of the sub-schema relation.
\<close>

theorem resolver_returns_iff:
  "(\<exists>frames paths. resolve_pii_paths frames api = Some paths) \<longleftrightarrow>
     (\<forall>s \<in> root_schemas api. Wellfounded.accp (sub_schema api) s)"
  by (rule resolve_pii_paths_returns_iff)

theorem resolver_returns_iff_witness:
  "Wellfounded.accp (sub_schema sample_api) user_schema"
proof -
  have "user_schema \<in> root_schemas sample_api"
    by (auto simp: root_schemas_def sample_api_def intro: exI [of _ "''User''"])
  then show ?thesis using resolver_returns_iff [of sample_api] sample_api_paths by blast
qed

text \<open>
  C14. A schema that refers back to itself, directly or through other schemas, exhausts every
  stack: \<open>walk_schema\<close> has no check for references it is already following.
\<close>

theorem cyclic_reference_overflows:
  assumes "s \<in> root_schemas api" "(sub_schema api)\<^sup>+\<^sup>+ s s"
  shows "resolve_pii_paths frames api = None"
proof (rule ccontr)
  assume "resolve_pii_paths frames api \<noteq> None"
  then have "\<exists>frames paths. resolve_pii_paths frames api = Some paths" by blast
  with assms(1) have "Wellfounded.accp (sub_schema api) s"
    unfolding resolve_pii_paths_returns_iff by blast
  with assms(2) accp_not_cyclic show False by metis
qed

theorem cyclic_reference_overflows_witness: "resolve_pii_paths 1000000 cyclic_api = None"
proof (rule cyclic_reference_overflows)
  show "node_schema \<in> root_schemas cyclic_api"
    by (simp add: root_schemas_def cyclic_api_def)
  have "sub_schemas cyclic_api node_schema = [(Key ''next'', node_schema)]"
    by code_simp
  then show "(sub_schema cyclic_api)\<^sup>+\<^sup>+ node_schema node_schema"
    by (intro tranclp.r_into_trancl) (simp add: sub_schema_def)
qed

text \<open>
  C32. The handlers read what the resolver writes: \<open>parse_path\<close> of the dot-notation of a path is
  the path, for paths whose property names are plain (not empty, no dot, not ending in a pair of
  brackets) and in which every array step follows a property.
\<close>

theorem parse_path_inverts_resolver:
  assumes "readable p" "p \<noteq> []"
  shows "parse_path (render '''' p) = p"
  using assms by (rule parse_path_render)

theorem parse_path_inverts_resolver_witness:
  "parse_path ''homes[].street'' = [Key ''homes'', ArrayItem, Key ''street'']"
  using parse_path_inverts_resolver [of "[Key ''homes'', ArrayItem, Key ''street'']"]
  by (simp add: property_path_def array_path_def plain_name_def strip_suffix_def)

end
