(* ===== verification/Schema_Cache.thy ===== *)
theory Schema_Cache
  imports Config Resolver
begin

text \<open>
  The schema cache and its loading from S3 (\<open>src/crates/enclave/src/schema/cache.rs\<close> and
  \<open>schema/mod.rs\<close>). The S3 calls and the YAML and JSON parsers are the fields of \<open>s3_io\<close>, an
  argument of the loader; each refresh sees its own answers. Computing the PII paths of a
  document recurses without a bound of its own (\<open>Resolver\<close>), so \<open>replace_all\<close> and everything
  above it give \<open>None\<close> where the stack is exhausted, which ends the process.
\<close>

section \<open>The cache\<close>

datatype cache_error = UnknownSchema string

record 'n cached_schema =
  cached_api :: "'n openapi"
  pii_paths :: "string set"

type_synonym 'n schema_cache = "(string, 'n cached_schema) hmap"

definition schema_cache_new :: "'n schema_cache" where
  "schema_cache_new = []"

definition cache_len :: "'n schema_cache \<Rightarrow> nat" where
  "cache_len cache = length cache"

definition cache_is_empty :: "'n schema_cache \<Rightarrow> bool" where
  "cache_is_empty cache \<longleftrightarrow> cache = []"

definition cache_get :: "string \<Rightarrow> 'n schema_cache \<Rightarrow> ('n cached_schema, cache_error) result" where
  "cache_get name cache = ok_or (map_of cache name) (UnknownSchema name)"

fun cache_entries ::
  "nat \<Rightarrow> (string, 'n openapi) hmap \<Rightarrow> 'n schema_cache option" where
  "cache_entries frames [] = Some []"
| "cache_entries frames ((name, api) # schemas) =
     Option.bind (resolve_pii_paths frames api) (\<lambda>paths.
       map_option (Cons (name, \<lparr>cached_api = api, pii_paths = paths\<rparr>)) (cache_entries frames schemas))"

definition replace_all ::
  "nat \<Rightarrow> (string, 'n openapi) hmap \<Rightarrow> 'n schema_cache \<Rightarrow> 'n schema_cache option" where
  "replace_all frames schemas cache = cache_entries frames schemas"

definition schema_cache_default :: "'n schema_cache" where
  "schema_cache_default = schema_cache_new"

section \<open>Loading\<close>

definition schema_name_from_key :: "string \<Rightarrow> string \<Rightarrow> string" where
  "schema_name_from_key key pre =
     (let without_prefix = (case strip_prefix key pre of Some s \<Rightarrow> s | None \<Rightarrow> key) in
      case List.find (\<lambda>ext. strip_suffix without_prefix ext \<noteq> None) [''.yaml'', ''.yml'', ''.json''] of
        Some ext \<Rightarrow> the (strip_suffix without_prefix ext)
      | None \<Rightarrow> without_prefix)"

text \<open>
  \<open>list_objects_v2\<close> gives one page of objects, each with its key if it has one;
  \<open>get_object\<close> a response whose body is collected in a second step that can fail.
\<close>

record 'n s3_io =
  list_objects_v2 :: "string \<Rightarrow> string \<Rightarrow> (string option list, anyhow) result"
  get_object :: "string \<Rightarrow> string \<Rightarrow> ((u8 list, anyhow) result, anyhow) result"
  parse_yaml :: "string \<Rightarrow> 'n openapi option"
  parse_json :: "string \<Rightarrow> 'n openapi option"

definition load_object ::
  "('n, 'x) s3_io_scheme \<Rightarrow> config \<Rightarrow> string option \<Rightarrow> (string, 'n openapi) hmap \<Rightarrow>
     ((string, 'n openapi) hmap, anyhow) result" where
  "load_object io cfg obj schemas =
     (case obj of
        None \<Rightarrow> Ok schemas
      | Some key \<Rightarrow>
          (let name = schema_name_from_key key (s3_prefix cfg) in
           and_then (with_context (get_object io (s3_bucket cfg) key)
             (''failed to fetch schema from S3: '' @ key)) (\<lambda>get.
           and_then (with_context get (''failed to read body for S3 key: '' @ key)) (\<lambda>body_bytes.
           and_then (ok_or (from_utf8 body_bytes)
             [''S3 object '' @ key @ '' is not valid UTF-8'']) (\<lambda>text.
           and_then (case parse_yaml io text of
               Some parsed \<Rightarrow> Ok parsed
             | None \<Rightarrow>
                 (case parse_json io text of
                    Some parsed \<Rightarrow> Ok parsed
                  | None \<Rightarrow> Err [''failed to parse OpenAPI schema from S3 key '' @ key @
                                  '': not valid YAML or JSON''])) (\<lambda>api.
             Ok (AList.update name api schemas)))))))"

definition load_all ::
  "nat \<Rightarrow> ('n, 'x) s3_io_scheme \<Rightarrow> config \<Rightarrow> 'n schema_cache \<Rightarrow>
     ('n schema_cache \<times> (unit, anyhow) result) option" where
  "load_all frames io cfg cache =
     (case and_then (with_context (list_objects_v2 io (s3_bucket cfg) (s3_prefix cfg))
              ''failed to list S3 objects for schemas'') (\<lambda>objects.
             try_fold (load_object io cfg) objects []) of
        Ok schemas \<Rightarrow> map_option (\<lambda>cache'. (cache', Ok ())) (replace_all frames schemas cache)
      | Err e \<Rightarrow> Some (cache, Err e)
      | Panic \<Rightarrow> Some (cache, Panic))"

text \<open>
  One iteration of the refresh loop: a failed refresh retains the previous cache. (As in the rotation task,
  a call of the SDK that panicked would end the task with the cache it had, as if all later ticks failed.)
\<close>

definition refresh_tick ::
  "nat \<Rightarrow> config \<Rightarrow> ('n, 'x) s3_io_scheme \<Rightarrow> 'n schema_cache \<Rightarrow> 'n schema_cache option" where
  "refresh_tick frames cfg io cache = map_option fst (load_all frames io cfg cache)"

definition refresh_task ::
  "nat \<Rightarrow> config \<Rightarrow> ('n, 'x) s3_io_scheme list \<Rightarrow> 'n schema_cache \<Rightarrow>
     ('n schema_cache option, anyhow) result" where
  "refresh_task frames cfg ticks cache =
     (if schema_refresh_interval_secs cfg = 0 then Panic
      else Ok (opt_fold (refresh_tick frames cfg) ticks cache))"

section \<open>The contract of a cache that is replaced as a whole\<close>

text \<open>
  \<open>build\<close> is what the cache keeps for one value; it may fail, and then the replacement does.
\<close>

locale snapshot_cache =
  fixes get :: "'k \<Rightarrow> 'c \<Rightarrow> ('e, 'err) result"
    and len :: "'c \<Rightarrow> nat"
    and replace :: "('k, 'v) hmap \<Rightarrow> 'c \<Rightarrow> 'c option"
    and build :: "'v \<Rightarrow> 'e option"
    and invar :: "'c \<Rightarrow> bool"
  assumes replace_total: "(\<exists>c'. replace m c = Some c') \<longleftrightarrow> (\<forall>(k, v) \<in> set m. build v \<noteq> None)"
    and replace_get: "replace m c = Some c' \<Longrightarrow>
      get k c' = Ok e \<longleftrightarrow> (\<exists>v. map_of m k = Some v \<and> build v = Some e)"
    and replace_len: "hmap_ok m \<Longrightarrow> replace m c = Some c' \<Longrightarrow> len c' = length m"
    and replace_invar: "hmap_ok m \<Longrightarrow> replace m c = Some c' \<Longrightarrow> invar c'"
begin

text \<open>Nothing of the previous contents survives, and the previous contents do not matter.\<close>

lemma replace_forgets:
  "replace m c = Some c' \<Longrightarrow> map_of m k = None \<Longrightarrow> \<not> is_ok (get k c')"
  by (auto simp: is_ok_iff replace_get)

lemma replace_keys:
  assumes r: "replace m c = Some c'"
  shows "is_ok (get k c') \<longleftrightarrow> k \<in> fst ` set m"
proof (cases "map_of m k")
  case None
  with r replace_forgets show ?thesis by (simp add: map_of_eq_None_iff)
next
  case (Some v)
  then have "(k, v) \<in> set m" by (rule map_of_SomeD)
  moreover from r have "\<forall>(k, v) \<in> set m. build v \<noteq> None" using replace_total by blast
  ultimately obtain e where "build v = Some e" by auto
  with r Some have "get k c' = Ok e" by (simp add: replace_get)
  with \<open>(k, v) \<in> set m\<close> show ?thesis by (force simp: is_ok_iff)
qed

end

definition cached_entry :: "nat \<Rightarrow> 'n openapi \<Rightarrow> 'n cached_schema option" where
  "cached_entry frames api =
     map_option (\<lambda>paths. \<lparr>cached_api = api, pii_paths = paths\<rparr>) (resolve_pii_paths frames api)"

text \<open>Every entry holds the PII paths of its own document.\<close>

definition cache_ok :: "'n schema_cache \<Rightarrow> bool" where
  "cache_ok cache \<longleftrightarrow>
     hmap_ok cache \<and>
     (\<forall>(name, e) \<in> set cache. \<exists>frames. resolve_pii_paths frames (cached_api e) = Some (pii_paths e))"

lemma cache_entries_cached:
  "cache_entries frames schemas = Some c \<Longrightarrow>
     list_all2 (\<lambda>(k, v) (k', e). k' = k \<and> cached_entry frames v = Some e) schemas c"
proof (induction schemas arbitrary: c)
  case (Cons x schemas)
  then show ?case by (cases x) (auto simp: cached_entry_def bind_eq_Some_conv)
qed simp

lemma cache_entries_keys: "cache_entries frames schemas = Some c \<Longrightarrow> map fst c = map fst schemas"
  by (drule cache_entries_cached) (induction rule: list_all2_induct, auto)

lemma cache_entries_total:
  "(\<exists>c. cache_entries frames schemas = Some c) \<longleftrightarrow> (\<forall>(k, v) \<in> set schemas. cached_entry frames v \<noteq> None)"
proof (induction schemas)
  case (Cons x schemas)
  then show ?case by (cases x) (auto simp: cached_entry_def bind_eq_Some_conv)
qed simp

lemma cache_entries_lookup:
  "cache_entries frames schemas = Some c \<Longrightarrow>
     map_of c k = Option.bind (map_of schemas k) (cached_entry frames)"
  by (drule cache_entries_cached) (induction rule: list_all2_induct, auto)

lemma cache_entries_ok:
  assumes "hmap_ok schemas" "cache_entries frames schemas = Some c"
  shows "cache_ok c"
proof -
  have "hmap_ok c" using assms by (simp add: hmap_ok_def cache_entries_keys)
  moreover have "\<exists>frames. resolve_pii_paths frames (cached_api e) = Some (pii_paths e)"
    if "(name, e) \<in> set c" for name e
  proof -
    from that \<open>hmap_ok c\<close> have "map_of c name = Some e" by (simp add: hmap_ok_def)
    then show ?thesis
      using assms(2) by (auto simp: cache_entries_lookup cached_entry_def bind_eq_Some_conv)
  qed
  ultimately show ?thesis by (auto simp: cache_ok_def)
qed

interpretation sc: snapshot_cache cache_get cache_len "replace_all frames" "cached_entry frames" cache_ok
  for frames :: nat
proof unfold_locales
  fix m :: "(string, 'n openapi) hmap" and c c' :: "'n schema_cache" and k e
  show "(\<exists>c'. replace_all frames m c = Some c') \<longleftrightarrow> (\<forall>(k, v) \<in> set m. cached_entry frames v \<noteq> None)"
    by (simp only: replace_all_def cache_entries_total)
  show "replace_all frames m c = Some c' \<Longrightarrow>
      cache_get k c' = Ok e \<longleftrightarrow> (\<exists>v. map_of m k = Some v \<and> cached_entry frames v = Some e)"
    by (auto simp: replace_all_def cache_get_def cache_entries_lookup ok_or_Ok_iff bind_eq_Some_conv)
  show "hmap_ok m \<Longrightarrow> replace_all frames m c = Some c' \<Longrightarrow> cache_len c' = length m"
    by (metis replace_all_def cache_len_def cache_entries_keys length_map)
  show "hmap_ok m \<Longrightarrow> replace_all frames m c = Some c' \<Longrightarrow> cache_ok c'"
    by (simp add: replace_all_def cache_entries_ok)
qed

section \<open>What a load puts into the cache\<close>

text \<open>The document that the loader reads for a key, if it can, and the keys that carry a name.\<close>

definition object_api :: "('n, 'x) s3_io_scheme \<Rightarrow> config \<Rightarrow> string \<Rightarrow> 'n openapi option" where
  "object_api io cfg key =
     (case get_object io (s3_bucket cfg) key of
        Ok (Ok body) \<Rightarrow>
          Option.bind (from_utf8 body) (\<lambda>text.
            case parse_yaml io text of Some api \<Rightarrow> Some api | None \<Rightarrow> parse_json io text)
      | _ \<Rightarrow> None)"

definition keys_named :: "config \<Rightarrow> string option list \<Rightarrow> string \<Rightarrow> string list" where
  "keys_named cfg objects name =
     filter (\<lambda>key. schema_name_from_key key (s3_prefix cfg) = name) (List.map_filter id objects)"

lemma load_object_Some_Ok_iff:
  "load_object io cfg (Some key) m = Ok m' \<longleftrightarrow>
     (\<exists>api. object_api io cfg key = Some api \<and>
        m' = AList.update (schema_name_from_key key (s3_prefix cfg)) api m)"
proof (cases "get_object io (s3_bucket cfg) key")
  case (Ok get)
  then show ?thesis
  proof (cases get)
    case (Ok body)
    with \<open>get_object io (s3_bucket cfg) key = Ok get\<close> show ?thesis
      by (cases "from_utf8 body"; cases "parse_yaml io (the (from_utf8 body))";
          cases "parse_json io (the (from_utf8 body))")
        (auto simp: load_object_def object_api_def with_context_def Let_def)
  qed (auto simp: load_object_def object_api_def with_context_def Let_def)
qed (auto simp: load_object_def object_api_def with_context_def Let_def)

lemma load_object_None [simp]: "load_object io cfg None m = Ok m"
  by (simp add: load_object_def)

lemma load_objects:
  assumes "try_fold (load_object io cfg) objects [] = Ok m"
  shows "hmap_ok m \<and>
    map_of m name =
      (if keys_named cfg objects name = [] then None
       else object_api io cfg (last (keys_named cfg objects name)))"
  using assms
proof (induction objects arbitrary: m name rule: rev_induct)
  case Nil
  then show ?case by (simp add: keys_named_def map_filter_simps hmap_ok_def)
next
  case (snoc obj objects)
  then obtain u where u: "try_fold (load_object io cfg) objects [] = Ok u" "load_object io cfg obj u = Ok m"
    by (auto simp: try_fold_append and_then_Ok_iff)
  show ?case
  proof (cases obj)
    case None
    with u snoc.IH [OF u(1)] show ?thesis by (simp add: keys_named_def map_filter_def)
  next
    case (Some key)
    with u(2) obtain api where "object_api io cfg key = Some api"
      "m = AList.update (schema_name_from_key key (s3_prefix cfg)) api u"
      by (auto simp: load_object_Some_Ok_iff)
    with Some snoc.IH [OF u(1)] show ?thesis
      by (auto simp: keys_named_def map_filter_def hmap_simps update_conv')
  qed
qed

lemma load_object_is_ok: "is_ok (load_object io cfg (Some key) m) \<longleftrightarrow> object_api io cfg key \<noteq> None"
  by (auto simp: is_ok_iff load_object_Some_Ok_iff)

lemma load_objects_Ok_iff:
  "is_ok (try_fold (load_object io cfg) objects m) \<longleftrightarrow>
     (\<forall>key. Some key \<in> set objects \<longrightarrow> object_api io cfg key \<noteq> None)"
proof (induction objects arbitrary: m)
  case (Cons obj objects)
  show ?case
  proof (cases obj)
    case (Some key)
    have "is_ok (try_fold (load_object io cfg) (obj # objects) m) \<longleftrightarrow>
        is_ok (load_object io cfg (Some key) m) \<and>
        (\<forall>key. Some key \<in> set objects \<longrightarrow> object_api io cfg key \<noteq> None)"
      by (simp add: Some is_ok_and_then Cons.IH) (simp add: is_ok_iff)
    then show ?thesis by (auto simp: Some load_object_is_ok)
  qed (simp add: Cons.IH)
qed (simp add: is_ok_iff)

lemma load_all_Ok_iff:
  "load_all frames io cfg c = Some (c', Ok ()) \<longleftrightarrow>
     (\<exists>objects m. list_objects_v2 io (s3_bucket cfg) (s3_prefix cfg) = Ok objects \<and>
        try_fold (load_object io cfg) objects [] = Ok m \<and> replace_all frames m c = Some c')"
proof (cases "list_objects_v2 io (s3_bucket cfg) (s3_prefix cfg)")
  case (Ok objects)
  then show ?thesis
    by (cases "try_fold (load_object io cfg) objects []") (auto simp: load_all_def with_context_def)
qed (auto simp: load_all_def with_context_def)

lemma load_all_failed:
  "load_all frames io cfg c = Some (c', r) \<Longrightarrow> r \<noteq> Ok () \<Longrightarrow> c' = c"
  by (auto simp: load_all_def split: result.splits)

lemma load_all_cache_ok: "cache_ok c \<Longrightarrow> load_all frames io cfg c = Some (c', r) \<Longrightarrow> cache_ok c'"
proof (cases "r = Ok ()")
  case True
  assume "load_all frames io cfg c = Some (c', r)"
  with True obtain objects m where "try_fold (load_object io cfg) objects [] = Ok m"
    "replace_all frames m c = Some c'" by (auto simp: load_all_Ok_iff)
  then show ?thesis using load_objects sc.replace_invar by blast
qed (auto dest: load_all_failed)

lemma refresh_tick_cache_ok: "cache_ok c \<Longrightarrow> refresh_tick frames cfg io c = Some c' \<Longrightarrow> cache_ok c'"
  using load_all_cache_ok by (fastforce simp: refresh_tick_def)

lemma cache_ok_pii_paths:
  assumes "cache_ok c" "cache_get name c = Ok e"
  shows "pii_paths e = render '''' ` api_pii (cached_api e)"
proof -
  from assms(2) have "(name, e) \<in> set c" by (auto simp: cache_get_def ok_or_Ok_iff dest: map_of_SomeD)
  with assms(1) obtain frames where "resolve_pii_paths frames (cached_api e) = Some (pii_paths e)"
    by (auto simp: cache_ok_def)
  then show ?thesis by (rule resolve_pii_paths_exact)
qed

lemma load_all_contents:
  assumes "list_objects_v2 io (s3_bucket cfg) (s3_prefix cfg) = Ok objects"
    and "load_all frames io cfg c = Some (c', Ok ())"
  shows "cache_ok c' \<and>
    (\<forall>name e. cache_get name c' = Ok e \<longleftrightarrow>
       keys_named cfg objects name \<noteq> [] \<and>
       object_api io cfg (last (keys_named cfg objects name)) = Some (cached_api e) \<and>
       pii_paths e = render '''' ` api_pii (cached_api e))"
proof -
  from assms obtain m where m: "try_fold (load_object io cfg) objects [] = Ok m"
    and c': "replace_all frames m c = Some c'" by (auto simp: load_all_Ok_iff)
  have ok: "cache_ok c'" using load_objects [OF m] sc.replace_invar c' by blast
  have lookup: "map_of m name =
      (if keys_named cfg objects name = [] then None
       else object_api io cfg (last (keys_named cfg objects name)))" for name
    using load_objects [OF m] by blast
  have total: "cached_entry frames v \<noteq> None" if "map_of m name = Some v" for name v
    using sc.replace_total c' map_of_SomeD [OF that] by blast
  have cached: "cached_entry frames v = Some e \<longleftrightarrow> v = cached_api e \<and> pii_paths e = render '''' ` api_pii v"
    if "map_of m name = Some v" for name v and e :: "'a cached_schema"
    using total [OF that] resolve_pii_paths_exact [of frames v]
    by (cases e) (auto simp: cached_entry_def)
  have "cache_get name c' = Ok e \<longleftrightarrow> map_of m name = Some (cached_api e) \<and>
      pii_paths e = render '''' ` api_pii (cached_api e)" for name e
  proof (cases "map_of m name")
    case (Some v)
    then show ?thesis using cached [OF Some, of e] sc.replace_get [OF c', of name e] by auto
  qed (simp add: sc.replace_get [OF c'])
  with ok lookup show ?thesis by (simp split: if_splits)
qed

lemma load_all_outcome:
  assumes "load_all frames io cfg c = Some (c', r)"
  shows "(r \<noteq> Ok () \<longrightarrow> c' = c) \<and>
    (r = Ok () \<longleftrightarrow>
      (\<exists>objects. list_objects_v2 io (s3_bucket cfg) (s3_prefix cfg) = Ok objects \<and>
         (\<forall>key. Some key \<in> set objects \<longrightarrow> object_api io cfg key \<noteq> None)))"
proof
  show "r \<noteq> Ok () \<longrightarrow> c' = c" using assms load_all_failed by blast
  show "r = Ok () \<longleftrightarrow> (\<exists>objects. list_objects_v2 io (s3_bucket cfg) (s3_prefix cfg) = Ok objects \<and>
         (\<forall>key. Some key \<in> set objects \<longrightarrow> object_api io cfg key \<noteq> None))"
  proof (cases "list_objects_v2 io (s3_bucket cfg) (s3_prefix cfg)")
    case (Ok objects)
    with assms show ?thesis
      using load_objects_Ok_iff [of io cfg objects "[]"]
      by (cases "try_fold (load_object io cfg) objects []")
        (auto simp: load_all_def with_context_def is_ok_iff)
  qed (use assms in \<open>auto simp: load_all_def with_context_def\<close>)
qed

section \<open>Properties\<close>

text \<open>Two objects in the bucket, one of them without a key; the parsers know one document.\<close>

definition sample_s3 :: "int s3_io" where
  "sample_s3 =
     \<lparr>list_objects_v2 = (\<lambda>_ _. Ok [Some ''schemas/users.yaml'', None]),
      get_object = (\<lambda>_ key. if key = ''schemas/users.yaml'' then Ok (Ok (as_bytes ''doc'')) else Err [''no such key'']),
      parse_yaml = (\<lambda>text. if text = ''doc'' then Some sample_api else None),
      parse_json = (\<lambda>_. None)\<rparr>"

lemma sample_text_valid: "valid_str ''doc''"
  by code_simp

text \<open>
  C29. A successful \<open>load_all\<close> makes the cache a snapshot of the listed objects: a name is found
  exactly when a listed key carries it, its document is that of the last such key, its PII paths
  are exactly the marked paths of that document, and nothing of the old cache is left.
\<close>

theorem load_all_snapshot:
  assumes "list_objects_v2 io (s3_bucket cfg) (s3_prefix cfg) = Ok objects"
    and "load_all frames io cfg c = Some (c', Ok ())"
  shows "cache_ok c' \<and>
    (\<forall>name e. cache_get name c' = Ok e \<longleftrightarrow>
       keys_named cfg objects name \<noteq> [] \<and>
       object_api io cfg (last (keys_named cfg objects name)) = Some (cached_api e) \<and>
       pii_paths e = render '''' ` api_pii (cached_api e))"
  using assms by (rule load_all_contents)

theorem load_all_snapshot_witness:
  "\<exists>c'. load_all 10 sample_s3 sample_config [] = Some (c', Ok ()) \<and>
     (\<exists>e. cache_get ''users'' c' = Ok e \<and> cached_api e = sample_api) \<and>
     \<not> is_ok (cache_get ''schemas/users.yaml'' c')"
proof -
  define c' where "c' = the (map_option fst (load_all 10 sample_s3 sample_config []))"
  have load: "load_all 10 sample_s3 sample_config [] = Some (c', Ok ())"
    unfolding c'_def by code_simp
  have keys: "keys_named sample_config [Some ''schemas/users.yaml'', None] ''users'' = [''schemas/users.yaml'']"
    "keys_named sample_config [Some ''schemas/users.yaml'', None] ''schemas/users.yaml'' = []"
    by code_simp+
  have api: "object_api sample_s3 sample_config ''schemas/users.yaml'' = Some sample_api"
    by (simp add: object_api_def sample_s3_def from_utf8_as_bytes sample_text_valid)
  have list: "list_objects_v2 sample_s3 b p = Ok [Some ''schemas/users.yaml'', None]" for b p
    by (simp add: sample_s3_def)
  show ?thesis
    using load_all_snapshot [of sample_s3 sample_config "[Some ''schemas/users.yaml'', None]" 10 "[]" c']
    by (simp add: load keys api list is_ok_iff) (metis cached_schema.select_convs)
qed

text \<open>
  C33. A failed load changes nothing, and a load fails only because of the listing or of an
  object that cannot be fetched, read or parsed: then the previous cache is retained whole.
\<close>

theorem load_all_all_or_nothing:
  assumes "load_all frames io cfg c = Some (c', r)"
  shows "(r \<noteq> Ok () \<longrightarrow> c' = c) \<and>
    (r = Ok () \<longleftrightarrow>
      (\<exists>objects. list_objects_v2 io (s3_bucket cfg) (s3_prefix cfg) = Ok objects \<and>
         (\<forall>key. Some key \<in> set objects \<longrightarrow> object_api io cfg key \<noteq> None)))"
  using assms by (rule load_all_outcome)

theorem load_all_all_or_nothing_witness:
  "\<exists>e. load_all 10 (sample_s3\<lparr>parse_yaml := \<lambda>_. None\<rparr>) sample_config
      [(''old'', \<lparr>cached_api = sample_api, pii_paths = {}\<rparr>)] =
    Some ([(''old'', \<lparr>cached_api = sample_api, pii_paths = {}\<rparr>)], Err e)"
proof -
  let ?io = "sample_s3\<lparr>parse_yaml := \<lambda>_. None\<rparr>"
  let ?c = "[(''old'', \<lparr>cached_api = sample_api, pii_paths = {}\<rparr>)] :: int schema_cache"
  have "\<exists>c' e. load_all 10 ?io sample_config ?c = Some (c', Err e)"
    by (simp add: load_all_def sample_s3_def with_context_def load_object_def Let_def
        from_utf8_as_bytes sample_text_valid)
  then show ?thesis using load_all_all_or_nothing by blast
qed

lemma extensions_differ:
  "strip_suffix (name @ ''.yml'') ''.yaml'' = None"
  "strip_suffix (name @ ''.json'') ''.yaml'' = None"
  "strip_suffix (name @ ''.json'') ''.yml'' = None"
  by (auto simp: strip_suffix_None_iff dest: arg_cong [where f = rev])

text \<open>
  A schema is known by its file name: \<open>schema_name_from_key\<close> of the prefix, a name and one of
  the three extensions is the name.
\<close>

lemma schema_name_round_trip:
  assumes "ext \<in> {''.yaml'', ''.yml'', ''.json''}"
  shows "schema_name_from_key (pre @ name @ ext) pre = name"
  using assms
  by (auto simp: schema_name_from_key_def strip_prefix_def starts_with_iff Let_def extensions_differ)

end
