(* ===== verification/Handlers.thy ===== *)
theory Handlers
  imports Dek Schema_Cache "HOL-Library.List_Lexorder" "HOL-Library.Char_ord"
begin

text \<open>
  The request handlers and the application state they share
  (\<open>src/crates/enclave/src/server/handlers.rs\<close> and \<open>state.rs\<close>). A handler gives the
  measurements it records, in order, and its response; no response means that the task
  panicked. The \<open>http\<close> crate's header map is the record \<open>http\<close>; the iteration order of the
  hash set of PII paths is the argument \<open>iter\<close>; \<open>elapsed\<close> is what the clock says. A handler
  reads the schema cache once and the key store once, in this order, so the state it is given
  is the cache at the first read with the key store at the second.
\<close>

section \<open>State, requests and responses\<close>

record 'n app_state =
  dek_store :: dek_store
  schema_cache :: "'n schema_cache"
  schema_header_name :: string
  app_metrics :: metrics

definition app_state_new ::
  "dek_store \<Rightarrow> 'n schema_cache \<Rightarrow> string \<Rightarrow> metrics \<Rightarrow> 'n app_state" where
  "app_state_new d c header m =
     \<lparr>dek_store = d, schema_cache = c, schema_header_name = header, app_metrics = m\<rparr>"

definition app_state_default :: "'n app_state" where
  "app_state_default =
     app_state_new dek_store_new schema_cache_new ''X-Schema-Name'' metrics_new"

record ('h, 'v) http =
  header_get :: "'h \<Rightarrow> string \<Rightarrow> 'v option"
  to_str :: "'v \<Rightarrow> string option"

datatype 'n body =
    EncryptBody "'n encrypt_response"
  | DecryptBody "'n decrypt_response"
  | HealthBody health_response
  | ErrorBody error_response

type_synonym 'n response = "u16 \<times> 'n body"

section \<open>The handlers\<close>

text \<open>The first step of \<open>encrypt\<close> and of \<open>decrypt\<close>: the schema name from the configured header.\<close>

definition schema_name ::
  "('h, 'v, 'y) http_scheme \<Rightarrow> 'n app_state \<Rightarrow> 'h \<Rightarrow> (string, u16 \<times> error_response) result" where
  "schema_name http s headers =
     (case header_get http headers (schema_header_name s) of
        Some v \<Rightarrow>
          (case to_str http v of
             Some name \<Rightarrow> Ok name
           | None \<Rightarrow> Err (400, error_response_new ''bad_request''
               (schema_header_name s @ '' header contains non-ASCII characters'')))
      | None \<Rightarrow> Err (400, error_response_new ''bad_request''
          (''missing '' @ schema_header_name s @ '' header'')))"

text \<open>The schema and the key of a request, with the early returns.\<close>

definition schema_and_dek ::
  "('h, 'v, 'y) http_scheme \<Rightarrow> 'n app_state \<Rightarrow> 'h \<Rightarrow>
     ('n cached_schema \<times> u8 list, u16 \<times> error_response) result" where
  "schema_and_dek http s headers =
     and_then (schema_name http s headers) (\<lambda>name.
     and_then (map_err (\<lambda>_. (400, error_response_new ''bad_request'' (''unknown schema: '' @ name)))
       (cache_get name (schema_cache s))) (\<lambda>cached.
     and_then (map_err (\<lambda>_. (503, error_response_new ''service_unavailable''
         ''DEK not yet initialised''))
       (current (dek_store s))) (\<lambda>dek. Ok (cached, dek))))"

definition encrypt ::
  "('c, 'x) crypto_scheme \<Rightarrow> ('h, 'v, 'y) http_scheme \<Rightarrow> (string set \<Rightarrow> string list) \<Rightarrow> 't \<Rightarrow>
     'n app_state \<Rightarrow> 'h \<Rightarrow> 'n encrypt_request \<Rightarrow> 't measurement list \<times> 'n response option" where
  "encrypt P http iter elapsed s headers req =
     (let m = app_metrics s;
          recorded = (\<lambda>attrs. [Add (encrypt_requests m) 1 attrs,
                               Record (encrypt_latency_ms m) elapsed attrs])
      in case and_then (schema_and_dek http s headers) (\<lambda>(cached, dek).
                map_err (\<lambda>_. (500, error_response_new ''internal_error'' ''encryption failed''))
                  (encrypt_pii_fields P (iter (pii_paths cached)) dek (encrypt_request_payload req))) of
           Ok payload \<Rightarrow>
             (recorded success_attrs, Some (200, EncryptBody \<lparr>encrypt_response_payload = payload\<rparr>))
         | Err (status, err) \<Rightarrow> (recorded error_attrs, Some (status, ErrorBody err))
         | Panic \<Rightarrow> ([], None))"

definition health :: "'n app_state \<Rightarrow> 'n response" where
  "health s =
     (let ready = is_ready (dek_store s);
          loaded = cache_len (schema_cache s);
          (status_code, status_str) =
            (if ready \<and> loaded > 0 then (200, ''ok'') else (503, ''degraded''))
      in (status_code, HealthBody \<lparr>health_status = status_str, health_dek_ready = ready,
            health_schemas_loaded = loaded\<rparr>))"

definition decrypt ::
  "('c, 'x) crypto_scheme \<Rightarrow> ('h, 'v, 'y) http_scheme \<Rightarrow> (string set \<Rightarrow> string list) \<Rightarrow> 't \<Rightarrow>
     'n app_state \<Rightarrow> 'h \<Rightarrow> 'n decrypt_request \<Rightarrow> 't measurement list \<times> 'n response option" where
  "decrypt P http iter elapsed s headers req =
     (let m = app_metrics s;
          recorded = (\<lambda>attrs. [Add (decrypt_requests m) 1 attrs,
                               Record (decrypt_latency_ms m) elapsed attrs])
      in case and_then (schema_and_dek http s headers) (\<lambda>(cached, dek).
                map_err (\<lambda>_. (500, error_response_new ''internal_error'' ''decryption failed''))
                  (decrypt_pii_fields P (iter (pii_paths cached)) dek (decrypt_request_payload req))) of
           Ok payload \<Rightarrow>
             (recorded success_attrs, Some (200, DecryptBody \<lparr>decrypt_response_payload = payload\<rparr>))
         | Err (status, err) \<Rightarrow> (recorded error_attrs, Some (status, ErrorBody err))
         | Panic \<Rightarrow> ([], None))"

definition not_found :: "'n response" where
  "not_found = (404, ErrorBody (error_response_new ''not_found'' ''the requested resource does not exist''))"

section \<open>What the handlers rely on\<close>

text \<open>A hash set's iterator gives every element once, in some order.\<close>

definition iter_ok :: "(string set \<Rightarrow> string list) \<Rightarrow> bool" where
  "iter_ok iter \<longleftrightarrow> (\<forall>S. finite S \<longrightarrow> distinct (iter S) \<and> set (iter S) = S)"

definition app_ok :: "'n app_state \<Rightarrow> bool" where
  "app_ok s \<longleftrightarrow> dek_store_ok (dek_store s) \<and> cache_ok (schema_cache s)"

lemma app_state_default_ok: "app_ok app_state_default"
  by (simp add: app_ok_def app_state_default_def app_state_new_def dek.invar_empty
      cache_ok_def schema_cache_new_def hmap_ok_def)

section \<open>Lemmas on the handlers\<close>

lemma schema_and_dek_Ok_iff:
  "schema_and_dek http s headers = Ok (cached, dek) \<longleftrightarrow>
     (\<exists>v name. header_get http headers (schema_header_name s) = Some v \<and> to_str http v = Some name \<and>
        cache_get name (schema_cache s) = Ok cached \<and> current (dek_store s) = Ok dek)"
  by (auto simp: schema_and_dek_def schema_name_def result_simps split: option.splits)

lemma schema_and_dek_not_Panic: "schema_and_dek http s headers \<noteq> Panic"
  by (auto simp: schema_and_dek_def schema_name_def cache_get_def current_def result_simps
      split: option.splits)

lemma schema_and_dek_status:
  "schema_and_dek http s headers = Err (status, err) \<Longrightarrow> status = 400 \<or> status = 503"
  by (auto simp: schema_and_dek_def schema_name_def cache_get_def current_def err_simps
      split: option.splits)

lemma schema_and_dek_app_ok:
  assumes "app_ok s" "schema_and_dek http s headers = Ok (cached, dek)"
  shows "length dek = KEY_LEN" and "finite (pii_paths cached)"
    and "pii_paths cached = render '''' ` api_pii (cached_api cached)"
proof -
  from assms obtain name where c: "cache_get name (schema_cache s) = Ok cached"
    and d: "current (dek_store s) = Ok dek" by (auto simp: schema_and_dek_Ok_iff)
  from assms(1) have ok: "dek_store_ok (dek_store s)" "cache_ok (schema_cache s)"
    by (simp_all add: app_ok_def)
  show "length dek = KEY_LEN" using dek.invar_valid [OF ok(1) d] .
  show "pii_paths cached = render '''' ` api_pii (cached_api cached)"
    using cache_ok_pii_paths [OF ok(2) c] .
  from c have "(name, cached) \<in> set (schema_cache s)"
    by (auto simp: cache_get_def ok_or_Ok_iff dest: map_of_SomeD)
  with ok(2) show "finite (pii_paths cached)"
    by (auto simp: cache_ok_def intro: resolve_pii_paths_finite)
qed

text \<open>The payload with every string at one of the paths put through \<open>f\<close>.\<close>

definition at_paths :: "string set \<Rightarrow> (string \<Rightarrow> (string, 'e) result) \<Rightarrow> 'n json \<Rightarrow> 'n json" where
  "at_paths paths f v =
     map_strings (\<lambda>p x. if p \<in> parse_path ` paths then unwrap_or (f x) x else x) v"

definition all_at_paths :: "string set \<Rightarrow> (string \<Rightarrow> (string, 'e) result) \<Rightarrow> 'n json \<Rightarrow> bool" where
  "all_at_paths paths f v \<longleftrightarrow> (\<forall>(p, x) \<in> set (leaves v). p \<in> parse_path ` paths \<longrightarrow> is_ok (f x))"

lemma iter_fields:
  assumes "iter_ok iter" "finite paths" "keys_ok v"
  shows "encrypt_pii_fields P (iter paths) dek v = Ok w \<longleftrightarrow>
      all_at_paths paths (encrypt_leaf P dek) v \<and> w = at_paths paths (encrypt_leaf P dek) v"
    and "decrypt_pii_fields P (iter paths) dek v = Ok w \<longleftrightarrow>
      all_at_paths paths (decrypt_leaf P dek) v \<and> w = at_paths paths (decrypt_leaf P dek) v"
proof -
  have "distinct (iter paths)" "set (iter paths) = paths"
    using assms by (auto simp: iter_ok_def)
  with assms(3) show
    "encrypt_pii_fields P (iter paths) dek v = Ok w \<longleftrightarrow>
      all_at_paths paths (encrypt_leaf P dek) v \<and> w = at_paths paths (encrypt_leaf P dek) v"
    "decrypt_pii_fields P (iter paths) dek v = Ok w \<longleftrightarrow>
      all_at_paths paths (decrypt_leaf P dek) v \<and> w = at_paths paths (decrypt_leaf P dek) v"
    unfolding all_at_paths_def at_paths_def
    by (auto simp: encrypt_pii_fields_Ok_iff decrypt_pii_fields_Ok_iff)
qed

lemma encrypt_200_iff:
  "encrypt P http iter t s headers req = (log, Some (200, EncryptBody r)) \<longleftrightarrow>
     (\<exists>cached dek. schema_and_dek http s headers = Ok (cached, dek) \<and>
        encrypt_pii_fields P (iter (pii_paths cached)) dek (encrypt_request_payload req) =
          Ok (encrypt_response_payload r)) \<and>
     log = [Add (encrypt_requests (app_metrics s)) 1 success_attrs,
            Record (encrypt_latency_ms (app_metrics s)) t success_attrs]"
proof (cases "schema_and_dek http s headers")
  case (Ok cd)
  then show ?thesis
    by (cases cd; cases r;
        cases "encrypt_pii_fields P (iter (pii_paths (fst cd))) (snd cd) (encrypt_request_payload req)")
      (auto simp: encrypt_def Let_def)
qed (auto simp: encrypt_def Let_def)

lemma decrypt_200_iff:
  "decrypt P http iter t s headers req = (log, Some (200, DecryptBody r)) \<longleftrightarrow>
     (\<exists>cached dek. schema_and_dek http s headers = Ok (cached, dek) \<and>
        decrypt_pii_fields P (iter (pii_paths cached)) dek (decrypt_request_payload req) =
          Ok (decrypt_response_payload r)) \<and>
     log = [Add (decrypt_requests (app_metrics s)) 1 success_attrs,
            Record (decrypt_latency_ms (app_metrics s)) t success_attrs]"
proof (cases "schema_and_dek http s headers")
  case (Ok cd)
  then show ?thesis
    by (cases cd; cases r;
        cases "decrypt_pii_fields P (iter (pii_paths (fst cd))) (snd cd) (decrypt_request_payload req)")
      (auto simp: decrypt_def Let_def)
qed (auto simp: decrypt_def Let_def)

lemma encrypt_Ok_payload:
  assumes "iter_ok iter" "app_ok s" "keys_ok (encrypt_request_payload req)"
    and "schema_and_dek http s headers = Ok (cached, dek)"
    and "encrypt P http iter t s headers req = (log, Some (200, EncryptBody r))"
  shows "all_at_paths (pii_paths cached) (encrypt_leaf P dek) (encrypt_request_payload req)"
    and "encrypt_response_payload r =
      at_paths (pii_paths cached) (encrypt_leaf P dek) (encrypt_request_payload req)"
proof -
  have "encrypt_pii_fields P (iter (pii_paths cached)) dek (encrypt_request_payload req) =
      Ok (encrypt_response_payload r)"
    using assms(4,5) by (auto simp: encrypt_200_iff)
  then show "all_at_paths (pii_paths cached) (encrypt_leaf P dek) (encrypt_request_payload req)"
    "encrypt_response_payload r =
      at_paths (pii_paths cached) (encrypt_leaf P dek) (encrypt_request_payload req)"
    using iter_fields(1) [OF assms(1) schema_and_dek_app_ok(2) [OF assms(2,4)] assms(3)] by blast+
qed

lemma leaves_at_paths:
  "(p, x) \<in> set (leaves (at_paths paths f v)) \<longleftrightarrow>
     (\<exists>y. (p, y) \<in> set (leaves v) \<and>
        x = (if p \<in> parse_path ` paths then unwrap_or (f y) y else y))"
  by (simp add: at_paths_def leaves_map_strings_iff)

lemma pii_path_parsed:
  assumes "app_ok s" "schema_and_dek http s headers = Ok (cached, dek)"
    and "p \<in> api_pii (cached_api cached)" "readable p"
  shows "p \<in> parse_path ` pii_paths cached"
proof -
  have "parse_path (render '''' p) = p" using assms(3,4) by (simp add: parse_path_render api_pii_not_Nil)
  then show ?thesis using assms(3) schema_and_dek_app_ok(3) [OF assms(1,2)] by force
qed

lemma encrypt_not_Panic: "hmac_ok P \<Longrightarrow> snd (encrypt P http iter t s headers req) \<noteq> None"
  by (auto simp: encrypt_def Let_def and_then_Panic_iff map_err_Panic_iff schema_and_dek_not_Panic
      encrypt_pii_fields_not_Panic split: result.splits)

lemma decrypt_not_Panic: "snd (decrypt P http iter t s headers req) \<noteq> None"
  by (auto simp: decrypt_def Let_def and_then_Panic_iff map_err_Panic_iff schema_and_dek_not_Panic
      decrypt_pii_fields_not_Panic split: result.splits)

lemma encrypt_failure:
  assumes "encrypt P http iter t s headers req = (log, Some (status, body))" "status \<noteq> 200"
  shows "log = [Add (encrypt_requests (app_metrics s)) 1 error_attrs,
      Record (encrypt_latency_ms (app_metrics s)) t error_attrs] \<and>
    (\<exists>err. body = ErrorBody err \<and>
      (schema_and_dek http s headers = Err (status, err) \<or>
       status = 500 \<and> err = error_response_new ''internal_error'' ''encryption failed''))"
  using assms by (auto simp: encrypt_def Let_def err_simps split: result.splits prod.splits)

lemma decrypt_failure:
  assumes "decrypt P http iter t s headers req = (log, Some (status, body))" "status \<noteq> 200"
  shows "log = [Add (decrypt_requests (app_metrics s)) 1 error_attrs,
      Record (decrypt_latency_ms (app_metrics s)) t error_attrs] \<and>
    (\<exists>err. body = ErrorBody err \<and>
      (schema_and_dek http s headers = Err (status, err) \<or>
       status = 500 \<and> err = error_response_new ''internal_error'' ''decryption failed''))"
  using assms by (auto simp: decrypt_def Let_def err_simps split: result.splits prod.splits)

section \<open>A sample state\<close>

text \<open>One schema and a key; headers are an association list of strings.\<close>

definition sample_http :: "((string \<times> string) list, string) http" where
  "sample_http = \<lparr>header_get = map_of, to_str = Some\<rparr>"

definition sample_headers :: "(string \<times> string) list" where
  "sample_headers = [(''X-Schema-Name'', ''users'')]"

definition state_for :: "int openapi \<Rightarrow> string set \<Rightarrow> int app_state" where
  "state_for api paths =
     app_state_new (fst (store sample_dek dek_store_new))
       [(''users'', \<lparr>cached_api = api, pii_paths = paths\<rparr>)] ''X-Schema-Name'' metrics_new"

definition sample_state :: "int app_state" where
  "sample_state = state_for sample_api {''ssn'', ''homes[].street'', ''street''}"

definition user_payload :: "int json" where
  "user_payload =
     JObject [(''ssn'', JString ''123''), (''note'', JString ''hi''),
              (''homes'', JArray [JObject [(''street'', JString ''Elm'')]])]"

definition grid_api :: "int openapi" where
  "grid_api = \<lparr>components = Some [(''Grid'', Item (Schema [] (TypeObject
     [(''grid'', Item (Schema [] (TypeArray (Some (Item (Schema [] (TypeArray (Some (Item pii_schema)))))))))])))]\<rparr>"

lemma sorted_iter_ok: "iter_ok sorted_list_of_set"
  by (simp add: iter_ok_def)

lemma state_for_ok: "resolve_pii_paths n api = Some paths \<Longrightarrow> app_ok (state_for api paths)"
  by (auto simp: app_ok_def state_for_def app_state_new_def cache_ok_def hmap_ok_def
      dek.invar_put dek.invar_empty)

lemma state_for_lookup:
  "schema_and_dek sample_http (state_for api paths) sample_headers =
     Ok (\<lparr>cached_api = api, pii_paths = paths\<rparr>, sample_dek)"
  using dek.put_valid [OF sample_dek_length, of dek_store_new]
  by (simp add: schema_and_dek_Ok_iff sample_http_def sample_headers_def state_for_def
      app_state_new_def cache_get_def)

lemmas sample_state_ok = state_for_ok [OF sample_api_paths, folded sample_state_def]
lemmas sample_state_lookup =
  state_for_lookup [of sample_api "{''ssn'', ''homes[].street'', ''street''}", folded sample_state_def]

lemma sample_encrypts:
  assumes "finite paths" "keys_ok v" "\<forall>(p, x) \<in> set (leaves v). length x \<le> 2 ^ 36"
  shows "encrypt sample_crypto sample_http sorted_list_of_set (0 :: nat) (state_for api paths)
      sample_headers \<lparr>encrypt_request_payload = v\<rparr> =
    ([Add (encrypt_requests metrics_new) 1 success_attrs,
      Record (encrypt_latency_ms metrics_new) 0 success_attrs],
     Some (200, EncryptBody
       \<lparr>encrypt_response_payload = at_paths paths (encrypt_leaf sample_crypto sample_dek) v\<rparr>))"
proof -
  have "all_at_paths paths (encrypt_leaf sample_crypto sample_dek) v"
    using assms(3) encrypt_leaf_Ok [OF sample_crypto_ok sample_dek_length]
    by (auto simp: all_at_paths_def)
  then have "encrypt_pii_fields sample_crypto (sorted_list_of_set paths) sample_dek v =
      Ok (at_paths paths (encrypt_leaf sample_crypto sample_dek) v)"
    using iter_fields(1) [OF sorted_iter_ok assms(1,2)] by blast
  then show ?thesis
    unfolding encrypt_200_iff by (simp add: state_for_lookup) (simp add: state_for_def app_state_new_def)
qed

lemma grid_api_paths: "resolve_pii_paths 10 grid_api = Some {''grid[][]''}"
  by code_simp

lemma user_payload_wf: "wf_json user_payload"
  by (simp add: user_payload_def hmap_ok_def) code_simp

lemma user_payload_short: "\<forall>(p, x) \<in> set (leaves user_payload). length x \<le> 2 ^ 36"
  by (simp add: user_payload_def)

lemma sample_state_encrypts:
  "encrypt sample_crypto sample_http sorted_list_of_set (0 :: nat) sample_state sample_headers
      \<lparr>encrypt_request_payload = user_payload\<rparr> =
    ([Add (encrypt_requests metrics_new) 1 success_attrs,
      Record (encrypt_latency_ms metrics_new) 0 success_attrs],
     Some (200, EncryptBody \<lparr>encrypt_response_payload =
       at_paths {''ssn'', ''homes[].street'', ''street''} (encrypt_leaf sample_crypto sample_dek) user_payload\<rparr>))"
  unfolding sample_state_def
  by (rule sample_encrypts [OF _ wf_json_keys_ok [OF user_payload_wf] user_payload_short]) simp_all

lemma encrypt_200_leaf:
  assumes "crypto_ok P" "iter_ok iter" "app_ok s" "wf_json (encrypt_request_payload req)"
    and "schema_and_dek http s headers = Ok (cached, dek)"
    and "encrypt P http iter t s headers req = (log, Some (200, EncryptBody r))"
    and "p \<in> api_pii (cached_api cached)" "readable p"
    and "(p, x) \<in> set (leaves (encrypt_response_payload r))"
  shows "starts_with x ''v1.'' \<and>
    (\<exists>y. (p, y) \<in> set (leaves (encrypt_request_payload req)) \<and>
         encrypt_leaf P dek y = Ok x \<and> decrypt_leaf P dek x = Ok y)"
proof -
  note payload = encrypt_Ok_payload [OF assms(2,3) wf_json_keys_ok [OF assms(4)] assms(5,6)]
  have p: "p \<in> parse_path ` pii_paths cached" by (rule pii_path_parsed [OF assms(3,5,7,8)])
  with assms(9) obtain y where y: "(p, y) \<in> set (leaves (encrypt_request_payload req))"
    and x: "x = unwrap_or (encrypt_leaf P dek y) y"
    by (auto simp: payload(2) leaves_at_paths)
  with payload(1) p obtain z where "encrypt_leaf P dek y = Ok z"
    by (auto simp: all_at_paths_def is_ok_iff)
  with x have token: "encrypt_leaf P dek y = Ok x" by simp
  moreover have "valid_str y" using assms(4) y by (rule wf_json_leaves)
  ultimately show ?thesis
    using y encrypt_leaf_token(1) [OF assms(1)] decrypt_encrypt_leaf [OF assms(1)] by blast
qed

section \<open>Properties\<close>

text \<open>
  C1. No PII leaves in the clear: in a \<open>200\<close> answer of \<open>POST /encrypt\<close>, every string at a path
  that the document of the request's schema marks \<open>x-pii: true\<close> is a \<open>v1.\<close> token, and it is the
  token of the string that the request had at that path, from which \<open>decrypt\<close> recovers it. The
  path is one that the dot notation can carry (see \<open>parse_path_inverts_resolver\<close>).
\<close>

theorem encrypt_protects_pii:
  assumes "crypto_ok P" "iter_ok iter" "app_ok s" "wf_json (encrypt_request_payload req)"
    and "schema_and_dek http s headers = Ok (cached, dek)"
    and "encrypt P http iter t s headers req = (log, Some (200, EncryptBody r))"
    and "p \<in> api_pii (cached_api cached)" "readable p"
    and "(p, x) \<in> set (leaves (encrypt_response_payload r))"
  shows "starts_with x ''v1.'' \<and>
    (\<exists>y. (p, y) \<in> set (leaves (encrypt_request_payload req)) \<and>
         encrypt_leaf P dek y = Ok x \<and> decrypt_leaf P dek x = Ok y)"
  using encrypt_200_leaf [OF assms] .

theorem encrypt_protects_pii_witness:
  "\<exists>log r x. encrypt sample_crypto sample_http sorted_list_of_set (0 :: nat) sample_state
       sample_headers \<lparr>encrypt_request_payload = user_payload\<rparr> = (log, Some (200, EncryptBody r)) \<and>
     ([Key ''ssn''], x) \<in> set (leaves (encrypt_response_payload r)) \<and>
     starts_with x ''v1.'' \<and> decrypt_leaf sample_crypto sample_dek x = Ok ''123''"
proof -
  let ?r = "at_paths {''ssn'', ''homes[].street'', ''street''} (encrypt_leaf sample_crypto sample_dek) user_payload"
  note run = sample_state_encrypts
  have "pii_at sample_api user_schema [Key ''ssn'']"
    by (rule pii_at.here [of _ pii_schema])
      (simp_all add: sub_schemas_def user_schema_def resolve_item_def map_filter_simps is_pii_def pii_schema_def)
  then have pii: "[Key ''ssn''] \<in> api_pii sample_api"
    by (rule api_piiI [of _ _ "''User''", rotated 2]) (simp add: sample_api_def, simp)
  have only: "(([Key ''ssn''], y) \<in> set (leaves user_payload)) \<longleftrightarrow> y = ''123''" for y
    by (auto simp: user_payload_def)
  then obtain x where x: "([Key ''ssn''], x) \<in> set (leaves ?r)"
    unfolding leaves_at_paths by simp
  have "starts_with x ''v1.'' \<and>
    (\<exists>y. ([Key ''ssn''], y) \<in> set (leaves user_payload) \<and>
       encrypt_leaf sample_crypto sample_dek y = Ok x \<and> decrypt_leaf sample_crypto sample_dek x = Ok y)"
    using encrypt_protects_pii [OF sample_crypto_ok sorted_iter_ok sample_state_ok _ sample_state_lookup run,
        of "[Key ''ssn'']" x] x pii user_payload_wf
    by (simp add: plain_name_def strip_suffix_def)
  then have "starts_with x ''v1.'' \<and> decrypt_leaf sample_crypto sample_dek x = Ok ''123''"
    by (simp add: only)
  with run x show ?thesis by (metis encrypt_response.select_convs(1))
qed

text \<open>
  C3. What \<open>POST /encrypt\<close> answers once the schema and the key are found: it never panics, and
  for a payload whose strings have at most \<open>2 ^ 36\<close> bytes the answer is \<open>200\<close> with the payload in
  which exactly the strings at the schema's paths are replaced by their tokens, whatever the
  iteration order of the hash set; one request and one latency are recorded, as a success.
\<close>

theorem encrypt_answer:
  assumes "crypto_ok P" "iter_ok iter" "app_ok s" "keys_ok (encrypt_request_payload req)"
    and "schema_and_dek http s headers = Ok (cached, dek)"
    and "\<forall>(p, x) \<in> set (leaves (encrypt_request_payload req)). length x \<le> 2 ^ 36"
  shows "encrypt P http iter t s headers req =
    ([Add (encrypt_requests (app_metrics s)) 1 success_attrs,
      Record (encrypt_latency_ms (app_metrics s)) t success_attrs],
     Some (200, EncryptBody \<lparr>encrypt_response_payload =
       at_paths (pii_paths cached) (encrypt_leaf P dek) (encrypt_request_payload req)\<rparr>))"
proof -
  note found = schema_and_dek_app_ok [OF assms(3,5)]
  have "all_at_paths (pii_paths cached) (encrypt_leaf P dek) (encrypt_request_payload req)"
    using encrypt_leaf_Ok [OF assms(1) found(1)] assms(6) by (auto simp: all_at_paths_def)
  then have "encrypt_pii_fields P (iter (pii_paths cached)) dek (encrypt_request_payload req) =
      Ok (at_paths (pii_paths cached) (encrypt_leaf P dek) (encrypt_request_payload req))"
    using iter_fields(1) [OF assms(2) found(2) assms(4)] by blast
  then show ?thesis unfolding encrypt_200_iff using assms(5) by simp
qed

theorem encrypt_answer_witness:
  "\<exists>log r. encrypt sample_crypto sample_http sorted_list_of_set (0 :: nat) sample_state
       sample_headers \<lparr>encrypt_request_payload = user_payload\<rparr> = (log, Some (200, EncryptBody r)) \<and>
     ([Key ''note''], ''hi'') \<in> set (leaves (encrypt_response_payload r))"
proof -
  have "([Key ''note''], ''hi'') \<in> set (leaves user_payload)" by (simp add: user_payload_def)
  moreover have "[Key ''note''] \<notin> parse_path ` {''ssn'', ''homes[].street'', ''street''}"
    by (simp add: parse_path_def parse_part_def strip_suffix_def)
  ultimately show ?thesis
    using encrypt_answer [OF sample_crypto_ok sorted_iter_ok sample_state_ok _ sample_state_lookup,
        of "\<lparr>encrypt_request_payload = user_payload\<rparr>" "0 :: nat"]
      user_payload_short wf_json_keys_ok [OF user_payload_wf]
    by (simp add: leaves_at_paths)
qed

text \<open>
  C2. \<open>POST /decrypt\<close> of what \<open>POST /encrypt\<close> answered, with the same schema and key and any
  iteration order, answers \<open>200\<close> with the payload of the original request.
\<close>

theorem decrypt_undoes_encrypt:
  assumes "crypto_ok P" "iter_ok iter" "iter_ok iter'" "app_ok s" "wf_json (encrypt_request_payload req)"
    and "schema_and_dek http s headers = Ok (cached, dek)"
    and "schema_and_dek http s' headers' = Ok (cached, dek)"
    and "encrypt P http iter t s headers req = (log, Some (200, EncryptBody r))"
  shows "snd (decrypt P http iter' t' s' headers'
      \<lparr>decrypt_request_payload = encrypt_response_payload r\<rparr>) =
    Some (200, DecryptBody \<lparr>decrypt_response_payload = encrypt_request_payload req\<rparr>)"
proof -
  have "encrypt_pii_fields P (iter (pii_paths cached)) dek (encrypt_request_payload req) =
      Ok (encrypt_response_payload r)"
    using assms(6,8) by (auto simp: encrypt_200_iff)
  moreover have "finite (pii_paths cached)" by (rule schema_and_dek_app_ok(2) [OF assms(4,6)])
  ultimately have "decrypt_pii_fields P (iter' (pii_paths cached)) dek (encrypt_response_payload r) =
      Ok (encrypt_request_payload req)"
    using assms by (intro decrypt_encrypt_pii_fields) (auto simp: iter_ok_def)
  then show ?thesis using assms(7) by (simp add: decrypt_def Let_def)
qed

theorem decrypt_undoes_encrypt_witness:
  "\<exists>log r. encrypt sample_crypto sample_http sorted_list_of_set (0 :: nat) sample_state
       sample_headers \<lparr>encrypt_request_payload = user_payload\<rparr> = (log, Some (200, EncryptBody r)) \<and>
     snd (decrypt sample_crypto sample_http (rev \<circ> sorted_list_of_set) (7 :: nat) sample_state
       sample_headers \<lparr>decrypt_request_payload = encrypt_response_payload r\<rparr>) =
     Some (200, DecryptBody \<lparr>decrypt_response_payload = user_payload\<rparr>)"
proof -
  note run = sample_state_encrypts
  have "iter_ok (rev \<circ> sorted_list_of_set)" by (simp add: iter_ok_def)
  from decrypt_undoes_encrypt [OF sample_crypto_ok sorted_iter_ok this sample_state_ok _
      sample_state_lookup sample_state_lookup run] user_payload_wf run
  show ?thesis by (metis encrypt_request.select_convs(1))
qed



text \<open>
  C36. The refusals of both handlers, in the order of the checks: no header, a header that is not
  a string, an unknown schema (all \<open>400\<close>), no key yet (\<open>503\<close>). Each is answered without looking
  at the payload.
\<close>

theorem refusals:
  assumes "name = schema_header_name s"
  shows "(header_get http headers name = None \<longrightarrow>
      schema_and_dek http s headers = Err (400, error_response_new ''bad_request'' (''missing '' @ name @ '' header''))) \<and>
    (\<forall>v. header_get http headers name = Some v \<longrightarrow> to_str http v = None \<longrightarrow>
      schema_and_dek http s headers =
        Err (400, error_response_new ''bad_request'' (name @ '' header contains non-ASCII characters''))) \<and>
    (\<forall>v schema. header_get http headers name = Some v \<longrightarrow> to_str http v = Some schema \<longrightarrow>
      \<not> is_ok (cache_get schema (schema_cache s)) \<longrightarrow>
      schema_and_dek http s headers = Err (400, error_response_new ''bad_request'' (''unknown schema: '' @ schema))) \<and>
    (\<forall>v schema. header_get http headers name = Some v \<longrightarrow> to_str http v = Some schema \<longrightarrow>
      is_ok (cache_get schema (schema_cache s)) \<longrightarrow> \<not> is_ready (dek_store s) \<longrightarrow>
      schema_and_dek http s headers =
        Err (503, error_response_new ''service_unavailable'' ''DEK not yet initialised'')) \<and>
    (\<forall>status err. schema_and_dek http s headers = Err (status, err) \<longrightarrow>
      snd (encrypt P http iter t s headers ereq) = Some (status, ErrorBody err) \<and>
      snd (decrypt P http iter t s headers dreq) = Some (status, ErrorBody err))"
proof (intro conjI allI impI)
  fix v schema
  assume h: "header_get http headers name = Some v" "to_str http v = Some schema"
  show "schema_and_dek http s headers = Err (400, error_response_new ''bad_request'' (''unknown schema: '' @ schema))"
    if "\<not> is_ok (cache_get schema (schema_cache s))"
    using h that assms
    by (cases "map_of (schema_cache s) schema")
      (auto simp: schema_and_dek_def schema_name_def cache_get_def is_ok_iff)
  show "schema_and_dek http s headers =
      Err (503, error_response_new ''service_unavailable'' ''DEK not yet initialised'')"
    if "is_ok (cache_get schema (schema_cache s))" "\<not> is_ready (dek_store s)"
    using h that assms
    by (auto simp: schema_and_dek_def schema_name_def is_ready_def current_def is_ok_iff)
qed (use assms in \<open>auto simp: schema_and_dek_def schema_name_def encrypt_def decrypt_def Let_def\<close>)

theorem refusals_witness:
  "snd (encrypt sample_crypto sample_http sorted_list_of_set (0 :: nat)
      (app_state_default :: int app_state) [(''X-Schema-Name'', ''users'')]
      \<lparr>encrypt_request_payload = user_payload\<rparr>) =
    Some (400, ErrorBody (error_response_new ''bad_request'' ''unknown schema: users''))"
proof -
  let ?s = "app_state_default :: int app_state"
  have "schema_header_name ?s = ''X-Schema-Name''"
    by (simp add: app_state_default_def app_state_new_def)
  from refusals [OF refl, where s = ?s and http = sample_http
      and headers = "[(''X-Schema-Name'', ''users'')]" and P = sample_crypto and t = "0 :: nat"
      and iter = sorted_list_of_set and ereq = "\<lparr>encrypt_request_payload = user_payload\<rparr>"] this
  show ?thesis
    by (simp add: sample_http_def app_state_default_def app_state_new_def cache_get_def
        schema_cache_new_def is_ok_iff)
qed

text \<open>A token that cannot be decrypted at a PII path is a failure.\<close>

lemma decrypt_500:
  fixes s :: "'n app_state"
  assumes "iter_ok iter" "app_ok s" "schema_and_dek http s headers = Ok (cached, dek)"
    and "[Key k] \<in> parse_path ` pii_paths cached" "\<not> is_ok (decrypt_leaf P dek x)"
  shows "\<exists>log body. decrypt P http iter t s headers \<lparr>decrypt_request_payload = JObject [(k, JString x)]\<rparr> =
    (log, Some (500, body))"
proof -
  let ?v = "JObject [(k, JString x)] :: 'n json"
  have "keys_ok ?v" by (simp add: hmap_ok_def)
  moreover have "\<not> all_at_paths (pii_paths cached) (decrypt_leaf P dek) ?v"
    using assms(4,5) by (auto simp: all_at_paths_def)
  ultimately have "\<not> is_ok (decrypt_pii_fields P (iter (pii_paths cached)) dek ?v)"
    using iter_fields(2) [OF assms(1) schema_and_dek_app_ok(2) [OF assms(2,3)], of ?v P dek] by (auto simp: is_ok_iff)
  then show ?thesis using assms(3) decrypt_pii_fields_not_Panic [of P "iter (pii_paths cached)" dek ?v]
    by (cases "decrypt_pii_fields P (iter (pii_paths cached)) dek ?v") (auto simp: decrypt_def Let_def is_ok_iff)
qed

text \<open>
  A refusal before the payload is looked at depends on the headers and the status alone: not on the
  key, and not on the schemas.
\<close>

lemma early_failure_same:
  assumes "schema_header_name s' = schema_header_name s"
    and "schema_and_dek http s headers = Err (status, err)" "schema_and_dek http s' headers = Err (status, err')"
  shows "err' = err"
proof -
  have name: "schema_name http s' headers = schema_name http s headers"
    by (simp only: schema_name_def assms(1))
  show ?thesis
  proof (cases "schema_name http s headers")
    case (Ok schema)
    with assms(2,3) name show ?thesis
      by (auto simp: schema_and_dek_def current_def cache_get_def err_simps ok_or_Ok_iff)
  qed (use assms(2,3) name in \<open>auto simp: schema_and_dek_def\<close>)
qed

text \<open>The measurements of a request that took another time.\<close>

fun retimed :: "'t \<Rightarrow> 't measurement \<Rightarrow> 't measurement" where
  "retimed t (Add i n attrs) = Add i n attrs"
| "retimed t (Record i _ attrs) = Record i t attrs"

text \<open>
  C16. A failed request reveals nothing of the payload, the key or the schemas beyond its status: two failing
  \<open>POST /encrypt\<close> requests with the same headers, whatever the payloads, the keys, the schemas, the
  primitives and the times they take, that fail with the same status, get the same answer, and their
  measurements differ in nothing but the time taken. The same holds for \<open>POST /decrypt\<close>. The two
  services have the same header name configured and the same instruments.
\<close>

theorem failures_reveal_nothing:
  assumes "schema_header_name s' = schema_header_name s" "app_metrics s' = app_metrics s"
  shows "(encrypt P http iter t s headers req = (log, Some (status, body)) \<longrightarrow>
      encrypt P' http iter' t' s' headers req' = (log', Some (status, body')) \<longrightarrow> status \<noteq> 200 \<longrightarrow>
      body' = body \<and> log' = map (retimed t') log) \<and>
    (decrypt P http iter t s headers dreq = (log, Some (status, body)) \<longrightarrow>
      decrypt P' http iter' t' s' headers dreq' = (log', Some (status, body')) \<longrightarrow> status \<noteq> 200 \<longrightarrow>
      body' = body \<and> log' = map (retimed t') log)"
proof -
  note early = early_failure_same [OF assms(1)]
  have late: "schema_and_dek http s headers \<noteq> Err (500, err)"
    "schema_and_dek http s' headers \<noteq> Err (500, err)" for err
    using schema_and_dek_status by fastforce+
  show ?thesis
  proof (intro conjI impI)
    assume "encrypt P http iter t s headers req = (log, Some (status, body))"
      "encrypt P' http iter' t' s' headers req' = (log', Some (status, body'))" "status \<noteq> 200"
    from encrypt_failure [OF this(1,3)] encrypt_failure [OF this(2,3)]
    show "body' = body" "log' = map (retimed t') log"
      using early assms(2) by (auto simp: late)
  next
    assume "decrypt P http iter t s headers dreq = (log, Some (status, body))"
      "decrypt P' http iter' t' s' headers dreq' = (log', Some (status, body'))" "status \<noteq> 200"
    from decrypt_failure [OF this(1,3)] decrypt_failure [OF this(2,3)]
    show "body' = body" "log' = map (retimed t') log"
      using early assms(2) by (auto simp: late)
  qed
qed

theorem failures_reveal_nothing_witness:
  "\<exists>log log' err. decrypt sample_crypto sample_http sorted_list_of_set (3 :: nat) sample_state sample_headers
      \<lparr>decrypt_request_payload = JObject [(''ssn'', JString ''v1.zz'')]\<rparr> = (log, Some (500, ErrorBody err)) \<and>
    decrypt sample_crypto sample_http (rev \<circ> sorted_list_of_set) (8 :: nat) sample_state sample_headers
      \<lparr>decrypt_request_payload = JObject [(''street'', JString ''v1.a.b'')]\<rparr> = (log', Some (500, ErrorBody err)) \<and>
    log' = map (retimed 8) log"
proof -
  let ?run = "\<lambda>iter (t :: nat) payload. decrypt sample_crypto sample_http iter t sample_state sample_headers
      \<lparr>decrypt_request_payload = payload\<rparr>"
  let ?cached = "\<lparr>cached_api = sample_api, pii_paths = {''ssn'', ''homes[].street'', ''street''}\<rparr>"
  have paths: "[Key ''ssn''] \<in> parse_path ` pii_paths ?cached" "[Key ''street''] \<in> parse_path ` pii_paths ?cached"
    by (simp_all add: parse_path_def parse_part_def strip_suffix_def)
  have bad: "\<not> is_ok (decrypt_leaf sample_crypto sample_dek ''v1.zz'')"
    "\<not> is_ok (decrypt_leaf sample_crypto sample_dek ''v1.a.b'')" by code_simp+
  have iter: "iter_ok (rev \<circ> sorted_list_of_set)" by (simp add: iter_ok_def)
  obtain log body where e: "?run sorted_list_of_set 3 (JObject [(''ssn'', JString ''v1.zz'')]) = (log, Some (500, body))"
    using decrypt_500 [OF sorted_iter_ok sample_state_ok sample_state_lookup paths(1) bad(1), where t = 3] by blast
  obtain log' body' where e': "?run (rev \<circ> sorted_list_of_set) 8 (JObject [(''street'', JString ''v1.a.b'')]) = (log', Some (500, body'))"
    using decrypt_500 [OF iter sample_state_ok sample_state_lookup paths(2) bad(2), where t = 8] by blast
  have "body' = body \<and> log' = map (retimed 8) log"
    by (rule failures_reveal_nothing [THEN conjunct2, rule_format, OF _ _ e e']) simp_all
  moreover obtain err where "body = ErrorBody err" using decrypt_failure [OF e] by auto
  ultimately show ?thesis using e e' by blast
qed

text \<open>
  Every answered request is counted once and timed once, under the status attribute
  \<open>success\<close> exactly when the answer is \<open>200\<close>, with the instruments of its own endpoint.
\<close>

lemma requests_are_counted:
  assumes "encrypt P http iter t s headers req = (log, Some (status, body))"
    and "decrypt P http iter t s headers dreq = (dlog, Some (dstatus, dbody))"
  shows "log = [Add (encrypt_requests (app_metrics s)) 1 (if status = 200 then success_attrs else error_attrs),
      Record (encrypt_latency_ms (app_metrics s)) t (if status = 200 then success_attrs else error_attrs)] \<and>
    dlog = [Add (decrypt_requests (app_metrics s)) 1 (if dstatus = 200 then success_attrs else error_attrs),
      Record (decrypt_latency_ms (app_metrics s)) t (if dstatus = 200 then success_attrs else error_attrs)]"
  using assms schema_and_dek_status [of http s headers]
  by (auto simp: encrypt_def decrypt_def Let_def err_simps split: result.splits prod.splits)

text \<open>
  \<open>GET /health\<close> answers \<open>200\<close> exactly when a key is loaded and the cache is not empty, and
  \<open>503\<close> otherwise; the body reports both.
\<close>

lemma health_exact:
  "health s = (if is_ok (current (dek_store s)) \<and> \<not> cache_is_empty (schema_cache s)
     then (200, HealthBody \<lparr>health_status = ''ok'', health_dek_ready = True,
             health_schemas_loaded = cache_len (schema_cache s)\<rparr>)
     else (503, HealthBody \<lparr>health_status = ''degraded'',
             health_dek_ready = is_ok (current (dek_store s)),
             health_schemas_loaded = cache_len (schema_cache s)\<rparr>))"
  by (auto simp: health_def Let_def dek.ready_iff cache_is_empty_def cache_len_def)

text \<open>
  C12. PII inside an array of arrays is returned in the clear: at a path with two array steps in a
  row, \<open>POST /encrypt\<close> answers with the very strings of the request, even when the schema marks
  them. The resolver writes such a path with two pairs of brackets; \<open>parse_path\<close> strips one pair
  and takes the other for a part of the property name.
\<close>

theorem nested_array_in_the_clear:
  assumes "iter_ok iter" "app_ok s" "keys_ok (encrypt_request_payload req)"
    and "encrypt P http iter t s headers req = (log, Some (200, EncryptBody r))"
    and "p = q @ ArrayItem # ArrayItem # q'"
  shows "(p, x) \<in> set (leaves (encrypt_response_payload r)) \<longleftrightarrow>
    (p, x) \<in> set (leaves (encrypt_request_payload req))"
proof -
  from assms(4) obtain cached dek where "schema_and_dek http s headers = Ok (cached, dek)"
    by (auto simp: encrypt_200_iff)
  from encrypt_Ok_payload(2) [OF assms(1-3) this assms(4)] show ?thesis
    by (simp add: leaves_at_paths parse_path_no_nested_array assms(5))
qed

theorem nested_array_in_the_clear_witness:
  "\<exists>log r. encrypt sample_crypto sample_http sorted_list_of_set (0 :: nat)
       (state_for grid_api {''grid[][]''}) sample_headers
       \<lparr>encrypt_request_payload = JObject [(''grid'', JArray [JArray [JString ''123'']])]\<rparr> =
         (log, Some (200, EncryptBody r)) \<and>
     ([Key ''grid'', ArrayItem, ArrayItem], ''123'') \<in> set (leaves (encrypt_response_payload r)) \<and>
     [Key ''grid'', ArrayItem, ArrayItem] \<in> api_pii grid_api"
proof -
  let ?v = "JObject [(''grid'', JArray [JArray [JString ''123'']])] :: int json"
  let ?items = "Schema [] (TypeArray (Some (Item pii_schema)))"
  let ?grid = "Schema [] (TypeArray (Some (Item ?items)))"
  let ?root = "Schema [] (TypeObject [(''grid'', Item ?grid)])"
  have v: "keys_ok ?v" "\<forall>(p, x) \<in> set (leaves ?v). length x \<le> 2 ^ 36"
    by (simp_all add: hmap_ok_def)
  have "finite {''grid[][]''}" by simp
  from sample_encrypts [OF this v, where api = grid_api] obtain log r where
    run: "encrypt sample_crypto sample_http sorted_list_of_set (0 :: nat) (state_for grid_api {''grid[][]''})
      sample_headers \<lparr>encrypt_request_payload = ?v\<rparr> = (log, Some (200, EncryptBody r))"
    by blast
  have "pii_at grid_api ?items [ArrayItem]"
    by (rule pii_at.here [of _ pii_schema]) (simp_all add: sub_schemas_def resolve_item_def is_pii_def pii_schema_def)
  then have "pii_at grid_api ?grid [ArrayItem, ArrayItem]"
    by (rule pii_at.below [rotated]) (simp add: sub_schemas_def resolve_item_def)
  then have "pii_at grid_api ?root [Key ''grid'', ArrayItem, ArrayItem]"
    by (rule pii_at.below [rotated]) (simp add: sub_schemas_def resolve_item_def map_filter_simps)
  then have "[Key ''grid'', ArrayItem, ArrayItem] \<in> api_pii grid_api"
    by (rule api_piiI [of _ _ "''Grid''", rotated 2]) (simp add: grid_api_def, simp)
  moreover have "([Key ''grid'', ArrayItem, ArrayItem], ''123'') \<in> set (leaves ?v)" by simp
  ultimately show ?thesis
    using run nested_array_in_the_clear [OF sorted_iter_ok state_for_ok [OF grid_api_paths] _ run,
        of "[Key ''grid'', ArrayItem, ArrayItem]" "[Key ''grid'']" "[]" "''123''"] v(1)
    by simp
qed

text \<open>
  C28. \<open>POST /encrypt\<close> changes nothing but strings: with the contents of all strings erased, the answer
  and the request are the same value, so keys, structure, numbers, booleans and nulls come back as
  they were. In particular a marked property whose value is a number or an object is answered in
  the clear.
\<close>

theorem encrypt_keeps_shape:
  assumes "iter_ok iter" "app_ok s" "keys_ok (encrypt_request_payload req)"
    and "encrypt P http iter t s headers req = (log, Some (200, EncryptBody r))"
  shows "map_strings (\<lambda>_ _. '''') (encrypt_response_payload r) =
    map_strings (\<lambda>_ _. '''') (encrypt_request_payload req)"
proof -
  obtain cached dek where "schema_and_dek http s headers = Ok (cached, dek)"
    using assms(4) by (auto simp: encrypt_200_iff)
  from encrypt_Ok_payload(2) [OF assms(1-3) this assms(4)] show ?thesis
    by (simp add: at_paths_def map_strings_compose)
qed

definition numeric_payload :: "int json" where
  "numeric_payload = JObject [(''ssn'', JNumber 123456789), (''street'', JObject [(''number'', JNumber 5)])]"

theorem encrypt_keeps_shape_witness:
  "\<exists>log r. encrypt sample_crypto sample_http sorted_list_of_set (0 :: nat) sample_state sample_headers
      \<lparr>encrypt_request_payload = numeric_payload\<rparr> = (log, Some (200, EncryptBody r)) \<and>
     map_strings (\<lambda>_ _. '''') (encrypt_response_payload r) = numeric_payload"
proof -
  have ok: "keys_ok numeric_payload" by (simp add: numeric_payload_def hmap_ok_def)
  have short: "\<forall>(p, x) \<in> set (leaves numeric_payload). length x \<le> 2 ^ 36" by (simp add: numeric_payload_def)
  obtain log r where run: "encrypt sample_crypto sample_http sorted_list_of_set (0 :: nat) sample_state sample_headers
      \<lparr>encrypt_request_payload = numeric_payload\<rparr> = (log, Some (200, EncryptBody r))"
    using sample_encrypts [OF _ ok short] by (auto simp: sample_state_def)
  have "map_strings (\<lambda>_ _. '''') (encrypt_response_payload r) = map_strings (\<lambda>_ _. '''') numeric_payload"
    using encrypt_keeps_shape [OF sorted_iter_ok sample_state_ok _ run] ok by simp
  with run show ?thesis by (auto simp: numeric_payload_def)
qed

end
