(* ===== verification/Router.thy ===== *)
theory Router
  imports Handlers
begin

text \<open>
  The router (\<open>src/crates/enclave/src/server/router.rs\<close>, \<open>middleware.rs\<close>): which handler serves a
  request. The \<open>axum\<close> extractors that turn a body into a typed request are arguments; a request
  that they reject, that has the wrong method or that runs into the timeout is answered by the
  framework (\<open>Foreign\<close>, with the status only) and does not reach the rest of a handler.
\<close>

section \<open>Definitions\<close>

datatype http_method = GET | HEAD | POST | OtherMethod string

record ('h, 'b) http_request =
  request_method :: http_method
  request_path :: string
  request_headers :: 'h
  request_body :: 'b

datatype 'n reply = Answer "'n response" | Foreign u16

record ('h, 'b, 'n) axum =
  json_encrypt :: "'h \<Rightarrow> 'b \<Rightarrow> ('n encrypt_request, u16) result"
  json_decrypt :: "'h \<Rightarrow> 'b \<Rightarrow> ('n decrypt_request, u16) result"
  wrong_method :: u16
  timed_out :: u16

text \<open>Seconds.\<close>

definition REQUEST_TIMEOUT :: nat where
  "REQUEST_TIMEOUT = 30"

definition extracted ::
  "('r, u16) result \<Rightarrow> ('r \<Rightarrow> 't measurement list \<times> 'n response option) \<Rightarrow>
     't measurement list \<times> 'n reply option" where
  "extracted r handler =
     (case r of
        Ok req \<Rightarrow> (case handler req of (log, answer) \<Rightarrow> (log, map_option Answer answer))
      | Err status \<Rightarrow> ([], Some (Foreign status))
      | Panic \<Rightarrow> ([], None))"

text \<open>
  \<open>waited\<close> is how many seconds the request has been waiting when the timer is looked at: the
  timeout layer drops the handler after 30 seconds. \<open>GET\<close> routes serve \<open>HEAD\<close> too.
\<close>

definition build ::
  "('c, 'x) crypto_scheme \<Rightarrow> ('h, 'v, 'y) http_scheme \<Rightarrow> ('h, 'b, 'n, 'z) axum_scheme \<Rightarrow>
     (string set \<Rightarrow> string list) \<Rightarrow> 't \<Rightarrow> nat \<Rightarrow> 'n app_state \<Rightarrow> ('h, 'b) http_request \<Rightarrow>
     't measurement list \<times> 'n reply option" where
  "build P http ax iter elapsed waited s req =
     (if REQUEST_TIMEOUT < waited then ([], Some (Foreign (timed_out ax)))
      else if request_path req = ''/encrypt'' then
        (if request_method req = POST
         then extracted (json_encrypt ax (request_headers req) (request_body req))
           (encrypt P http iter elapsed s (request_headers req))
         else ([], Some (Foreign (wrong_method ax))))
      else if request_path req = ''/decrypt'' then
        (if request_method req = POST
         then extracted (json_decrypt ax (request_headers req) (request_body req))
           (decrypt P http iter elapsed s (request_headers req))
         else ([], Some (Foreign (wrong_method ax))))
      else if request_path req = ''/health'' then
        (if request_method req = GET \<or> request_method req = HEAD
         then ([], Some (Answer (health s)))
         else ([], Some (Foreign (wrong_method ax))))
      else ([], Some (Answer not_found)))"

text \<open>Extractors for bodies that are already parsed, or not at all.\<close>

definition sample_axum :: "((string \<times> string) list, int json option, int) axum" where
  "sample_axum =
     \<lparr>json_encrypt = (\<lambda>_ b. case b of Some v \<Rightarrow> Ok \<lparr>encrypt_request_payload = v\<rparr> | None \<Rightarrow> Err 422),
      json_decrypt = (\<lambda>_ b. case b of Some v \<Rightarrow> Ok \<lparr>decrypt_request_payload = v\<rparr> | None \<Rightarrow> Err 422),
      wrong_method = 405, timed_out = 408\<rparr>"

section \<open>Lemmas\<close>

lemma extracted_answered:
  "r \<noteq> Panic \<Longrightarrow> (\<And>req. snd (handler req) \<noteq> None) \<Longrightarrow> snd (extracted r handler) \<noteq> None"
  by (cases r) (simp_all add: extracted_def case_prod_beta)

lemma extracted_Answer_iff:
  assumes "\<And>req. snd (handler req) \<noteq> None"
  shows "(\<exists>log answer. extracted r handler = (log, Some (Answer answer))) \<longleftrightarrow> is_ok r"
proof (cases r)
  case (Ok req)
  then show ?thesis
    using assms [of req] by (cases "handler req") (auto simp: extracted_def is_ok_def)
qed (simp_all add: extracted_def is_ok_def)

lemma build_panics:
  assumes "hmac_ok P" "\<And>h b. json_encrypt ax h b \<noteq> Panic" "\<And>h b. json_decrypt ax h b \<noteq> Panic"
  shows "snd (build P http ax iter t waited s req) \<noteq> None"
proof -
  have "snd (extracted (json_encrypt ax h b) (encrypt P http iter t s h)) \<noteq> None"
    "snd (extracted (json_decrypt ax h b) (decrypt P http iter t s h)) \<noteq> None" for h b
    by (rule extracted_answered; simp only: assms encrypt_not_Panic decrypt_not_Panic not_False_eq_True)+
  then show ?thesis by (simp add: build_def)
qed

section \<open>Properties\<close>

text \<open>
  The server answers every request: if the extractors do not panic, neither does the router,
  whatever method, path, headers, body and state.
\<close>

lemma every_request_answered:
  assumes "crypto_ok P" "\<And>h b. json_encrypt ax h b \<noteq> Panic" "\<And>h b. json_decrypt ax h b \<noteq> Panic"
  shows "\<exists>log reply. build P http ax iter t waited s req = (log, Some reply)"
  using build_panics [of P ax http iter t waited s req] assms
  by (cases "build P http ax iter t waited s req") (auto simp: crypto_ok_def)

text \<open>
  The routes: within the timeout, a request is answered by the service itself exactly when it
  is a \<open>POST\<close> to \<open>/encrypt\<close> or \<open>/decrypt\<close> with an acceptable body, a \<open>GET\<close> or \<open>HEAD\<close> of \<open>/health\<close>,
  or for another path, which is answered \<open>404\<close>.
\<close>

lemma routes:
  assumes "waited \<le> REQUEST_TIMEOUT" "crypto_ok P"
  shows "(\<exists>log answer. build P http ax iter t waited s req = (log, Some (Answer answer))) \<longleftrightarrow>
    (case request_path req of path \<Rightarrow>
      if path = ''/encrypt''
      then request_method req = POST \<and> is_ok (json_encrypt ax (request_headers req) (request_body req))
      else if path = ''/decrypt''
      then request_method req = POST \<and> is_ok (json_decrypt ax (request_headers req) (request_body req))
      else if path = ''/health'' then request_method req \<in> {GET, HEAD}
      else build P http ax iter t waited s req = ([], Some (Answer not_found)))"
proof -
  have P: "hmac_ok P" using assms(2) by (simp add: crypto_ok_def)
  have answers:
    "(\<exists>log answer. extracted r (encrypt P http iter t s h) = (log, Some (Answer answer))) \<longleftrightarrow> is_ok r"
    "(\<exists>log answer. extracted r' (decrypt P http iter t s h) = (log, Some (Answer answer))) \<longleftrightarrow> is_ok r'"
    for h r r'
    by (rule extracted_Answer_iff, rule encrypt_not_Panic [OF P])
      (rule extracted_Answer_iff, rule decrypt_not_Panic)
  show ?thesis using assms(1) by (simp add: build_def answers del: split_paired_Ex)
qed

text \<open>
  A request that the framework refuses is not counted: a \<open>POST /encrypt\<close> whose body the
  extractor rejects records no measurement, although it is a request to \<open>/encrypt\<close>.
\<close>

lemma rejected_not_counted:
  assumes "waited \<le> REQUEST_TIMEOUT" "request_path req = ''/encrypt''" "request_method req = POST"
    and "json_encrypt ax (request_headers req) (request_body req) = Err status"
  shows "build P http ax iter t waited s req = ([], Some (Foreign status))"
  using assms by (simp add: build_def extracted_def)

end
