(* ===== verification/Relay.thy ===== *)
theory Relay
  imports Config
begin

text \<open>
  Byte forwarding: the sidecar \<open>src/crates/vsock-proxy/src/proxy.rs\<close> and the three bridges that
  \<open>src/crates/enclave/src/main.rs\<close> starts (OTLP, logs, IMDS). They share one shape: accept a TCP
  connection, open a vsock connection, copy in both directions, stop when one direction ends.
  A connection is a state machine over the events that the peers and the scheduler cause;
  \<open>None\<close> is an event that cannot happen in the state.
\<close>

section \<open>Sockets and copies\<close>

text \<open>
  A connection has two sockets. Of each one the model keeps what its peer has sent (\<open>peer_sent\<close>, a history),
  what of it has not been read (\<open>inbox\<close>), whether the peer has closed its side, and what has been
  written to the socket, which is what the peer receives (\<open>outbox\<close>). \<open>io::split\<close> gives a read and a write half
  of a socket; a copy is started on the read half of some socket and the write half of some socket.
\<close>

datatype stream = TcpStream | VsockStream

record sock =
  peer_sent :: "u8 list"
  inbox :: "u8 list"
  peer_closed :: bool
  outbox :: "u8 list"

definition sock_new :: sock where
  "sock_new = \<lparr>peer_sent = [], inbox = [], peer_closed = False, outbox = []\<rparr>"

record copier =
  read_half :: stream
  write_half :: stream
  copy_buffer :: "u8 list"

definition copy_half :: "stream \<Rightarrow> stream \<Rightarrow> copier" where
  "copy_half r w = \<lparr>read_half = r, write_half = w, copy_buffer = []\<rparr>"

text \<open>
  \<open>tokio::io::copy\<close> is not part of the repository: its moves are the events of a type \<open>'e\<close> with their effect
  \<open>io_copy\<close> on the bytes to be read, its buffer and the bytes written. \<open>copy_faithful\<close> is what the
  library documents: a move reads some bytes from the front into the buffer or writes some from the
  front of the buffer.
\<close>

type_synonym copy_state = "u8 list \<times> u8 list \<times> u8 list"

inductive copy_move :: "copy_state \<Rightarrow> copy_state \<Rightarrow> bool" where
  reads: "copy_move (bs @ unread, buf, written) (unread, buf @ bs, written)"
| writes: "copy_move (unread, bs @ buf, written) (unread, buf, written @ bs)"

inductive_simps copy_move_iff: "copy_move (unread, buf, written) (unread', buf', written')"

definition copy_faithful :: "('e \<Rightarrow> copy_state \<Rightarrow> copy_state option) \<Rightarrow> bool" where
  "copy_faithful io_copy \<longleftrightarrow> (\<forall>e st st'. io_copy e st = Some st' \<longrightarrow> copy_move st st')"

definition copy_on ::
  "('e \<Rightarrow> copy_state \<Rightarrow> copy_state option) \<Rightarrow> 'e \<Rightarrow> copier \<Rightarrow> (stream \<Rightarrow> sock) \<Rightarrow>
     ((stream \<Rightarrow> sock) \<times> copier) option" where
  "copy_on io_copy e k S =
     (case io_copy e (inbox (S (read_half k)), copy_buffer k, outbox (S (write_half k))) of
        None \<Rightarrow> None
      | Some (unread, buf, written) \<Rightarrow>
          (let S1 = S(read_half k := (S (read_half k))\<lparr>inbox := unread\<rparr>)
           in Some (S1(write_half k := (S1 (write_half k))\<lparr>outbox := written\<rparr>), k\<lparr>copy_buffer := buf\<rparr>)))"

text \<open>It returns once it has read the end of the stream and has written everything it had read.\<close>

definition copied :: "(stream \<Rightarrow> sock) \<Rightarrow> copier \<Rightarrow> bool" where
  "copied S k \<longleftrightarrow> peer_closed (S (read_half k)) \<and> inbox (S (read_half k)) = [] \<and> copy_buffer k = []"

section \<open>One connection: \<open>handle_connection\<close> and the bridges' tasks\<close>

datatype side = TcpToVsock | VsockToTcp

datatype conn_end = Running | Finished side | Failed side string

record conn =
  socks :: "stream \<Rightarrow> sock"
  tcp_to_vsock :: copier
  vsock_to_tcp :: copier
  ending :: conn_end

text \<open>How \<open>handle_connection\<close> and the tasks of the bridges pair the halves.\<close>

definition conn_new :: conn where
  "conn_new =
     \<lparr>socks = (\<lambda>_. sock_new),
      tcp_to_vsock = copy_half TcpStream VsockStream,
      vsock_to_tcp = copy_half VsockStream TcpStream,
      ending = Running\<rparr>"

definition get_copier :: "side \<Rightarrow> conn \<Rightarrow> copier" where
  "get_copier d c = (case d of TcpToVsock \<Rightarrow> tcp_to_vsock c | VsockToTcp \<Rightarrow> vsock_to_tcp c)"

definition put_copier :: "side \<Rightarrow> copier \<Rightarrow> conn \<Rightarrow> conn" where
  "put_copier d k c = (case d of TcpToVsock \<Rightarrow> c\<lparr>tcp_to_vsock := k\<rparr> | VsockToTcp \<Rightarrow> c\<lparr>vsock_to_tcp := k\<rparr>)"

datatype 'e conn_event =
    PeerSends stream "u8 list"
  | PeerCloses stream
  | Copy side 'e
  | Finish side
  | Fail side string

text \<open>
  The peers send and close as they like. \<open>tokio::select!\<close> takes the first direction that ends, by completion
  or by an I/O error, and drops the other; after that nothing is copied.
\<close>

fun conn_step ::
  "('e \<Rightarrow> copy_state \<Rightarrow> copy_state option) \<Rightarrow> 'e conn_event \<Rightarrow> conn \<Rightarrow> conn option" where
  "conn_step io_copy (PeerSends s bs) c =
     (if peer_closed (socks c s) then None
      else Some (c\<lparr>socks := (socks c)(s := (socks c s)
        \<lparr>peer_sent := peer_sent (socks c s) @ bs, inbox := inbox (socks c s) @ bs\<rparr>)\<rparr>))"
| "conn_step io_copy (PeerCloses s) c =
     Some (c\<lparr>socks := (socks c)(s := (socks c s)\<lparr>peer_closed := True\<rparr>)\<rparr>)"
| "conn_step io_copy (Copy d e) c =
     (if ending c = Running
      then map_option (\<lambda>(S, k). put_copier d k (c\<lparr>socks := S\<rparr>)) (copy_on io_copy e (get_copier d c) (socks c))
      else None)"
| "conn_step io_copy (Finish d) c =
     (if ending c = Running \<and> copied (socks c) (get_copier d c) then Some (c\<lparr>ending := Finished d\<rparr>) else None)"
| "conn_step io_copy (Fail d msg) c =
     (if ending c = Running then Some (c\<lparr>ending := Failed d msg\<rparr>) else None)"

text \<open>
  \<open>handle_connection\<close> on the outcome of the vsock connect and the run of the connection: its
  result once the connection has ended, \<open>None\<close> while it runs. The bridges do the same but ignore
  the result (\<open>let\<close> patterns \<open>_ = copy\<close>) and only report a failed connect.
\<close>

definition handle_connection ::
  "(unit, anyhow) result \<Rightarrow> conn \<Rightarrow> (unit, anyhow) result option" where
  "handle_connection vsock_connect c =
     (case vsock_connect of
        Ok _ \<Rightarrow>
          (case ending c of
             Running \<Rightarrow> None
           | Finished _ \<Rightarrow> Some (Ok ())
           | Failed _ msg \<Rightarrow> Some (Err [msg]))
      | Err e \<Rightarrow> Some (Err e)
      | Panic \<Rightarrow> Some Panic)"

section \<open>Accept loops\<close>

text \<open>
  The proxy binds, then serves every accepted connection; a failed accept is logged and the
  loop goes on. \<open>accepts\<close> is what \<open>accept\<close> returns, one after the other; the result lists the
  vsock addresses of the tasks spawned, with the peer.
\<close>

fun accept_all :: "u32 \<Rightarrow> u32 \<Rightarrow> ('peer, anyhow) result list \<Rightarrow> ('peer \<times> u32 \<times> u32) list" where
  "accept_all cid port [] = []"
| "accept_all cid port (Ok peer # accepts) = (peer, cid, port) # accept_all cid port accepts"
| "accept_all cid port (_ # accepts) = accept_all cid port accepts"

definition proxy_run ::
  "proxy_config \<Rightarrow> (unit, anyhow) result \<Rightarrow> ('peer, anyhow) result list \<Rightarrow>
     (('peer \<times> u32 \<times> u32) list, anyhow) result" where
  "proxy_run cfg bind accepts =
     and_then bind (\<lambda>_. Ok (accept_all (enclave_cid cfg) (enclave_port cfg) accepts))"

text \<open>
  The sidecar's log subscriber takes its filter from the environment, or else the configured
  level; it can be installed once only.
\<close>

definition proxy_telemetry_init ::
  "string option \<Rightarrow> (string \<Rightarrow> (unit, string) result) \<Rightarrow> string \<Rightarrow> (unit, anyhow) result" where
  "proxy_telemetry_init rust_log try_init level =
     (let filter = (case rust_log of Some f \<Rightarrow> f | None \<Rightarrow> level)
      in map_err (\<lambda>e. [''failed to initialise vsock-proxy tracing subscriber: '' @ e]) (try_init filter))"

text \<open>\<open>main\<close> of the sidecar: configuration, log subscriber, proxy.\<close>

definition proxy_main ::
  "(proxy_environment, anyhow) result \<Rightarrow> string option \<Rightarrow> (string \<Rightarrow> (unit, string) result) \<Rightarrow>
     (unit, anyhow) result \<Rightarrow> ('peer, anyhow) result list \<Rightarrow>
     (('peer \<times> u32 \<times> u32) list, anyhow) result" where
  "proxy_main env rust_log try_init bind accepts =
     and_then (proxy_from_env env) (\<lambda>cfg.
     and_then (proxy_telemetry_init rust_log try_init (proxy_log_level cfg)) (\<lambda>_.
       proxy_run cfg bind accepts))"

text \<open>The bridges of the enclave, each on a fixed local port and the same vsock port of the parent.\<close>

definition OTLP_PORT :: u32 where "OTLP_PORT = 4317"

definition LOG_PORT :: u32 where "LOG_PORT = 4318"

definition IMDS_PORT :: u32 where "IMDS_PORT = 8004"

definition start_otlp_bridge ::
  "u32 \<Rightarrow> (unit, anyhow) result \<Rightarrow> ('peer, anyhow) result list \<Rightarrow>
     (('peer \<times> u32 \<times> u32) list, anyhow) result" where
  "start_otlp_bridge parent_cid bind accepts =
     and_then (with_context bind ''failed to bind OTLP bridge on 127.0.0.1:4317'')
       (\<lambda>_. Ok (accept_all parent_cid OTLP_PORT accepts))"

definition start_imds_bridge ::
  "u32 \<Rightarrow> (unit, anyhow) result \<Rightarrow> ('peer, anyhow) result list \<Rightarrow>
     (('peer \<times> u32 \<times> u32) list, anyhow) result" where
  "start_imds_bridge parent_cid bind accepts =
     and_then (with_context bind ''failed to bind IMDS bridge on 127.0.0.1:8004'')
       (\<lambda>_. Ok (accept_all parent_cid IMDS_PORT accepts))"

text \<open>
  The log bridge is best effort: a failed bind or a failed connect of the writer gives no
  writer, and logging stays on stderr.
\<close>

definition start_log_bridge ::
  "u32 \<Rightarrow> (unit, anyhow) result \<Rightarrow> 'w option \<Rightarrow> ('peer, anyhow) result list \<Rightarrow>
     ('peer \<times> u32 \<times> u32) list \<times> 'w option" where
  "start_log_bridge parent_cid bind writer accepts =
     (if is_ok bind then (accept_all parent_cid LOG_PORT accepts, writer) else ([], None))"

section \<open>What is forwarded\<close>

text \<open>The source and the target of a direction, as it is meant.\<close>

fun source :: "side \<Rightarrow> stream" where
  "source TcpToVsock = TcpStream"
| "source VsockToTcp = VsockStream"

fun target :: "side \<Rightarrow> stream" where
  "target TcpToVsock = VsockStream"
| "target VsockToTcp = TcpStream"

text \<open>Nothing is lost, invented, reordered or sent to the wrong side; a direction that ended delivered all.\<close>

definition conn_ok :: "conn \<Rightarrow> bool" where
  "conn_ok c \<longleftrightarrow>
     (\<forall>d. read_half (get_copier d c) = source d \<and> write_half (get_copier d c) = target d \<and>
        peer_sent (socks c (source d)) =
          outbox (socks c (target d)) @ copy_buffer (get_copier d c) @ inbox (socks c (source d)) \<and>
        (ending c = Finished d \<longrightarrow> copied (socks c) (get_copier d c)))"

lemma get_put_copier [simp]:
  "get_copier d' (put_copier d k c) = (if d' = d then k else get_copier d' c)"
  "socks (put_copier d k c) = socks c" "ending (put_copier d k c) = ending c"
  by (auto simp: get_copier_def put_copier_def split: side.split)

lemma get_copier_update [simp]:
  "get_copier d (c\<lparr>socks := S\<rparr>) = get_copier d c" "get_copier d (c\<lparr>ending := e\<rparr>) = get_copier d c"
  by (simp_all add: get_copier_def split: side.split)

lemma source_target [simp]:
  "source d \<noteq> target d" "target d \<noteq> source d" "source d = source d' \<longleftrightarrow> d = d'" "target d = target d' \<longleftrightarrow> d = d'"
  "source d = target d' \<longleftrightarrow> d \<noteq> d'" "target d = source d' \<longleftrightarrow> d \<noteq> d'"
  by (cases d; cases d'; simp)+

text \<open>A move of a copy shifts bytes along its own direction and changes nothing else.\<close>

lemma copy_on_effect:
  assumes "copy_faithful io_copy" "copy_on io_copy e k S = Some (S', k')" "read_half k \<noteq> write_half k"
  shows "read_half k' = read_half k" "write_half k' = write_half k" "\<And>s. peer_sent (S' s) = peer_sent (S s)"
    "\<And>s. peer_closed (S' s) = peer_closed (S s)"
    "outbox (S' (read_half k)) = outbox (S (read_half k))" "inbox (S' (write_half k)) = inbox (S (write_half k))"
    "outbox (S' (write_half k)) @ copy_buffer k' @ inbox (S' (read_half k)) =
       outbox (S (write_half k)) @ copy_buffer k @ inbox (S (read_half k))"
proof -
  obtain unread buf written where
    io: "io_copy e (inbox (S (read_half k)), copy_buffer k, outbox (S (write_half k))) = Some (unread, buf, written)"
    and S': "S' = S(read_half k := (S (read_half k))\<lparr>inbox := unread\<rparr>, write_half k := (S (write_half k))\<lparr>outbox := written\<rparr>)"
    and k': "k' = k\<lparr>copy_buffer := buf\<rparr>"
    using assms(2,3) by (auto simp: copy_on_def Let_def split: option.splits prod.splits)
  have "copy_move (inbox (S (read_half k)), copy_buffer k, outbox (S (write_half k))) (unread, buf, written)"
    using assms(1) io by (simp add: copy_faithful_def)
  then have "written @ buf @ unread = outbox (S (write_half k)) @ copy_buffer k @ inbox (S (read_half k))"
    by (auto simp: copy_move_iff)
  then show "read_half k' = read_half k" "write_half k' = write_half k" "\<And>s. peer_sent (S' s) = peer_sent (S s)"
    "\<And>s. peer_closed (S' s) = peer_closed (S s)"
    "outbox (S' (read_half k)) = outbox (S (read_half k))" "inbox (S' (write_half k)) = inbox (S (write_half k))"
    "outbox (S' (write_half k)) @ copy_buffer k' @ inbox (S' (read_half k)) =
       outbox (S (write_half k)) @ copy_buffer k @ inbox (S (read_half k))"
    using assms(3) by (auto simp: S' k')
qed

lemma conn_machine:
  assumes "copy_faithful io_copy"
  shows "step_machine (conn_step io_copy) conn_ok"
proof
  fix c c' e
  assume ok: "conn_ok c" and step: "conn_step io_copy e c = Some c'"
  show "conn_ok c'"
  proof (cases e)
    case (PeerSends s bs)
    with ok step show ?thesis by (auto simp: conn_ok_def copied_def split: if_splits)
  next
    case (PeerCloses s)
    with ok step show ?thesis by (auto simp: conn_ok_def copied_def)
  next
    case (Copy d ev)
    with step obtain S k where run: "ending c = Running" and c': "c' = put_copier d k (c\<lparr>socks := S\<rparr>)"
      and copy: "copy_on io_copy ev (get_copier d c) (socks c) = Some (S, k)"
      by (auto split: if_splits)
    have wired: "read_half (get_copier d c) = source d" "write_half (get_copier d c) = target d"
      using ok by (simp_all add: conn_ok_def)
    note eff = copy_on_effect [OF assms copy, unfolded wired, simplified]
    have other: "outbox (S (target d')) = outbox (socks c (target d'))" "inbox (S (source d')) = inbox (socks c (source d'))"
      if "d' \<noteq> d" for d'
    proof -
      have eqs: "target d' = source d" "source d' = target d" using that by simp_all
      show "outbox (S (target d')) = outbox (socks c (target d'))" "inbox (S (source d')) = inbox (socks c (source d'))"
        unfolding eqs using eff by simp_all
    qed
    show ?thesis
      using ok run eff other by (auto simp: conn_ok_def c')
  qed (use ok step in \<open>auto simp: conn_ok_def split: if_splits\<close>)
qed

section \<open>A copy in chunks\<close>

text \<open>A copy that meets the documentation: it reads and writes chunks of any size.\<close>

datatype chunk_event = ReadChunk nat | WriteChunk nat

fun chunk_copy :: "chunk_event \<Rightarrow> copy_state \<Rightarrow> copy_state option" where
  "chunk_copy (ReadChunk n) (unread, buf, written) =
     (if 0 < n \<and> n \<le> length unread then Some (drop n unread, buf @ take n unread, written) else None)"
| "chunk_copy (WriteChunk n) (unread, buf, written) =
     (if 0 < n \<and> n \<le> length buf then Some (unread, drop n buf, written @ take n buf) else None)"

lemma chunk_copy_faithful: "copy_faithful chunk_copy"
proof -
  have "copy_move st st'" if "chunk_copy e st = Some st'" for e st st'
    using that copy_move.reads [of "take n (fst st)" "drop n (fst st)" for n]
      copy_move.writes [of "fst st" "take n (fst (snd st))" "drop n (fst (snd st))" for n]
    by (cases e; cases st) (auto split: if_splits)
  then show ?thesis unfolding copy_faithful_def by blast
qed

interpretation conn_run: step_machine "conn_step chunk_copy" conn_ok
  by (rule conn_machine [OF chunk_copy_faithful])

lemma conn_new_ok: "conn_ok conn_new"
  unfolding conn_ok_def
proof
  show "read_half (get_copier d conn_new) = source d \<and> write_half (get_copier d conn_new) = target d \<and>
      peer_sent (socks conn_new (source d)) =
        outbox (socks conn_new (target d)) @ copy_buffer (get_copier d conn_new) @ inbox (socks conn_new (source d)) \<and>
      (ending conn_new = Finished d \<longrightarrow> copied (socks conn_new) (get_copier d conn_new))" for d
    by (cases d) (simp_all add: conn_new_def sock_new_def copy_half_def get_copier_def)
qed

text \<open>After the end of a connection nothing is delivered any more.\<close>

lemma conn_step_ended:
  "conn_step io_copy e c = Some c' \<Longrightarrow> ending c \<noteq> Running \<Longrightarrow>
     ending c' = ending c \<and> (\<forall>s. outbox (socks c' s) = outbox (socks c s))"
  by (cases e) (auto split: if_splits)

lemma run_ended:
  "opt_fold (conn_step io_copy) es c = Some c' \<Longrightarrow> ending c \<noteq> Running \<Longrightarrow>
     ending c' = ending c \<and> (\<forall>s. outbox (socks c' s) = outbox (socks c s))"
proof (induction es arbitrary: c)
  case (Cons e es)
  then obtain u where u: "conn_step io_copy e c = Some u" "opt_fold (conn_step io_copy) es u = Some c'"
    by (auto simp: bind_eq_Some_conv)
  from conn_step_ended [OF u(1) Cons.prems(2)] Cons.IH [OF u(2)] Cons.prems(2) show ?case by simp
qed simp

lemma accept_all_filter:
  "accept_all cid port accepts =
     map (\<lambda>peer. (peer, cid, port)) (List.map_filter (\<lambda>a. case a of Ok peer \<Rightarrow> Some peer | _ \<Rightarrow> None) accepts)"
  by (induction cid port accepts rule: accept_all.induct) (auto simp: map_filter_simps)

section \<open>Properties\<close>

text \<open>
  C35. A connection forwards each side to the other and to nothing else: however the peers send and close and the
  two copies and the end interleave, what the enclave has received is a prefix of what the client
  has sent, and what the client has received is a prefix of what the enclave has sent. When a
  direction has come to its end, all that its sender ever sent has been delivered; once the connection has
  ended, neither side receives anything more, in particular not the rest of the other direction.
\<close>

theorem forwarding_is_transparent:
  assumes "copy_faithful io_copy" "opt_fold (conn_step io_copy) events conn_new = Some c"
  shows "(\<exists>rest. peer_sent (socks c TcpStream) = outbox (socks c VsockStream) @ rest) \<and>
    (\<exists>rest. peer_sent (socks c VsockStream) = outbox (socks c TcpStream) @ rest) \<and>
    (ending c = Finished TcpToVsock \<longrightarrow> outbox (socks c VsockStream) = peer_sent (socks c TcpStream)) \<and>
    (ending c = Finished VsockToTcp \<longrightarrow> outbox (socks c TcpStream) = peer_sent (socks c VsockStream)) \<and>
    (\<forall>later c'. ending c \<noteq> Running \<longrightarrow> opt_fold (conn_step io_copy) later c = Some c' \<longrightarrow>
       outbox (socks c' TcpStream) = outbox (socks c TcpStream) \<and>
       outbox (socks c' VsockStream) = outbox (socks c VsockStream))"
proof -
  have "conn_ok c"
    by (rule step_machine.run_invar [OF conn_machine [OF assms(1)] conn_new_ok assms(2)])
  then have dir: "peer_sent (socks c (source d)) =
        outbox (socks c (target d)) @ copy_buffer (get_copier d c) @ inbox (socks c (source d))"
      "read_half (get_copier d c) = source d" "ending c = Finished d \<longrightarrow> copied (socks c) (get_copier d c)" for d
    by (simp_all add: conn_ok_def)
  from dir [of TcpToVsock] dir [of VsockToTcp] run_ended [of io_copy _ c] show ?thesis
    by (auto simp: copied_def)
qed

theorem forwarding_is_transparent_witness:
  "\<exists>c. opt_fold (conn_step chunk_copy)
      [PeerSends TcpStream [1, 2, 3], PeerSends VsockStream [9], Copy TcpToVsock (ReadChunk 2),
       Copy TcpToVsock (WriteChunk 1)] conn_new = Some c \<and>
     outbox (socks c VsockStream) = [1] \<and> outbox (socks c TcpStream) = [] \<and>
     (\<exists>rest. peer_sent (socks c TcpStream) = outbox (socks c VsockStream) @ rest)"
proof -
  obtain c where c: "opt_fold (conn_step chunk_copy)
      [PeerSends TcpStream [1, 2, 3], PeerSends VsockStream [9], Copy TcpToVsock (ReadChunk 2),
       Copy TcpToVsock (WriteChunk 1)] conn_new = Some c"
    "outbox (socks c VsockStream) = [1]" "outbox (socks c TcpStream) = []"
    by (simp add: conn_new_def sock_new_def get_copier_def put_copier_def copy_half_def copy_on_def)
  then show ?thesis using forwarding_is_transparent [OF chunk_copy_faithful c(1)] by blast
qed

text \<open>
  The sidecar serves every accepted connection on the enclave's vsock address of its
  configuration, in order, whatever accepts fail in between; it refuses to start exactly when the
  configuration, the log subscriber or the bind fails.
\<close>

lemma proxy_main_exact:
  "proxy_main env rust_log try_init bind accepts = Ok spawned \<longleftrightarrow>
     (\<exists>cfg. proxy_from_env env = Ok cfg \<and> enclave_cid cfg \<noteq> 0 \<and> \<not> trim_is_empty (main_app_addr cfg) \<and>
        try_init (case rust_log of Some f \<Rightarrow> f | None \<Rightarrow> proxy_log_level cfg) = Ok () \<and> bind = Ok () \<and>
        spawned = map (\<lambda>peer. (peer, enclave_cid cfg, enclave_port cfg))
          (List.map_filter (\<lambda>a. case a of Ok peer \<Rightarrow> Some peer | _ \<Rightarrow> None) accepts))"
  by (auto simp: proxy_main_def proxy_telemetry_init_def Let_def proxy_run_def proxy_from_env_def proxy_validate_def result_simps
      accept_all_filter split: if_splits)

text \<open>
  The three bridges of the enclave use three different ports, each task they spawn connects to
  the parent's CID on the bridge's own port, and a failed start of the log bridge only costs the
  log writer, whereas a failed bind of one of the other two is an error.
\<close>

lemma bridges:
  "distinct [OTLP_PORT, LOG_PORT, IMDS_PORT] \<and>
   (start_otlp_bridge cid bind accepts = Ok tasks \<longleftrightarrow> bind = Ok () \<and> tasks = accept_all cid OTLP_PORT accepts) \<and>
   (start_imds_bridge cid bind accepts = Ok tasks \<longleftrightarrow> bind = Ok () \<and> tasks = accept_all cid IMDS_PORT accepts) \<and>
   (start_log_bridge cid bind writer accepts =
      (if bind = Ok () then (accept_all cid LOG_PORT accepts, writer) else ([], None)))"
  by (auto simp: OTLP_PORT_def LOG_PORT_def IMDS_PORT_def start_otlp_bridge_def start_imds_bridge_def
      start_log_bridge_def result_simps)

end
