(* ===== verification/Connector.thy ===== *)
theory Connector
  imports Rust_Str
begin

text \<open>
  The vsock connector of the AWS clients (\<open>src/crates/enclave/src/aws/vsock_connector.rs\<close>) and the
  log writer (\<open>src/crates/enclave/src/telemetry/log_writer.rs\<close>): how a request's host picks the
  address to connect to, and how the calls on the resulting stream reach the underlying socket.
  The sockets are third-party; their operations are the fields of \<open>socket_ops\<close>.
\<close>

section \<open>Addresses\<close>

text \<open>
  The images build the crate with the release profile of \<open>src/Cargo.toml\<close>, which leaves overflow checks off:
  \<open>u32\<close> addition wraps. (A debug build would panic there.)
\<close>

definition vsock_port :: "string \<Rightarrow> u32 \<Rightarrow> u32" where
  "vsock_port host base_port =
     (if starts_with host ''kms.'' then base_port + 1
      else if starts_with host ''secretsmanager.'' then base_port + 2
      else if starts_with host ''s3.'' \<or> host = ''s3.amazonaws.com'' \<or> contains host ''.s3.''
      then base_port + 3
      else base_port + 1)"

record connector =
  conn_cid :: u32
  conn_base_port :: u32

definition connector_new :: "u32 \<Rightarrow> u32 \<Rightarrow> connector" where
  "connector_new cid base_port = \<lparr>conn_cid = cid, conn_base_port = base_port\<rparr>"

text \<open>What the connector reads of a URI.\<close>

record uri =
  uri_host :: "string option"
  uri_port :: "u16 option"

datatype ('v, 't) raw_stream = Vsock 'v | Tcp 't

text \<open>\<open>call\<close>: the two connects are third-party operations.\<close>

definition connector_call ::
  "(string \<Rightarrow> u16 \<Rightarrow> ('t, anyhow) result) \<Rightarrow> (u32 \<Rightarrow> u32 \<Rightarrow> ('v, anyhow) result) \<Rightarrow>
     connector \<Rightarrow> uri \<Rightarrow> (('v, 't) raw_stream, anyhow) result" where
  "connector_call tcp_connect vsock_connect c u =
     (let host = (case uri_host u of Some h \<Rightarrow> h | None \<Rightarrow> '''') in
      if host = ''127.0.0.1'' \<or> host = ''localhost'' then
        (let port = (case uri_port u of Some p \<Rightarrow> p | None \<Rightarrow> 80) in
         and_then (with_context (tcp_connect host port)
             (''TCP connect to '' @ host @ '':'' @ show_nat (unat port))) (\<lambda>s. Ok (Tcp s)))
      else
        (let port = vsock_port host (conn_base_port c) in
         and_then (with_context (vsock_connect (conn_cid c) port)
             (''vsock connect to CID='' @ show_nat (unat (conn_cid c)) @ '' port='' @
              show_nat (unat port) @ '' for '' @ host)) (\<lambda>s. Ok (Vsock s))))"

section \<open>The stream\<close>

datatype 'a poll = Pending | Ready 'a

text \<open>
  An operation gives the socket's next state. A read is told how much room the buffer has and
  gives the bytes it has put there.
\<close>

record 's socket_ops =
  sock_read :: "'s \<Rightarrow> nat \<Rightarrow> 's \<times> (u8 list, anyhow) result poll"
  sock_write :: "'s \<Rightarrow> u8 list \<Rightarrow> 's \<times> (nat, anyhow) result poll"
  sock_flush :: "'s \<Rightarrow> 's \<times> (unit, anyhow) result poll"
  sock_shutdown :: "'s \<Rightarrow> 's \<times> (unit, anyhow) result poll"

text \<open>The caller's buffer: what has been filled, and the room left.\<close>

record cursor =
  filled :: "u8 list"
  room :: nat

definition on_stream ::
  "('v \<Rightarrow> 'v \<times> 'r) \<Rightarrow> ('t \<Rightarrow> 't \<times> 'r) \<Rightarrow> ('v, 't) raw_stream \<Rightarrow> ('v, 't) raw_stream \<times> 'r" where
  "on_stream f g s =
     (case s of Vsock v \<Rightarrow> (case f v of (v', r) \<Rightarrow> (Vsock v', r))
              | Tcp t \<Rightarrow> (case g t of (t', r) \<Rightarrow> (Tcp t', r)))"

definition poll_read ::
  "('v, 'x) socket_ops_scheme \<Rightarrow> ('t, 'y) socket_ops_scheme \<Rightarrow> ('v, 't) raw_stream \<Rightarrow> cursor \<Rightarrow>
     ('v, 't) raw_stream \<times> cursor \<times> (unit, anyhow) result poll" where
  "poll_read V T s buf =
     (case on_stream (\<lambda>v. sock_read V v (room buf)) (\<lambda>t. sock_read T t (room buf)) s of
        (s', Ready (Ok bs)) \<Rightarrow>
          (s', \<lparr>filled = filled buf @ bs, room = room buf - length bs\<rparr>, Ready (Ok ()))
      | (s', Ready (Err e)) \<Rightarrow> (s', buf, Ready (Err e))
      | (s', Ready Panic) \<Rightarrow> (s', buf, Ready Panic)
      | (s', Pending) \<Rightarrow> (s', buf, Pending))"

definition poll_write ::
  "('v, 'x) socket_ops_scheme \<Rightarrow> ('t, 'y) socket_ops_scheme \<Rightarrow> ('v, 't) raw_stream \<Rightarrow> u8 list \<Rightarrow>
     ('v, 't) raw_stream \<times> (nat, anyhow) result poll" where
  "poll_write V T s buf = on_stream (\<lambda>v. sock_write V v buf) (\<lambda>t. sock_write T t buf) s"

definition poll_flush ::
  "('v, 'x) socket_ops_scheme \<Rightarrow> ('t, 'y) socket_ops_scheme \<Rightarrow> ('v, 't) raw_stream \<Rightarrow>
     ('v, 't) raw_stream \<times> (unit, anyhow) result poll" where
  "poll_flush V T s = on_stream (sock_flush V) (sock_flush T) s"

definition poll_shutdown ::
  "('v, 'x) socket_ops_scheme \<Rightarrow> ('t, 'y) socket_ops_scheme \<Rightarrow> ('v, 't) raw_stream \<Rightarrow>
     ('v, 't) raw_stream \<times> (unit, anyhow) result poll" where
  "poll_shutdown V T s = on_stream (sock_shutdown V) (sock_shutdown T) s"

section \<open>The log writer\<close>

text \<open>
  A connected stream behind a lock. \<open>lock\<close> is the outcome of taking it (\<open>False\<close>: poisoned);
  \<open>write_stream\<close> and \<open>flush_stream\<close> are the stream's own operations. The result is the new
  stream and what the caller sees.
\<close>

definition try_connect :: "(string \<Rightarrow> ('s, anyhow) result) \<Rightarrow> string \<Rightarrow> 's option" where
  "try_connect connect addr = (case connect addr of Ok s \<Rightarrow> Some s | _ \<Rightarrow> None)"

definition writer_write ::
  "('s \<Rightarrow> u8 list \<Rightarrow> 's \<times> (nat, anyhow) result) \<Rightarrow> bool \<Rightarrow> 's \<Rightarrow> u8 list \<Rightarrow>
     's \<times> (nat, anyhow) result" where
  "writer_write write_stream lock s buf =
     (if lock then
        (case write_stream s buf of
           (s', Err _) \<Rightarrow> (s', Ok (length buf))
         | (s', r) \<Rightarrow> (s', r))
      else (s, Ok (length buf)))"

definition writer_flush ::
  "('s \<Rightarrow> 's \<times> (unit, anyhow) result) \<Rightarrow> bool \<Rightarrow> 's \<Rightarrow> 's \<times> (unit, anyhow) result" where
  "writer_flush flush_stream lock s =
     (if lock then
        (case flush_stream s of (s', Err _) \<Rightarrow> (s', Ok ()) | (s', r) \<Rightarrow> (s', r))
      else (s, Ok ()))"

definition make_writer :: "'s \<Rightarrow> 's" where
  "make_writer s = s"

section \<open>Lemmas\<close>

text \<open>A read never gives more bytes than the buffer has room for, as the sockets document.\<close>

definition read_within :: "('s, 'x) socket_ops_scheme \<Rightarrow> bool" where
  "read_within S \<longleftrightarrow> (\<forall>s n s' bs. sock_read S s n = (s', Ready (Ok bs)) \<longrightarrow> length bs \<le> n)"

text \<open>A socket that hands out the bytes of a list.\<close>

definition list_socket :: "u8 list socket_ops" where
  "list_socket =
     \<lparr>sock_read = (\<lambda>s n. (drop n s, Ready (Ok (take n s)))),
      sock_write = (\<lambda>s buf. (s, Ready (Ok (length buf)))),
      sock_flush = (\<lambda>s. (s, Ready (Ok ()))),
      sock_shutdown = (\<lambda>s. (s, Ready (Ok ())))\<rparr>"

lemma list_socket_within: "read_within list_socket"
  by (auto simp: read_within_def list_socket_def)

lemma on_stream_read_fits:
  assumes "read_within V" "read_within T"
    and "on_stream (\<lambda>v. sock_read V v n) (\<lambda>t. sock_read T t n) s = (s', Ready (Ok bs))"
  shows "length bs \<le> n"
  using assms by (cases s) (auto simp: on_stream_def read_within_def split: prod.splits)

lemma vsock_port_range: "vsock_port host b \<in> {b + 1, b + 2, b + 3}"
  by (simp add: vsock_port_def)

section \<open>Properties\<close>

text \<open>
  The port mapping of the module's documentation: base + 1 for KMS, base + 2 for Secrets
  Manager, base + 3 for S3, path-style and virtual-hosted for a bucket whose name does not start
  like one of the other services; the three ports are different for every base, wrap-around
  included.
\<close>

lemma port_mapping:
  assumes "\<not> starts_with (bucket @ ''.s3.'' @ rest) ''kms.''"
    and "\<not> starts_with (bucket @ ''.s3.'' @ rest) ''secretsmanager.''"
  shows "vsock_port (''kms.'' @ rest) b = b + 1 \<and>
    vsock_port (''secretsmanager.'' @ rest) b = b + 2 \<and>
    vsock_port (''s3.'' @ rest) b = b + 3 \<and>
    vsock_port (bucket @ ''.s3.'' @ rest) b = b + 3 \<and>
    distinct [b + 1, b + 2, b + 3]"
proof -
  have "contains (bucket @ ''.s3.'' @ rest) ''.s3.''" unfolding contains_iff by blast
  then have "vsock_port (bucket @ ''.s3.'' @ rest) b = b + 3"
    using assms by (simp add: vsock_port_def)
  then show ?thesis by (simp add: vsock_port_def starts_with_def)
qed

text \<open>
  A bucket named like a service is sent to that service's port: the virtual-hosted host of a
  bucket whose name starts with \<open>kms.\<close> or \<open>secretsmanager.\<close> is never given the S3 port.
\<close>

lemma bucket_misrouted:
  "vsock_port (''kms.'' @ name @ ''.s3.'' @ rest) b = b + 1 \<and> b + 1 \<noteq> b + 3 \<and>
   vsock_port (''secretsmanager.'' @ name @ ''.s3.'' @ rest) b = b + 2 \<and> b + 2 \<noteq> b + 3"
  by (simp add: vsock_port_def starts_with_def)

lemma unat_port_add: "k < 2 ^ 32 \<Longrightarrow> unat (b + of_nat k :: u32) = (unat b + k) mod 2 ^ 32"
  by (simp add: unat_word_ariths unat_of_nat)

text \<open>
  C37. The ports of the three services, for every base: KMS has the base plus one, Secrets Manager plus two,
  S3 plus three, by the name of the service or of a bucket, all modulo \<open>2 ^ 32\<close>. The port that some
  host is given lies below the base exactly when the base is one of the three largest, which the
  configuration admits.
\<close>

theorem port_bounds:
  assumes "\<not> starts_with (bucket @ ''.s3.'' @ rest) ''kms.''"
    and "\<not> starts_with (bucket @ ''.s3.'' @ rest) ''secretsmanager.''"
  shows "unat (vsock_port (''kms.'' @ rest) b) = (unat b + 1) mod 2 ^ 32 \<and>
    unat (vsock_port (''secretsmanager.'' @ rest) b) = (unat b + 2) mod 2 ^ 32 \<and>
    unat (vsock_port (''s3.'' @ rest) b) = (unat b + 3) mod 2 ^ 32 \<and>
    unat (vsock_port (bucket @ ''.s3.'' @ rest) b) = (unat b + 3) mod 2 ^ 32 \<and>
    ((\<exists>host. unat (vsock_port host b) < unat b) \<longleftrightarrow> 2 ^ 32 - 3 \<le> unat b)"
proof -
  note ports = port_mapping [OF assms, of b]
  have add: "unat (b + 1) = (unat b + 1) mod 2 ^ 32" "unat (b + 2) = (unat b + 2) mod 2 ^ 32"
    "unat (b + 3) = (unat b + 3) mod 2 ^ 32"
    using unat_port_add [of 1 b] unat_port_add [of 2 b] unat_port_add [of 3 b] by simp_all
  have b: "unat b < 2 ^ 32" using unsigned_less [of b] by simp
  have "2 ^ 32 - 3 \<le> unat b" if "unat (vsock_port host b) < unat b" for host
  proof (rule ccontr)
    assume "\<not> ?thesis"
    then have "unat b + 3 < 2 ^ 32" by simp
    then show False using that vsock_port_range [of host b] add by auto
  qed
  moreover have "unat (vsock_port (''s3.'' @ rest) b) < unat b" if "2 ^ 32 - 3 \<le> unat b"
  proof -
    have "(unat b + 3) mod 2 ^ 32 = unat b + 3 - 2 ^ 32" using that b by (simp add: mod_if)
    then show ?thesis using that ports add(3) b by simp
  qed
  ultimately have "(\<exists>host. unat (vsock_port host b) < unat b) \<longleftrightarrow> 2 ^ 32 - 3 \<le> unat b" by blast
  moreover have "unat (vsock_port (''kms.'' @ rest) b) = (unat b + 1) mod 2 ^ 32"
    "unat (vsock_port (''secretsmanager.'' @ rest) b) = (unat b + 2) mod 2 ^ 32"
    "unat (vsock_port (''s3.'' @ rest) b) = (unat b + 3) mod 2 ^ 32"
    "unat (vsock_port (bucket @ ''.s3.'' @ rest) b) = (unat b + 3) mod 2 ^ 32"
    using ports by (simp_all only: add)
  ultimately show ?thesis by (intro conjI)
qed

theorem port_bounds_witness:
  "unat (vsock_port ''kms.us-east-2.amazonaws.com'' 8000) = 8001 \<and>
   unat (vsock_port ''b.s3.us-east-2.amazonaws.com'' 0xFFFFFFFE) = 1"
proof -
  have other: "\<not> starts_with (''b'' @ ''.s3.'' @ ''us-east-2.amazonaws.com'') ''kms.''"
    "\<not> starts_with (''b'' @ ''.s3.'' @ ''us-east-2.amazonaws.com'') ''secretsmanager.''"
    by (simp_all add: starts_with_def)
  from port_bounds [OF other, where b = 8000] port_bounds [OF other, where b = "0xFFFFFFFE"] show ?thesis by simp
qed

text \<open>
  The connector reaches nothing but the loopback interface and the parent: its outcome depends
  only on TCP connects to \<open>127.0.0.1\<close> and \<open>localhost\<close> and on vsock connects to the configured CID
  at the three service ports, whatever the URI is.
\<close>

lemma connector_confined:
  assumes "\<forall>p. tcp ''127.0.0.1'' p = tcp' ''127.0.0.1'' p" "\<forall>p. tcp ''localhost'' p = tcp' ''localhost'' p"
    and "\<forall>port \<in> {conn_base_port c + 1, conn_base_port c + 2, conn_base_port c + 3}.
      vsock (conn_cid c) port = vsock' (conn_cid c) port"
  shows "connector_call tcp vsock c u = connector_call tcp' vsock' c u"
proof -
  have "vsock (conn_cid c) (vsock_port host (conn_base_port c)) =
      vsock' (conn_cid c) (vsock_port host (conn_base_port c))" for host
    using assms(3) vsock_port_range by blast
  with assms(1,2) show ?thesis by (auto simp: connector_call_def Let_def)
qed

text \<open>
  \<open>poll_read\<close> fills the buffer with exactly the bytes the socket gave and never beyond its
  end: filled bytes and room add up to the same capacity, and a pending or failed read leaves the
  buffer as it was.
\<close>

lemma poll_read_fills:
  assumes "read_within V" "read_within T" "poll_read V T s buf = (s', buf', r)"
  shows "length (filled buf') + room buf' = length (filled buf) + room buf \<and>
    (\<exists>bs. filled buf' = filled buf @ bs) \<and> (r \<noteq> Ready (Ok ()) \<longrightarrow> buf' = buf)"
proof (cases "on_stream (\<lambda>v. sock_read V v (room buf)) (\<lambda>t. sock_read T t (room buf)) s")
  case (Pair s1 p)
  show ?thesis
  proof (cases p)
    case (Ready x)
    show ?thesis
    proof (cases x)
      case (Ok bs)
      have "length bs \<le> room buf"
        using on_stream_read_fits [OF assms(1,2)] Pair Ready Ok by blast
      then show ?thesis using assms(3) Pair Ready Ok by (auto simp: poll_read_def)
    qed (use assms(3) Pair Ready in \<open>auto simp: poll_read_def\<close>)
  qed (use assms(3) Pair in \<open>auto simp: poll_read_def\<close>)
qed

text \<open>
  A stream is its socket: a session of writes, flushes and shutdowns on a stream leaves the same kind of stream,
  with the socket as if the session had been run on it directly, and sees the same outcomes. The other
  kind of socket is never touched.
\<close>

datatype stream_op = PollWrite "u8 list" | PollFlush | PollShutdown

datatype op_outcome = Wrote "(nat, anyhow) result poll" | Finished_Op "(unit, anyhow) result poll"

fun socket_op :: "('s, 'x) socket_ops_scheme \<Rightarrow> stream_op \<Rightarrow> 's \<Rightarrow> 's \<times> op_outcome" where
  "socket_op S (PollWrite buf) s = map_prod id Wrote (sock_write S s buf)"
| "socket_op S PollFlush s = map_prod id Finished_Op (sock_flush S s)"
| "socket_op S PollShutdown s = map_prod id Finished_Op (sock_shutdown S s)"

fun stream_op_on ::
  "('v, 'x) socket_ops_scheme \<Rightarrow> ('t, 'y) socket_ops_scheme \<Rightarrow> stream_op \<Rightarrow> ('v, 't) raw_stream \<Rightarrow>
     ('v, 't) raw_stream \<times> op_outcome" where
  "stream_op_on V T (PollWrite buf) s = map_prod id Wrote (poll_write V T s buf)"
| "stream_op_on V T PollFlush s = map_prod id Finished_Op (poll_flush V T s)"
| "stream_op_on V T PollShutdown s = map_prod id Finished_Op (poll_shutdown V T s)"

fun session :: "('o \<Rightarrow> 's \<Rightarrow> 's \<times> 'r) \<Rightarrow> 'o list \<Rightarrow> 's \<Rightarrow> 's \<times> 'r list" where
  "session step [] s = (s, [])"
| "session step (op # ops) s =
     (case step op s of (s', r) \<Rightarrow> (case session step ops s' of (s'', rs) \<Rightarrow> (s'', r # rs)))"

lemma session_simulation:
  assumes "\<And>op s. step' op (f s) = map_prod f id (step op s)"
  shows "session step' ops (f s) = map_prod f id (session step ops s)"
  by (induction ops arbitrary: s) (simp_all add: assms split: prod.split)

lemma stream_is_its_socket:
  "session (stream_op_on V T) ops (Vsock v) = map_prod Vsock id (session (socket_op V) ops v)"
  "session (stream_op_on V T) ops (Tcp t) = map_prod Tcp id (session (socket_op T) ops t)"
proof -
  have ops: "stream_op_on V T op (Vsock s) = map_prod Vsock id (socket_op V op s)"
    "stream_op_on V T op (Tcp s') = map_prod Tcp id (socket_op T op s')" for op s s'
    by (cases op; simp add: poll_write_def poll_flush_def poll_shutdown_def on_stream_def split: prod.split)+
  show "session (stream_op_on V T) ops (Vsock v) = map_prod Vsock id (session (socket_op V) ops v)"
    by (rule session_simulation [where f = Vsock]) (rule ops(1))
  show "session (stream_op_on V T) ops (Tcp t) = map_prod Tcp id (session (socket_op T) ops t)"
    by (rule session_simulation [where f = Tcp]) (rule ops(2))
qed

text \<open>
  Logging never fails: the writer answers \<open>Ok\<close> to every write and flush, whether the lock is
  poisoned, the connection is broken or the stream works, and it never claims more bytes than it
  was given if the stream does not.
\<close>

lemma log_writer_never_fails:
  assumes "\<And>s buf. snd (write_stream s buf) \<noteq> Panic" "\<And>s. snd (flush_stream s) \<noteq> Panic"
    and "\<And>s buf s' n. write_stream s buf = (s', Ok n) \<Longrightarrow> n \<le> length buf"
  shows "(\<exists>n \<le> length buf. snd (writer_write write_stream lock s buf) = Ok n) \<and>
    snd (writer_flush flush_stream lock s) = Ok ()"
proof
  show "\<exists>n \<le> length buf. snd (writer_write write_stream lock s buf) = Ok n"
    using assms(1) [of s buf] assms(3) [of s buf]
    by (cases "write_stream s buf"; cases "snd (write_stream s buf)") (auto simp: writer_write_def)
  show "snd (writer_flush flush_stream lock s) = Ok ()"
    using assms(2) [of s]
    by (cases "flush_stream s"; cases "snd (flush_stream s)") (auto simp: writer_flush_def)
qed

end
