(* ===== verification/Aws_Clients.thy ===== *)
theory Aws_Clients
  imports Connector
begin

text \<open>
  The AWS clients (\<open>src/crates/enclave/src/aws/clients.rs\<close>): the adapter through which the SDK sends
  its requests over the vsock connector, the factory that hands this adapter out, and the three
  clients built around it. The SDK, hyper and rustls are third-party: what the source calls of them
  are the fields of \<open>sdk_http\<close> and \<open>sdk_builders\<close>.
\<close>

section \<open>The adapter\<close>

text \<open>\<open>VsockAdapter\<close> wraps a hyper client, whose type is \<open>'hyper\<close>.\<close>

record 'hyper vsock_adapter =
  adapter_client :: 'hyper

definition fmt_vsock_adapter :: "'hyper vsock_adapter \<Rightarrow> string" where
  "fmt_vsock_adapter a = ''VsockAdapter { .. }''"

text \<open>The kinds of \<open>ConnectorError\<close> that the adapter makes; the SDK decides by them whether to retry.\<close>

datatype connector_error =
    ConnectorUser string
  | ConnectorIo string
  | ConnectorOther string

record ('hyper, 'req, 'req1, 'resp1, 'resp) sdk_http =
  try_into_http1x :: "'req \<Rightarrow> ('req1, string) result"
  oneshot :: "'hyper \<Rightarrow> 'req1 \<Rightarrow> ('resp1, string) result"
  from_body_1_x :: "'resp1 \<Rightarrow> 'resp1"
  response_try_from :: "'resp1 \<Rightarrow> ('resp, string) result"

text \<open>\<open>HttpConnector::call\<close>: a request that cannot be converted is refused before anything is sent.\<close>

definition adapter_call ::
  "('hyper, 'req, 'req1, 'resp1, 'resp, 'x) sdk_http_scheme \<Rightarrow> 'hyper vsock_adapter \<Rightarrow> 'req \<Rightarrow>
     ('resp, connector_error) result" where
  "adapter_call H a request =
     (case try_into_http1x H request of
        Err e \<Rightarrow> Err (ConnectorUser e)
      | Panic \<Rightarrow> Panic
      | Ok req \<Rightarrow>
          and_then (map_err ConnectorIo (oneshot H (adapter_client a) req)) (\<lambda>response.
            map_err ConnectorOther (response_try_from H (from_body_1_x H response))))"

section \<open>The factory\<close>

record 'hyper vsock_http_client =
  fixed_connector :: "'hyper vsock_adapter"

definition fmt_vsock_http_client :: "'hyper vsock_http_client \<Rightarrow> string" where
  "fmt_vsock_http_client c = ''VsockHttpClient { .. }''"

text \<open>\<open>HttpClient::http_connector\<close> ignores the settings and the components of the SDK.\<close>

definition http_connector ::
  "'hyper vsock_http_client \<Rightarrow> 'settings \<Rightarrow> 'components \<Rightarrow> 'hyper vsock_adapter" where
  "http_connector c settings components = fixed_connector c"

section \<open>The clients\<close>

text \<open>
  What \<open>init\<close> calls: the rustls connector around the raw one (webpki roots, \<open>https\<close> or \<open>http\<close>,
  HTTP/1 only), the hyper client, the SDK configuration and the three clients. \<open>'o\<close> is the type of
  the objects of these crates.
\<close>

record 'o sdk_builders =
  wrap_connector :: "connector \<Rightarrow> 'o"
  build_client :: "'o \<Rightarrow> 'o"
  load_defaults :: "'o vsock_http_client \<Rightarrow> 'o"
  kms_client_new :: "'o \<Rightarrow> 'o"
  secretsmanager_client_new :: "'o \<Rightarrow> 'o"
  s3_client_new :: "'o \<Rightarrow> 'o"

record 'o aws_clients =
  kms :: 'o
  secretsmanager :: 'o
  s3 :: 'o

definition aws_clients_init ::
  "('o, 'x) sdk_builders_scheme \<Rightarrow> u32 \<Rightarrow> u32 \<Rightarrow> ('o aws_clients, anyhow) result" where
  "aws_clients_init B vsock_proxy_cid vsock_proxy_port =
     (let raw = connector_new vsock_proxy_cid vsock_proxy_port;
          https_connector = wrap_connector B raw;
          hyper_client = build_client B https_connector;
          http_client = \<lparr>fixed_connector = \<lparr>adapter_client = hyper_client\<rparr>\<rparr>;
          sdk_config = load_defaults B http_client
      in Ok \<lparr>kms = kms_client_new B sdk_config,
             secretsmanager = secretsmanager_client_new B sdk_config,
             s3 = s3_client_new B sdk_config\<rparr>)"

section \<open>Lemmas\<close>

text \<open>An answer needs all three stages; the kind of an error names the stage that failed.\<close>

lemma adapter_call_Ok_iff:
  "adapter_call H a request = Ok resp \<longleftrightarrow>
     (\<exists>req response. try_into_http1x H request = Ok req \<and> oneshot H (adapter_client a) req = Ok response \<and>
        response_try_from H (from_body_1_x H response) = Ok resp)"
  by (cases "try_into_http1x H request") (auto simp: adapter_call_def result_simps)

lemma adapter_call_Err_iff:
  "adapter_call H a request = Err err \<longleftrightarrow>
     (\<exists>e. try_into_http1x H request = Err e \<and> err = ConnectorUser e) \<or>
     (\<exists>req e. try_into_http1x H request = Ok req \<and> oneshot H (adapter_client a) req = Err e \<and>
        err = ConnectorIo e) \<or>
     (\<exists>req response e. try_into_http1x H request = Ok req \<and> oneshot H (adapter_client a) req = Ok response \<and>
        response_try_from H (from_body_1_x H response) = Err e \<and> err = ConnectorOther e)"
  by (cases "try_into_http1x H request") (auto simp: adapter_call_def result_simps err_simps)

text \<open>A request that is refused as malformed was never handed to the network.\<close>

lemma adapter_call_user_not_sent:
  assumes "adapter_call H a request = Err (ConnectorUser e)"
  shows "adapter_call (H\<lparr>oneshot := f\<rparr>) a request = Err (ConnectorUser e)"
  using assms by (auto simp: adapter_call_Err_iff)

lemma aws_clients_init_Ok:
  "\<exists>clients. aws_clients_init B cid port = Ok clients"
  by (simp add: aws_clients_init_def Let_def)

end
