(* ===== verification/Service.thy ===== *)
theory Service
  imports Router Relay Aws_Clients
begin

text \<open>
  The enclave binary as a whole (\<open>src/crates/enclave/src/main.rs\<close>, with \<open>telemetry/init.rs\<close>
  and \<open>server/tls.rs\<close>): the startup sequence, the accept loop, and the running
  service as a machine whose steps are the ticks of the two background tasks and the requests,
  in any order.
\<close>

section \<open>Telemetry and TLS\<close>

datatype 'w layer = FilterLayer string | StderrLayer | OtelLayer | TcpLayer 'w

text \<open>The attributes of every exported span and metric; the version is the crate's.\<close>

definition service_resource :: "(string \<times> string) list" where
  "service_resource = [(''service.name'', ''nitro-enc-svc''), (''service.version'', ''0.1.0'')]"

text \<open>The pipelines of the OTLP crate: endpoint, resource and, for metrics, the export period in seconds.\<close>

record 'w telemetry_io =
  build_meter_provider :: "string \<Rightarrow> (string \<times> string) list \<Rightarrow> nat \<Rightarrow> (unit, anyhow) result"
  install_tracer :: "string \<Rightarrow> (string \<times> string) list \<Rightarrow> (unit, anyhow) result"
  try_init_layers :: "'w layer list \<Rightarrow> (unit, anyhow) result"
  rust_log :: "string option"

text \<open>
  The first component tells whether the global meter provider has been set, an effect that stays
  when a later step fails.
\<close>

definition init_telemetry ::
  "('w, 'x) telemetry_io_scheme \<Rightarrow> string \<Rightarrow> string \<Rightarrow> 'w option \<Rightarrow> bool \<times> (unit, anyhow) result" where
  "init_telemetry tio otlp_endpoint level log_writer =
     (case with_context (build_meter_provider tio otlp_endpoint service_resource 15)
             ''failed to install OTLP metrics pipeline'' of
        Err e \<Rightarrow> (False, Err e)
      | Panic \<Rightarrow> (False, Panic)
      | Ok _ \<Rightarrow>
          (True,
           and_then (with_context (install_tracer tio otlp_endpoint service_resource)
               ''failed to install OTLP tracing pipeline'') (\<lambda>_.
           (let env_filter = (case rust_log tio of Some f \<Rightarrow> f | None \<Rightarrow> level);
                registry = [FilterLayer env_filter, StderrLayer, OtelLayer]
            in with_context
                 (case log_writer of
                    Some w \<Rightarrow> try_init_layers tio (registry @ [TcpLayer w])
                  | None \<Rightarrow> try_init_layers tio registry)
                 ''failed to initialise tracing subscriber''))))"

record ('cert, 'key, 'cfg) tls_io =
  parse_certs :: "u8 list \<Rightarrow> ('cert list, anyhow) result"
  parse_private_key :: "u8 list \<Rightarrow> ('key option, anyhow) result"
  with_single_cert :: "'cert list \<Rightarrow> 'key \<Rightarrow> ('cfg, anyhow) result"

record 'cfg server_config =
  tls_base :: 'cfg
  alpn_protocols :: "string list"

definition build_server_config ::
  "('cert, 'key, 'cfg, 'x) tls_io_scheme \<Rightarrow> u8 list \<Rightarrow> u8 list \<Rightarrow> ('cfg server_config, anyhow) result" where
  "build_server_config tls cert_pem key_pem =
     and_then (with_context (parse_certs tls cert_pem) ''failed to parse TLS certificate chain'') (\<lambda>certs.
     and_then (with_context (parse_private_key tls key_pem) ''failed to read TLS private key'') (\<lambda>k.
     and_then (ok_or k [''no private key found in PEM data'']) (\<lambda>key.
     and_then (with_context (with_single_cert tls certs key) ''failed to build rustls ServerConfig'') (\<lambda>c.
       Ok \<lparr>tls_base = c, alpn_protocols = [''http/1.1'', ''h2'']\<rparr>))))"

section \<open>Startup\<close>

text \<open>
  What the outside answers during startup. The AWS calls are made through the clients, so their
  answers depend on them.
\<close>

record ('w, 'cert, 'key, 'cfg, 'o, 'n) startup_io =
  provider_installed :: bool
  start_env :: "(environment, anyhow) result"
  imds_bind :: "(unit, anyhow) result"
  otlp_bind :: "(unit, anyhow) result"
  log_bind :: "(unit, anyhow) result"
  log_connect :: "string \<Rightarrow> ('w, anyhow) result"
  start_telemetry :: "'w telemetry_io"
  start_sdk :: "'o sdk_builders"
  start_dek_aws :: "'o aws_clients \<Rightarrow> dek_aws"
  start_s3 :: "'o aws_clients \<Rightarrow> 'n s3_io"
  read_file :: "string \<Rightarrow> (u8 list, anyhow) result"
  start_tls :: "('cert, 'key, 'cfg) tls_io"
  vsock_bind :: "u32 \<Rightarrow> u32 \<Rightarrow> (unit, anyhow) result"

definition VMADDR_CID_ANY :: u32 where
  "VMADDR_CID_ANY = 0xFFFFFFFF"

text \<open>The running service: its state, configuration, connector, TLS and the address it listens on.\<close>

record ('cfg, 'o, 'n) service =
  service_state :: "'n app_state"
  service_config :: config
  service_aws :: "'o aws_clients"
  service_tls :: "'cfg server_config"
  service_addr :: "u32 \<times> u32"

text \<open>Steps 1 to 5 of \<open>main\<close>, up to the key.\<close>

definition startup_dek ::
  "('w, 'cert, 'key, 'cfg, 'o, 'n, 'x) startup_io_scheme \<Rightarrow> (config \<times> 'o aws_clients \<times> dek_store, anyhow) result" where
  "startup_dek io =
     and_then (if provider_installed io then Ok () else Panic) (\<lambda>_.
     and_then (from_env (start_env io)) (\<lambda>cfg.
     and_then (start_imds_bridge (vsock_proxy_cid cfg) (imds_bind io) ([] :: (unit, anyhow) result list)) (\<lambda>_.
     and_then (start_otlp_bridge (vsock_proxy_cid cfg) (otlp_bind io) ([] :: (unit, anyhow) result list)) (\<lambda>_.
     (let writer = snd (start_log_bridge (vsock_proxy_cid cfg) (log_bind io)
                          (try_connect (log_connect io) ''127.0.0.1:4318'')
                          ([] :: (unit, anyhow) result list)) in
      and_then (snd (init_telemetry (start_telemetry io) (otel_exporter_otlp_endpoint cfg) (log_level cfg) writer)) (\<lambda>_.
      and_then (aws_clients_init (start_sdk io) (vsock_proxy_cid cfg) (vsock_proxy_port cfg)) (\<lambda>aws.
      (case fetch_and_store (start_dek_aws io aws) cfg dek_store_new of
         (d, r) \<Rightarrow> and_then r (\<lambda>_. Ok (cfg, aws, d))))))))))"

text \<open>Steps 7 to 10, from the metrics to the bound listener.\<close>

definition startup_server ::
  "('w, 'cert, 'key, 'cfg, 'o, 'n, 'x) startup_io_scheme \<Rightarrow> config \<Rightarrow> 'o aws_clients \<Rightarrow> dek_store \<Rightarrow>
     'n schema_cache \<Rightarrow> (('cfg, 'o, 'n) service, anyhow) result" where
  "startup_server io cfg aws d c =
     and_then (with_context (read_file io (tls_cert_path cfg))
         (''failed to read TLS cert: '' @ tls_cert_path cfg)) (\<lambda>cert_pem.
     and_then (with_context (read_file io (tls_key_path cfg))
         (''failed to read TLS key: '' @ tls_key_path cfg)) (\<lambda>key_pem.
     and_then (build_server_config (start_tls io) cert_pem key_pem) (\<lambda>tls_cfg.
     and_then (with_context (vsock_bind io VMADDR_CID_ANY (ucast (tls_port cfg)))
         ''failed to bind vsock TLS listener'') (\<lambda>_.
       Ok \<lparr>service_state = app_state_new d c (config.schema_header_name cfg) metrics_new,
           service_config = cfg, service_aws = aws, service_tls = tls_cfg,
           service_addr = (VMADDR_CID_ANY, ucast (tls_port cfg))\<rparr>))))"

text \<open>\<open>main\<close> up to the accept loop; \<open>None\<close> is the stack overflow of the resolver (step 6).\<close>

definition startup ::
  "nat \<Rightarrow> ('w, 'cert, 'key, 'cfg, 'o, 'n, 'x) startup_io_scheme \<Rightarrow>
     (('cfg, 'o, 'n) service, anyhow) result option" where
  "startup frames io =
     (case startup_dek io of
        Ok (cfg, aws, d) \<Rightarrow>
          map_option (\<lambda>(c, r). and_then r (\<lambda>_. startup_server io cfg aws d c))
            (load_all frames (start_s3 io aws) cfg schema_cache_new)
      | Err e \<Rightarrow> Some (Err e)
      | Panic \<Rightarrow> Some Panic)"

text \<open>
  The accept loop: one task per connection; the first failed accept ends \<open>main\<close> with the error.
  \<open>None\<close> means that the loop is still running.
\<close>

fun main_accept :: "('peer, anyhow) result list \<Rightarrow> 'peer list \<times> (unit, anyhow) result option" where
  "main_accept [] = ([], None)"
| "main_accept (Ok peer # accepts) = (case main_accept accepts of (served, r) \<Rightarrow> (peer # served, r))"
| "main_accept (Err e # accepts) = ([], Some (Err e))"
| "main_accept (Panic # accepts) = ([], Some Panic)"

section \<open>The running service\<close>

datatype ('x, 'n, 'h, 'b, 't) event =
    Rotate "'x dek_aws_scheme"
  | Refresh "'n s3_io"
  | Request 't nat "('h, 'b) http_request"

text \<open>A step on the shared state and the log of measurements.\<close>

fun service_step ::
  "nat \<Rightarrow> config \<Rightarrow> ('c, 'z) crypto_scheme \<Rightarrow> ('h, 'v, 'y) http_scheme \<Rightarrow> ('h, 'b, 'n) axum \<Rightarrow>
     (string set \<Rightarrow> string list) \<Rightarrow> ('x, 'n, 'h, 'b, 't) event \<Rightarrow>
     'n app_state \<times> 't measurement list \<Rightarrow> ('n app_state \<times> 't measurement list) option" where
  "service_step frames cfg P http ax iter (Rotate aws) (s, log) =
     (case rotation_tick cfg (dek_rotations (app_metrics s)) aws (dek_store s, log) of
        (d, log') \<Rightarrow> Some (s\<lparr>dek_store := d\<rparr>, log'))"
| "service_step frames cfg P http ax iter (Refresh io) (s, log) =
     map_option (\<lambda>c. (s\<lparr>schema_cache := c\<rparr>, log)) (refresh_tick frames cfg io (schema_cache s))"
| "service_step frames cfg P http ax iter (Request elapsed waited req) (s, log) =
     Some (s, log @ fst (build P http ax iter elapsed waited s req))"

section \<open>The abstract service\<close>

text \<open>
  What a caller relies on: the current key and the PII paths of each schema. A rotation installs
  the fetched key if it is acceptable, a refresh installs the listed documents if all of them can
  be read, a request changes nothing.
\<close>

record service_spec =
  spec_key :: "u8 list option"
  spec_paths :: "string \<Rightarrow> string set option"

definition service_abs :: "'n app_state \<Rightarrow> service_spec" where
  "service_abs s =
     \<lparr>spec_key = inner (dek_store s),
      spec_paths = (\<lambda>name. map_option pii_paths (map_of (schema_cache s) name))\<rparr>"

definition listed_paths :: "'n s3_io \<Rightarrow> config \<Rightarrow> string option list \<Rightarrow> string \<Rightarrow> string set option" where
  "listed_paths io cfg objects name =
     (if keys_named cfg objects name = [] then None
      else map_option (\<lambda>api. render '''' ` api_pii api)
        (object_api io cfg (last (keys_named cfg objects name))))"

definition readable_listing :: "'n s3_io \<Rightarrow> config \<Rightarrow> string option list option" where
  "readable_listing io cfg =
     (case list_objects_v2 io (s3_bucket cfg) (s3_prefix cfg) of
        Ok objects \<Rightarrow>
          if \<forall>key. Some key \<in> set objects \<longrightarrow> object_api io cfg key \<noteq> None then Some objects else None
      | _ \<Rightarrow> None)"

fun spec_step :: "config \<Rightarrow> ('x, 'n, 'h, 'b, 't) event \<Rightarrow> service_spec \<Rightarrow> service_spec" where
  "spec_step cfg (Rotate aws) a =
     (case fetched_key aws cfg of
        Some k \<Rightarrow> if length k = KEY_LEN then a\<lparr>spec_key := Some k\<rparr> else a
      | None \<Rightarrow> a)"
| "spec_step cfg (Refresh io) a =
     (case readable_listing io cfg of
        Some objects \<Rightarrow> a\<lparr>spec_paths := listed_paths io cfg objects\<rparr>
      | None \<Rightarrow> a)"
| "spec_step cfg (Request _ _ _) a = a"

section \<open>Lemmas\<close>

definition service_ok :: "'n app_state \<Rightarrow> bool" where
  "service_ok s \<longleftrightarrow> app_ok s \<and> is_ready (dek_store s)"

lemma fetch_and_store_ok:
  "dek_store_ok d \<Longrightarrow> dek_store_ok (fst (fetch_and_store aws cfg d))"
  "is_ready d \<Longrightarrow> is_ready (fst (fetch_and_store aws cfg d))"
  by (simp_all add: fetch_and_store_state dek.invar_put dek.put_keeps_ready split: option.split)

lemma service_step_ok:
  assumes "service_ok s" "service_step frames cfg P http ax iter e (s, log) = Some (s', log')"
  shows "service_ok s'"
  using assms
proof (cases e)
  case (Rotate aws)
  with assms show ?thesis
    by (auto simp: service_ok_def app_ok_def rotation_tick_eq fetch_and_store_ok)
next
  case (Refresh io)
  with assms show ?thesis
    by (auto simp: service_ok_def app_ok_def intro: refresh_tick_cache_ok)
qed auto

interpretation svc_run: step_machine "service_step frames cfg P http ax iter" "\<lambda>st. service_ok (fst st)"
  for frames cfg P http ax iter
proof
  fix st st' e
  assume "service_ok (fst st)" "service_step frames cfg P http ax iter e st = Some st'"
  then show "service_ok (fst st')"
    by (cases st; cases st') (auto intro: service_step_ok)
qed

lemma rotate_abs:
  "service_step frames cfg P http ax iter (Rotate aws) (s, log) = Some (s', log') \<Longrightarrow>
     service_abs s' = spec_step cfg (Rotate aws) (service_abs s)"
  by (auto simp: service_abs_def rotation_tick_eq fetch_and_store_state store_def split: option.split)

lemma cache_get_map_of: "cache_get name c = Ok e \<longleftrightarrow> map_of c name = Some e"
  by (simp add: cache_get_def ok_or_Ok_iff)

lemma refresh_paths:
  assumes "refresh_tick frames cfg io c = Some c'"
  shows "(\<lambda>name. map_option pii_paths (map_of c' name)) =
    (case readable_listing io cfg of
       Some objects \<Rightarrow> listed_paths io cfg objects
     | None \<Rightarrow> (\<lambda>name. map_option pii_paths (map_of c name)))"
proof -
  from assms obtain r where load: "load_all frames io cfg c = Some (c', r)"
    by (auto simp: refresh_tick_def)
  show ?thesis
  proof (cases "readable_listing io cfg")
    case None
    then have "r \<noteq> Ok ()"
      using load_all_outcome [OF load] by (auto simp: readable_listing_def split: result.splits if_splits)
    with load None show ?thesis by (auto dest: load_all_failed)
  next
    case (Some objects)
    then have list: "list_objects_v2 io (s3_bucket cfg) (s3_prefix cfg) = Ok objects"
      and "r = Ok ()"
      using load_all_outcome [OF load] by (auto simp: readable_listing_def split: result.splits if_splits)
    with load have c': "map_of c' name = Some e \<longleftrightarrow>
        keys_named cfg objects name \<noteq> [] \<and>
        object_api io cfg (last (keys_named cfg objects name)) = Some (cached_api e) \<and>
        pii_paths e = render '''' ` api_pii (cached_api e)" for name e
      using load_all_contents [OF list] by (simp add: cache_get_map_of)
    have "map_option pii_paths (map_of c' name) = listed_paths io cfg objects name" for name
    proof (cases "map_of c' name")
      case None
      then have "keys_named cfg objects name = [] \<or>
          object_api io cfg (last (keys_named cfg objects name)) = None"
        using c' [of name "\<lparr>cached_api = api, pii_paths = render '''' ` api_pii api\<rparr>" for api] by force
      with None show ?thesis by (auto simp: listed_paths_def)
    next
      case (Some e)
      with c' [of name e] show ?thesis by (simp add: listed_paths_def)
    qed
    then show ?thesis by (simp add: Some)
  qed
qed

lemma service_step_abs:
  assumes "service_step frames cfg P http ax iter e (s, log) = Some (s', log')"
  shows "service_abs s' = spec_step cfg e (service_abs s)"
proof (cases e)
  case (Rotate aws)
  with assms rotate_abs show ?thesis by blast
next
  case (Refresh io)
  with assms obtain c where "refresh_tick frames cfg io (schema_cache s) = Some c" "s' = s\<lparr>schema_cache := c\<rparr>"
    by auto
  then show ?thesis
    using refresh_paths [of frames cfg io "schema_cache s" c]
    by (simp add: Refresh service_abs_def split: option.split)
qed (use assms in auto)

lemma service_runs_abs:
  "opt_fold (service_step frames cfg P http ax iter) events st = Some st' \<Longrightarrow>
     service_abs (fst st') = fold (spec_step cfg) events (service_abs (fst st))"
proof (induction events arbitrary: st)
  case (Cons e events)
  then obtain u where "service_step frames cfg P http ax iter e st = Some u"
    "opt_fold (service_step frames cfg P http ax iter) events u = Some st'"
    by (auto simp: bind_eq_Some_conv)
  with Cons.IH [of u] show ?case
    by (cases st; cases u) (auto dest: service_step_abs)
qed simp

lemma with_context_unit_iff: "with_context r msg = Ok () \<longleftrightarrow> r = Ok ()"
  by (rule with_context_Ok_iff)

text \<open>
  Telemetry succeeds exactly when its three steps do, and a provider once set is not taken back:
  metrics are exported even if the tracing pipeline or the subscriber then fails.
\<close>

lemma init_telemetry_exact:
  "init_telemetry tio endpoint level w = (set_provider, r) \<Longrightarrow>
     (set_provider \<longleftrightarrow> build_meter_provider tio endpoint service_resource 15 = Ok ()) \<and>
     (r = Ok () \<longleftrightarrow>
        set_provider \<and> install_tracer tio endpoint service_resource = Ok () \<and>
        try_init_layers tio
          ([FilterLayer (case rust_log tio of Some f \<Rightarrow> f | None \<Rightarrow> level), StderrLayer, OtelLayer] @
           (case w of Some x \<Rightarrow> [TcpLayer x] | None \<Rightarrow> [])) = Ok ())"
  by (cases "build_meter_provider tio endpoint service_resource 15"; cases w)
    (auto simp: init_telemetry_def with_context_def result_simps Let_def)

text \<open>
  The server picks the first of its own protocols that the client offers: a client that offers
  both, as browsers do, gets HTTP/1.1; only one that does not offer it gets HTTP/2.
\<close>

lemma alpn_choice:
  assumes "build_server_config tls cert_pem key_pem = Ok cfg"
  shows "find (\<lambda>p. p \<in> set offers) (alpn_protocols cfg) =
    (if ''http/1.1'' \<in> set offers then Some ''http/1.1''
     else if ''h2'' \<in> set offers then Some ''h2'' else None)"
  using assms by (auto simp: build_server_config_def result_simps)

lemma startup_dek_Ok_iff:
  "startup_dek io = Ok (cfg, aws, d) \<longleftrightarrow>
     provider_installed io \<and> from_env (start_env io) = Ok cfg \<and> imds_bind io = Ok () \<and> otlp_bind io = Ok () \<and>
     snd (init_telemetry (start_telemetry io) (otel_exporter_otlp_endpoint cfg) (log_level cfg)
       (if log_bind io = Ok () then try_connect (log_connect io) ''127.0.0.1:4318'' else None)) = Ok () \<and>
     aws_clients_init (start_sdk io) (vsock_proxy_cid cfg) (vsock_proxy_port cfg) = Ok aws \<and>
     fetch_and_store (start_dek_aws io aws) cfg dek_store_new = (d, Ok ())"
proof -
  have fetch: "(case fetch_and_store (start_dek_aws io a) cfg' dek_store_new of (d', r) \<Rightarrow> and_then r (\<lambda>_. Ok (cfg', a, d'))) =
      Ok (cfg, aws, d) \<longleftrightarrow>
    cfg' = cfg \<and> a = aws \<and> fetch_and_store (start_dek_aws io aws) cfg dek_store_new = (d, Ok ())" for cfg' a
    by (cases "fetch_and_store (start_dek_aws io a) cfg' dek_store_new") (auto simp: and_then_Ok_iff)
  have log: "snd (start_log_bridge cid b w a) = (if b = Ok () then w else None)" for cid b w and a :: "(unit, anyhow) result list"
    by (auto simp: start_log_bridge_def is_ok_iff)
  show ?thesis
    by (auto simp: startup_dek_def Let_def and_then_Ok_iff start_imds_bridge_def start_otlp_bridge_def
        with_context_Ok_iff fetch log)
qed

lemma startup_Ok_iff:
  "startup frames io = Some (Ok svc) \<longleftrightarrow>
     (\<exists>cfg aws d c. startup_dek io = Ok (cfg, aws, d) \<and>
        load_all frames (start_s3 io aws) cfg schema_cache_new = Some (c, Ok ()) \<and>
        startup_server io cfg aws d c = Ok svc)"
proof (cases "startup_dek io")
  case (Ok x)
  obtain cfg aws d where x: "x = (cfg, aws, d)" by (cases x)
  show ?thesis
    by (auto simp: startup_def Ok x and_then_Ok_iff)
qed (auto simp: startup_def)

lemma startup_server_Ok:
  assumes "startup_server io cfg aws d c = Ok svc"
  shows "service_state svc = app_state_new d c (config.schema_header_name cfg) metrics_new"
    and "service_config svc = cfg" and "service_aws svc = aws"
    and "service_addr svc = (VMADDR_CID_ANY, ucast (tls_port cfg))"
    and "alpn_protocols (service_tls svc) = [''http/1.1'', ''h2'']"
  using assms by (auto simp: startup_server_def build_server_config_def and_then_Ok_iff)

lemma schema_cache_new_ok: "cache_ok schema_cache_new"
  by (simp add: cache_ok_def schema_cache_new_def)

lemma startup_service_ok:
  assumes "startup frames io = Some (Ok svc)"
  shows "service_ok (service_state svc)" and "config_ok (service_config svc)"
proof -
  from assms obtain cfg aws d c where s: "startup_dek io = Ok (cfg, aws, d)"
    "load_all frames (start_s3 io aws) cfg schema_cache_new = Some (c, Ok ())"
    "startup_server io cfg aws d c = Ok svc" by (auto simp: startup_Ok_iff)
  note svc = startup_server_Ok [OF s(3)]
  from s(1) have d: "fetch_and_store (start_dek_aws io aws) cfg dek_store_new = (d, Ok ())"
    and cfg: "from_env (start_env io) = Ok cfg" by (simp_all add: startup_dek_Ok_iff)
  from d have d': "d = fst (fetch_and_store (start_dek_aws io aws) cfg dek_store_new)" by simp
  have "\<exists>k. fetched_key (start_dek_aws io aws) cfg = Some k \<and> length k = KEY_LEN"
    using d fetch_and_store_Ok_iff [of "start_dek_aws io aws" cfg dek_store_new] by simp
  then have "is_ready d"
    by (auto simp: d' fetch_and_store_state dek.ready_iff is_ok_iff dek.put_valid)
  moreover have "dek_store_ok d" by (simp add: d' fetch_and_store_ok dek.invar_empty)
  moreover have "cache_ok c" using load_all_cache_ok [OF schema_cache_new_ok s(2)] .
  ultimately show "service_ok (service_state svc)"
    by (simp add: svc service_ok_def app_ok_def app_state_new_def)
  show "config_ok (service_config svc)" using cfg by (simp add: svc from_env_Ok_iff)
qed

lemma service_step_frame:
  "service_step frames cfg P http ax iter e st = Some st' \<Longrightarrow>
     schema_header_name (fst st') = schema_header_name (fst st) \<and> app_metrics (fst st') = app_metrics (fst st)"
  by (cases st; cases e) (auto split: prod.splits)

lemma service_ok_no_503:
  assumes "service_ok s"
  shows "schema_and_dek http s headers \<noteq> Err (503, err)"
proof -
  from assms obtain k where "current (dek_store s) = Ok k"
    by (auto simp: service_ok_def dek.ready_iff is_ok_iff)
  then show ?thesis
    by (auto simp: schema_and_dek_def schema_name_def err_simps split: option.splits)
qed

section \<open>A sample startup\<close>

definition sample_env :: environment where
  "sample_env =
     \<lparr>env_secret_arn = Present ''arn'', env_kms_key_id = Present ''key'', env_s3_bucket = Present ''bucket'',
      env_s3_prefix = Absent, env_schema_header_name = Absent, env_dek_rotation_interval_secs = Absent,
      env_schema_refresh_interval_secs = Absent, env_vsock_proxy_cid = Present 3,
      env_vsock_proxy_port = Absent, env_tls_port = Absent, env_tls_cert_path = Present ''cert'',
      env_tls_key_path = Present ''pem'',
      env_otel_exporter_otlp_endpoint = Present ''http://127.0.0.1:4317'', env_log_level = Absent\<rparr>"

text \<open>Clients that are nothing but the connector they are built around.\<close>

definition sample_sdk :: "connector sdk_builders" where
  "sample_sdk =
     \<lparr>wrap_connector = id, build_client = id, load_defaults = (\<lambda>c. adapter_client (fixed_connector c)),
      kms_client_new = id, secretsmanager_client_new = id, s3_client_new = id\<rparr>"

definition sample_startup :: "(unit, unit, unit, unit, connector, int) startup_io" where
  "sample_startup =
     \<lparr>provider_installed = True, start_env = Ok sample_env, imds_bind = Ok (), otlp_bind = Ok (),
      log_bind = Ok (), log_connect = (\<lambda>_. Err [''connection refused'']),
      start_telemetry = \<lparr>build_meter_provider = (\<lambda>_ _ _. Ok ()), install_tracer = (\<lambda>_ _. Ok ()),
        try_init_layers = (\<lambda>_. Ok ()), rust_log = None\<rparr>,
      start_sdk = sample_sdk,
      start_dek_aws = (\<lambda>_. sample_aws (Some sample_dek)), start_s3 = (\<lambda>_. sample_s3),
      read_file = (\<lambda>_. Ok [1]),
      start_tls = \<lparr>parse_certs = (\<lambda>_. Ok [()]), parse_private_key = (\<lambda>_. Ok (Some ())),
        with_single_cert = (\<lambda>_ _. Ok ())\<rparr>,
      vsock_bind = (\<lambda>_ _. Ok ())\<rparr>"

lemma sample_env_config: "from_env (Ok sample_env) = Ok sample_config"
  unfolding from_env_Ok_iff config_ok_def deserialize_Ok_iff
  by (simp add: sample_env_def sample_config_def with_default_def not_blank is_ascii_def is_whitespace_def)

lemma sample_load: "\<exists>c. load_all 10 sample_s3 sample_config [] = Some (c, Ok ())"
proof -
  have "load_all 10 sample_s3 sample_config [] =
      Some (the (map_option fst (load_all 10 sample_s3 sample_config [])), Ok ())"
    by code_simp
  then show ?thesis by blast
qed

lemma sample_startup_Ok: "\<exists>svc. startup 10 sample_startup = Some (Ok svc)"
proof -
  obtain c where c: "load_all 10 sample_s3 sample_config [] = Some (c, Ok ())" using sample_load by blast
  have fetch: "\<exists>d. fetch_and_store (sample_aws (Some sample_dek)) sample_config dek_store_new = (d, Ok ())"
    using fetch_and_store_Ok_iff [of "sample_aws (Some sample_dek)" sample_config dek_store_new]
    by (cases "fetch_and_store (sample_aws (Some sample_dek)) sample_config dek_store_new")
      (simp add: fetched_key_def sample_aws_def sample_dek_length)
  then show ?thesis
    using c
    by (auto simp: startup_Ok_iff startup_dek_Ok_iff sample_startup_def sample_env_config
        init_telemetry_def aws_clients_init_def with_context_def try_connect_def startup_server_def build_server_config_def
        schema_cache_new_def Let_def)
qed

end
