(* ===== verification/In_Flight.thy ===== *)
theory In_Flight
  imports Service
begin

text \<open>
  Requests in flight. The handlers of \<open>src/crates/enclave/src/server/handlers.rs\<close> run as tasks of
  their own and touch the shared state at two points: they load the schema cache once and, at an
  \<open>await\<close> later, clone the key once. Between these points rotations, refreshes and other requests
  may happen, and at the \<open>await\<close> the handler may be dropped. This theory splits a request at exactly
  these points and shows that the outcome is that of the handler run at once on the cache of the
  first point and the key of the second, and that of the abstract service with these two.
\<close>

section \<open>The parts of a handler\<close>

datatype ('h, 'n) call =
    EncryptCall (call_headers: 'h) "'n encrypt_request"
  | DecryptCall (call_headers: 'h) "'n decrypt_request"

text \<open>Up to the read of the cache.\<close>

definition find_schema ::
  "('h, 'v, 'y) http_scheme \<Rightarrow> 'n app_state \<Rightarrow> 'h \<Rightarrow> ('n cached_schema, u16 \<times> error_response) result" where
  "find_schema http s headers =
     and_then (schema_name http s headers) (\<lambda>name.
       map_err (\<lambda>_. (400, error_response_new ''bad_request'' (''unknown schema: '' @ name)))
         (cache_get name (schema_cache s)))"

text \<open>The clone of the key.\<close>

definition take_dek :: "'n app_state \<Rightarrow> (u8 list, u16 \<times> error_response) result" where
  "take_dek s =
     map_err (\<lambda>_. (503, error_response_new ''service_unavailable'' ''DEK not yet initialised''))
       (current (dek_store s))"

text \<open>The walk over the payload, on the task's own copies of schema and key.\<close>

fun transform ::
  "('c, 'x) crypto_scheme \<Rightarrow> (string set \<Rightarrow> string list) \<Rightarrow> ('h, 'n) call \<Rightarrow> 'n cached_schema \<Rightarrow> u8 list \<Rightarrow>
     ('n json, u16 \<times> error_response) result" where
  "transform P iter (EncryptCall _ req) cached dek =
     map_err (\<lambda>_. (500, error_response_new ''internal_error'' ''encryption failed''))
       (encrypt_pii_fields P (iter (pii_paths cached)) dek (encrypt_request_payload req))"
| "transform P iter (DecryptCall _ req) cached dek =
     map_err (\<lambda>_. (500, error_response_new ''internal_error'' ''decryption failed''))
       (decrypt_pii_fields P (iter (pii_paths cached)) dek (decrypt_request_payload req))"

text \<open>The measurements and the response, at whichever point the handler returns.\<close>

fun call_instruments :: "metrics \<Rightarrow> ('h, 'n) call \<Rightarrow> instrument \<times> instrument" where
  "call_instruments m (EncryptCall _ _) = (encrypt_requests m, encrypt_latency_ms m)"
| "call_instruments m (DecryptCall _ _) = (decrypt_requests m, decrypt_latency_ms m)"

fun call_body :: "('h, 'n) call \<Rightarrow> 'n json \<Rightarrow> 'n body" where
  "call_body (EncryptCall _ _) payload = EncryptBody \<lparr>encrypt_response_payload = payload\<rparr>"
| "call_body (DecryptCall _ _) payload = DecryptBody \<lparr>decrypt_response_payload = payload\<rparr>"

definition finish ::
  "metrics \<Rightarrow> 't \<Rightarrow> ('h, 'n) call \<Rightarrow> ('n json, u16 \<times> error_response) result \<Rightarrow>
     't measurement list \<times> 'n response option" where
  "finish m elapsed call r =
     (let (requests, latency) = call_instruments m call;
          recorded = (\<lambda>attrs. [Add requests 1 attrs, Record latency elapsed attrs])
      in case r of
           Ok payload \<Rightarrow> (recorded success_attrs, Some (200, call_body call payload))
         | Err (status, err) \<Rightarrow> (recorded error_attrs, Some (status, ErrorBody err))
         | Panic \<Rightarrow> ([], None))"

text \<open>The handler as one step, as \<open>Handlers\<close> has it.\<close>

fun handle ::
  "('c, 'x) crypto_scheme \<Rightarrow> ('h, 'v, 'y) http_scheme \<Rightarrow> (string set \<Rightarrow> string list) \<Rightarrow> 't \<Rightarrow>
     'n app_state \<Rightarrow> ('h, 'n) call \<Rightarrow> 't measurement list \<times> 'n response option" where
  "handle P http iter elapsed s (EncryptCall headers req) = encrypt P http iter elapsed s headers req"
| "handle P http iter elapsed s (DecryptCall headers req) = decrypt P http iter elapsed s headers req"

section \<open>Tasks\<close>

datatype ('h, 'n, 't) task =
    Arrived "('h, 'n) call"
  | HasSchema "('h, 'n) call" "'n cached_schema"
  | HasDek "('h, 'n) call" "'n cached_schema" "u8 list"
  | Answered "('h, 'n) call" 't "'n response option"
  | Cancelled "('h, 'n) call"

text \<open>
  The shared state, the tasks and the log of measurements. Taking the key is one step here; \<open>Key_Memory\<close>
  has the lock that the handlers wait for and shows that nothing else comes of it.
\<close>

record ('h, 'n, 't) flight =
  shared :: "'n app_state"
  tasks :: "('h, 'n, 't) task list"
  flight_log :: "'t measurement list"

datatype ('x, 'h, 'n, 't) flight_event =
    Arrive "('h, 'n) call"
  | Advance nat 't
  | Cancel nat
  | RotateTick "'x dek_aws_scheme"
  | RefreshTick "'n s3_io"

definition answer ::
  "nat \<Rightarrow> ('h, 'n) call \<Rightarrow> 't \<Rightarrow> ('n json, u16 \<times> error_response) result \<Rightarrow>
     ('h, 'n, 't) flight \<Rightarrow> ('h, 'n, 't) flight" where
  "answer i call elapsed r w =
     (case finish (app_metrics (shared w)) elapsed call r of
        (recorded, response) \<Rightarrow>
          w\<lparr>tasks := (tasks w)[i := Answered call elapsed response],
            flight_log := flight_log w @ recorded\<rparr>)"

fun advance ::
  "('c, 'x) crypto_scheme \<Rightarrow> ('h, 'v, 'y) http_scheme \<Rightarrow> (string set \<Rightarrow> string list) \<Rightarrow> nat \<Rightarrow> 't \<Rightarrow>
     ('h, 'n, 't) task \<Rightarrow> ('h, 'n, 't) flight \<Rightarrow> ('h, 'n, 't) flight option" where
  "advance P http iter i elapsed (Arrived call) w =
     Some (case find_schema http (shared w) (call_headers call) of
             Ok cached \<Rightarrow> w\<lparr>tasks := (tasks w)[i := HasSchema call cached]\<rparr>
           | Err e \<Rightarrow> answer i call elapsed (Err e) w
           | Panic \<Rightarrow> answer i call elapsed Panic w)"
| "advance P http iter i elapsed (HasSchema call cached) w =
     Some (case take_dek (shared w) of
             Ok dek \<Rightarrow> w\<lparr>tasks := (tasks w)[i := HasDek call cached dek]\<rparr>
           | Err e \<Rightarrow> answer i call elapsed (Err e) w
           | Panic \<Rightarrow> answer i call elapsed Panic w)"
| "advance P http iter i elapsed (HasDek call cached dek) w =
     Some (answer i call elapsed (transform P iter call cached dek) w)"
| "advance P http iter i elapsed (Answered _ _ _) w = None"
| "advance P http iter i elapsed (Cancelled _) w = None"

text \<open>
  The timeout layer and a lost connection drop a handler where it waits, that is before it starts
  and at the \<open>await\<close> for the key; a task that has the key runs to its end.
\<close>

fun cancel :: "nat \<Rightarrow> ('h, 'n, 't) task \<Rightarrow> ('h, 'n, 't) flight \<Rightarrow> ('h, 'n, 't) flight option" where
  "cancel i (Arrived call) w = Some (w\<lparr>tasks := (tasks w)[i := Cancelled call]\<rparr>)"
| "cancel i (HasSchema call _) w = Some (w\<lparr>tasks := (tasks w)[i := Cancelled call]\<rparr>)"
| "cancel i _ w = None"

fun flight_step ::
  "nat \<Rightarrow> config \<Rightarrow> ('c, 'z) crypto_scheme \<Rightarrow> ('h, 'v, 'y) http_scheme \<Rightarrow> (string set \<Rightarrow> string list) \<Rightarrow>
     ('x, 'h, 'n, 't) flight_event \<Rightarrow> ('h, 'n, 't) flight \<Rightarrow> ('h, 'n, 't) flight option" where
  "flight_step frames cfg P http iter (Arrive call) w = Some (w\<lparr>tasks := tasks w @ [Arrived call]\<rparr>)"
| "flight_step frames cfg P http iter (Advance i elapsed) w =
     (if i < length (tasks w) then advance P http iter i elapsed (tasks w ! i) w else None)"
| "flight_step frames cfg P http iter (Cancel i) w =
     (if i < length (tasks w) then cancel i (tasks w ! i) w else None)"
| "flight_step frames cfg P http iter (RotateTick aws) w =
     (case rotation_tick cfg (dek_rotations (app_metrics (shared w))) aws (dek_store (shared w), flight_log w) of
        (d, log) \<Rightarrow> Some (w\<lparr>shared := (shared w)\<lparr>dek_store := d\<rparr>, flight_log := log\<rparr>))"
| "flight_step frames cfg P http iter (RefreshTick io) w =
     map_option (\<lambda>c. w\<lparr>shared := (shared w)\<lparr>schema_cache := c\<rparr>\<rparr>)
       (refresh_tick frames cfg io (schema_cache (shared w)))"

definition flight_new :: "'n app_state \<Rightarrow> ('h, 'n, 't) flight" where
  "flight_new s = \<lparr>shared = s, tasks = [], flight_log = []\<rparr>"

section \<open>Lemmas\<close>

lemma schema_and_dek_parts:
  "schema_and_dek http s headers =
     and_then (find_schema http s headers) (\<lambda>cached. and_then (take_dek s) (\<lambda>dek. Ok (cached, dek)))"
  by (cases "schema_name http s headers") (simp_all add: schema_and_dek_def find_schema_def take_dek_def)

lemma handle_parts:
  "handle P http iter t s call =
     finish (app_metrics s) t call
       (and_then (find_schema http s (call_headers call)) (\<lambda>cached.
        and_then (take_dek s) (\<lambda>dek. transform P iter call cached dek)))"
proof (cases call)
  case (EncryptCall h req)
  then show ?thesis
    by (cases "find_schema http s h"; cases "take_dek s")
      (auto simp: encrypt_def schema_and_dek_parts finish_def Let_def split: result.splits)
next
  case (DecryptCall h req)
  then show ?thesis
    by (cases "find_schema http s h"; cases "take_dek s")
      (auto simp: decrypt_def schema_and_dek_parts finish_def Let_def split: result.splits)
qed

text \<open>A request that reads the cache in one state and the key in another behaves as in this one.\<close>

definition mixed :: "'n app_state \<Rightarrow> 'n app_state \<Rightarrow> 'n app_state" where
  "mixed s1 s2 = s2\<lparr>schema_cache := schema_cache s1\<rparr>"

lemma mixed_same [simp]: "mixed s s = s"
  by (simp add: mixed_def)

lemma take_dek_mixed [simp]: "take_dek (mixed s1 s2) = take_dek s2"
  by (simp add: take_dek_def mixed_def)

lemma find_schema_mixed:
  "app_state.schema_header_name s1 = app_state.schema_header_name s2 \<Longrightarrow>
     find_schema http (mixed s1 s2) headers = find_schema http s1 headers"
  by (simp add: find_schema_def mixed_def schema_name_def cong: option.case_cong)

text \<open>What never changes while the service runs.\<close>

definition same_setup :: "('h, 'n, 't) flight \<Rightarrow> ('h, 'n, 't) flight \<Rightarrow> bool" where
  "same_setup w w' \<longleftrightarrow>
     app_state.schema_header_name (shared w) = app_state.schema_header_name (shared w') \<and>
     app_metrics (shared w) = app_metrics (shared w')"

lemma answer_simps [simp]:
  "shared (answer i call t r w) = shared w"
  "tasks (answer i call t r w) =
     (tasks w)[i := Answered call t (snd (finish (app_metrics (shared w)) t call r))]"
  by (simp_all add: answer_def split: prod.split)

lemma advance_shared: "advance P http iter i t task w = Some w' \<Longrightarrow> shared w' = shared w"
  by (cases task) (auto split: result.splits)

lemma cancel_effect:
  "cancel i task w = Some w' \<Longrightarrow>
     shared w' = shared w \<and> (\<exists>call. tasks w' = (tasks w)[i := Cancelled call])"
  by (cases task) auto

lemma flight_step_setup:
  "flight_step frames cfg P http iter e w = Some w' \<Longrightarrow> same_setup w w'"
  by (cases e) (auto simp: same_setup_def dest: advance_shared cancel_effect split: if_splits prod.splits)

section \<open>Histories\<close>

text \<open>The states that a history of events has passed, by the number of events before them.\<close>

definition passed ::
  "('e \<Rightarrow> 's \<Rightarrow> 's option) \<Rightarrow> 'e list \<Rightarrow> 's \<Rightarrow> nat \<Rightarrow> 's \<Rightarrow> bool" where
  "passed step es s0 j s \<longleftrightarrow> j \<le> length es \<and> opt_fold step (take j es) s0 = Some s"

lemma passed_snoc: "passed step es s0 j s \<Longrightarrow> passed step (es @ [e]) s0 j s"
  by (simp add: passed_def)

lemma passed_last: "opt_fold step es s0 = Some s \<Longrightarrow> passed step es s0 (length es) s"
  by (simp add: passed_def)

lemma run_setup:
  "opt_fold (flight_step frames cfg P http iter) es w0 = Some w \<Longrightarrow> same_setup w0 w"
proof (induction es arbitrary: w rule: rev_induct)
  case (snoc e es)
  then obtain u where "opt_fold (flight_step frames cfg P http iter) es w0 = Some u"
    "flight_step frames cfg P http iter e u = Some w"
    by (auto simp: opt_fold_append bind_eq_Some_conv)
  with snoc.IH flight_step_setup show ?case by (fastforce simp: same_setup_def)
qed (simp add: same_setup_def)

lemma passed_setup:
  "passed (flight_step frames cfg P http iter) es w0 j w \<Longrightarrow> same_setup w0 w"
  by (auto simp: passed_def intro: run_setup)

section \<open>What a task has seen\<close>

text \<open>
  \<open>seen\<close> tells which states have been passed, and when. A task holds the schema of a state it has
  seen and the key of the same or a later state; an answer is that of the handler on the two.
\<close>

fun task_ok ::
  "(nat \<Rightarrow> ('h, 'n, 't) flight \<Rightarrow> bool) \<Rightarrow> ('c, 'z) crypto_scheme \<Rightarrow> ('h, 'v, 'y) http_scheme \<Rightarrow>
     (string set \<Rightarrow> string list) \<Rightarrow> ('h, 'n, 't) task \<Rightarrow> bool" where
  "task_ok seen P http iter (Arrived call) \<longleftrightarrow> True"
| "task_ok seen P http iter (HasSchema call cached) \<longleftrightarrow>
     (\<exists>j w. seen j w \<and> find_schema http (shared w) (call_headers call) = Ok cached)"
| "task_ok seen P http iter (HasDek call cached dek) \<longleftrightarrow>
     (\<exists>j w k w'. seen j w \<and> seen k w' \<and> j \<le> k \<and>
        find_schema http (shared w) (call_headers call) = Ok cached \<and> take_dek (shared w') = Ok dek)"
| "task_ok seen P http iter (Answered call t response) \<longleftrightarrow>
     (\<exists>j w k w'. seen j w \<and> seen k w' \<and> j \<le> k \<and>
        response = snd (handle P http iter t (mixed (shared w) (shared w')) call))"
| "task_ok seen P http iter (Cancelled call) \<longleftrightarrow> True"

lemma task_ok_mono:
  assumes "\<And>j w. seen j w \<Longrightarrow> seen' j w" "task_ok seen P http iter task"
  shows "task_ok seen' P http iter task"
proof (cases task)
  case (HasSchema call cached)
  with assms show ?thesis by auto
next
  case (HasDek call cached dek)
  with assms show ?thesis by fastforce
next
  case (Answered call t r)
  with assms show ?thesis by fastforce
qed simp_all

lemma handle_mixed:
  assumes "same_setup w w'"
  shows "handle P http iter t (mixed (shared w) (shared w')) call =
    finish (app_metrics (shared w')) t call
      (and_then (find_schema http (shared w) (call_headers call)) (\<lambda>cached.
       and_then (take_dek (shared w')) (\<lambda>dek. transform P iter call cached dek)))"
proof -
  have "app_metrics (mixed (shared w) (shared w')) = app_metrics (shared w')" by (simp add: mixed_def)
  with assms show ?thesis by (simp add: handle_parts find_schema_mixed same_setup_def)
qed

lemma answered_ok:
  assumes "seen j u" "seen k v" "j \<le> k" "same_setup u v" "app_metrics (shared v) = m"
    and "r = and_then (find_schema http (shared u) (call_headers call)) (\<lambda>cached.
       and_then (take_dek (shared v)) (\<lambda>dek. transform P iter call cached dek))"
  shows "task_ok seen P http iter (Answered call t (snd (finish m t call r)))"
proof -
  have "snd (finish m t call r) = snd (handle P http iter t (mixed (shared u) (shared v)) call)"
    using handle_mixed [OF assms(4), of P http iter t call] assms(5,6) by simp
  with assms(1-3) show ?thesis unfolding task_ok.simps by blast
qed

text \<open>A step of a task keeps this, when the state it steps in is the last one seen.\<close>

lemma find_schema_not_Panic: "find_schema http s headers \<noteq> Panic"
  by (auto simp: find_schema_def schema_name_def cache_get_def result_simps split: option.splits)

lemma take_dek_not_Panic: "take_dek s \<noteq> Panic"
  by (simp add: take_dek_def current_def result_simps)

lemma arrived_ok:
  assumes "advance P http iter i t (Arrived call) w = Some w'" "seen n w"
  shows "\<exists>task'. tasks w' = (tasks w)[i := task'] \<and> task_ok seen P http iter task'"
proof (cases "find_schema http (shared w) (call_headers call)")
  case (Ok cached)
  with assms(1) have "tasks w' = (tasks w)[i := HasSchema call cached]" by auto
  moreover from Ok assms(2) have "task_ok seen P http iter (HasSchema call cached)" by auto
  ultimately show ?thesis by blast
next
  case (Err e)
  let ?t = "Answered call t (snd (finish (app_metrics (shared w)) t call (Err e)))"
  have "tasks w' = (tasks w)[i := ?t]" using assms(1) Err by auto
  moreover have "task_ok seen P http iter ?t"
    using assms(2) Err by (intro answered_ok [where seen = seen and j = n and k = n and u = w and v = w])
      (simp_all add: same_setup_def)
  ultimately show ?thesis by blast
qed (simp add: find_schema_not_Panic)

lemma has_schema_ok:
  assumes "advance P http iter i t (HasSchema call cached) w = Some w'" "seen n w"
    and "seen j u" "j \<le> n" "same_setup u w" "find_schema http (shared u) (call_headers call) = Ok cached"
  shows "\<exists>task'. tasks w' = (tasks w)[i := task'] \<and> task_ok seen P http iter task'"
proof (cases "take_dek (shared w)")
  case (Ok dek)
  with assms(1) have "tasks w' = (tasks w)[i := HasDek call cached dek]" by auto
  moreover from Ok assms(2-6) have "task_ok seen P http iter (HasDek call cached dek)" by auto
  ultimately show ?thesis by blast
next
  case (Err e)
  let ?t = "Answered call t (snd (finish (app_metrics (shared w)) t call (Err e)))"
  have "tasks w' = (tasks w)[i := ?t]" using assms(1) Err by auto
  moreover have "task_ok seen P http iter ?t"
    using assms Err by (intro answered_ok [where seen = seen and j = j and k = n and u = u and v = w]) simp_all
  ultimately show ?thesis by blast
qed (simp add: take_dek_not_Panic)

lemma has_dek_ok:
  assumes "advance P http iter i t (HasDek call cached dek) w = Some w'"
    and "seen j u" "seen k v" "j \<le> k" "same_setup u v" "app_metrics (shared v) = app_metrics (shared w)"
    and "find_schema http (shared u) (call_headers call) = Ok cached" "take_dek (shared v) = Ok dek"
  shows "\<exists>task'. tasks w' = (tasks w)[i := task'] \<and> task_ok seen P http iter task'"
proof -
  let ?t = "Answered call t (snd (finish (app_metrics (shared w)) t call (transform P iter call cached dek)))"
  have "tasks w' = (tasks w)[i := ?t]" using assms(1) by auto
  moreover have "task_ok seen P http iter ?t"
    using assms by (intro answered_ok [where seen = seen and j = j and k = k and u = u and v = v]) simp_all
  ultimately show ?thesis by blast
qed

lemma advance_task_ok:
  assumes "advance P http iter i t task w = Some w'" "task_ok seen P http iter task"
    and "seen n w" and seen: "\<And>j u. seen j u \<Longrightarrow> j \<le> n \<and> same_setup u w"
  shows "\<exists>task'. tasks w' = (tasks w)[i := task'] \<and> task_ok seen P http iter task'"
proof (cases task)
  case (Arrived call)
  with assms(1,3) show ?thesis by (simp add: arrived_ok)
next
  case (HasSchema call cached)
  with assms(2) obtain j u where "seen j u" "find_schema http (shared u) (call_headers call) = Ok cached"
    by auto
  with assms(1,3) seen show ?thesis unfolding HasSchema by (intro has_schema_ok [where seen = seen and j = j and n = n]) auto
next
  case (HasDek call cached dek)
  with assms(2) obtain j u k v where uv: "seen j u" "seen k v" "j \<le> k"
    "find_schema http (shared u) (call_headers call) = Ok cached" "take_dek (shared v) = Ok dek"
    by auto
  with seen have "same_setup u w" "same_setup v w" by auto
  then have "same_setup u v" "app_metrics (shared v) = app_metrics (shared w)"
    by (simp_all add: same_setup_def)
  with assms(1) uv show ?thesis unfolding HasDek by (intro has_dek_ok [where seen = seen and j = j and k = k]) auto
qed (use assms(1) in auto)

lemma run_tasks_ok:
  "opt_fold (flight_step frames cfg P http iter) es w0 = Some w \<Longrightarrow> tasks w0 = [] \<Longrightarrow>
     \<forall>task \<in> set (tasks w). task_ok (passed (flight_step frames cfg P http iter) es w0) P http iter task"
proof (induction es arbitrary: w rule: rev_induct)
  case (snoc e es)
  let ?seen = "passed (flight_step frames cfg P http iter) es w0"
  from snoc.prems(1) obtain u where u: "opt_fold (flight_step frames cfg P http iter) es w0 = Some u"
    and step: "flight_step frames cfg P http iter e u = Some w"
    by (auto simp: opt_fold_append bind_eq_Some_conv)
  have old: "\<forall>task \<in> set (tasks u). task_ok ?seen P http iter task"
    by (rule snoc.IH [OF u snoc.prems(2)])
  have "\<forall>task \<in> set (tasks w). task_ok ?seen P http iter task"
  proof (cases e)
    case (Advance i t)
    with step have i: "i < length (tasks u)" and adv: "advance P http iter i t (tasks u ! i) u = Some w"
      by (auto split: if_splits)
    have "j \<le> length es \<and> same_setup v u" if "?seen j v" for j v
      using that passed_setup [OF that] run_setup [OF u] by (auto simp: passed_def same_setup_def)
    then obtain task' where "tasks w = (tasks u)[i := task']" "task_ok ?seen P http iter task'"
      using advance_task_ok [where seen = ?seen, OF adv _ passed_last [OF u]] old i by fastforce
    with old show ?thesis using set_update_subset_insert by fastforce
  next
    case (Cancel i)
    with step obtain call where "tasks w = (tasks u)[i := Cancelled call]"
      by (auto dest: cancel_effect split: if_splits)
    with old show ?thesis using set_update_subset_insert [of "tasks u" i "Cancelled call"] by auto
  qed (use old step in \<open>auto split: prod.splits\<close>)
  then show ?case by (auto intro: task_ok_mono [where seen = ?seen] passed_snoc)
qed simp

section \<open>Invariants of the shared state\<close>

text \<open>
  The store and the cache stay well formed, and tasks hold keys of the right length.
\<close>

definition flight_ok :: "('h, 'n, 't) flight \<Rightarrow> bool" where
  "flight_ok w \<longleftrightarrow>
     service_ok (shared w) \<and>
     (\<forall>call cached dek. HasDek call cached dek \<in> set (tasks w) \<longrightarrow> length dek = KEY_LEN)"

lemma advance_flight_ok:
  assumes "flight_ok w" "i < length (tasks w)" "advance P http iter i t (tasks w ! i) w = Some w'"
  shows "flight_ok w'"
proof -
  have old: "HasDek call cached dek \<in> set (tasks w) \<Longrightarrow> length dek = KEY_LEN" for call cached dek
    using assms(1) by (auto simp: flight_ok_def)
  have upd: "HasDek call cached dek \<in> set ((tasks w)[i := x]) \<Longrightarrow>
      HasDek call cached dek = x \<or> HasDek call cached dek \<in> set (tasks w)" for call cached dek x
    using set_update_subset_insert by fastforce
  have key: "take_dek (shared w) = Ok dek \<Longrightarrow> length dek = KEY_LEN" for dek
    using assms(1) dek.invar_valid [of "dek_store (shared w)" dek]
    by (auto simp: flight_ok_def service_ok_def app_ok_def take_dek_def result_simps)

  show ?thesis
    using assms(1,3)
    by (cases "tasks w ! i")
      (auto simp: flight_ok_def split: result.splits dest!: upd old key)
qed

lemma flight_step_ok:
  assumes "flight_ok w" "flight_step frames cfg P http iter e w = Some w'"
  shows "flight_ok w'"
proof (cases e)
  case (Arrive call)
  with assms show ?thesis by (auto simp: flight_ok_def)
next
  case (Advance i t)
  with assms show ?thesis by (auto intro: advance_flight_ok split: if_splits)
next
  case (Cancel i)
  with assms(2) obtain call where "shared w' = shared w"
    and upd: "tasks w' = (tasks w)[i := Cancelled call]"
    by (auto dest: cancel_effect split: if_splits)
  moreover have "set (tasks w') \<subseteq> insert (Cancelled call) (set (tasks w))"
    unfolding upd by (rule set_update_subset_insert)
  ultimately show ?thesis using assms(1) by (auto simp: flight_ok_def)
next
  case (RotateTick aws)
  with assms show ?thesis
    by (auto simp: flight_ok_def service_ok_def app_ok_def rotation_tick_eq fetch_and_store_ok)
next
  case (RefreshTick io)
  with assms show ?thesis
    by (auto simp: flight_ok_def service_ok_def app_ok_def intro: refresh_tick_cache_ok)
qed

interpretation flight_run: step_machine "flight_step frames cfg P http iter" flight_ok
  for frames cfg P http iter
  by unfold_locales (rule flight_step_ok)

lemma passed_flight_ok:
  "flight_ok w0 \<Longrightarrow> passed (flight_step frames cfg P http iter) es w0 j w \<Longrightarrow> flight_ok w"
  by (auto simp: passed_def intro: flight_run.run_invar)

lemma mixed_app_ok: "flight_ok w \<Longrightarrow> flight_ok w' \<Longrightarrow> app_ok (mixed (shared w) (shared w'))"
  by (simp add: flight_ok_def service_ok_def app_ok_def mixed_def)

section \<open>Properties\<close>

text \<open>A request that nothing disturbs takes three steps and is answered as by the handler.\<close>

lemma undisturbed:
  assumes "schema_and_dek http (shared w) (call_headers call) = Ok (cached, dek)"
  shows "\<exists>w'. opt_fold (flight_step frames cfg P http iter)
      (Arrive call # replicate 3 (Advance (length (tasks w)) t)) w = Some w' \<and>
    shared w' = shared w \<and>
    tasks w' = tasks w @ [Answered call t (snd (handle P http iter t (shared w) call))]"
proof -
  have "find_schema http (shared w) (call_headers call) = Ok cached" "take_dek (shared w) = Ok dek"
    using assms by (auto simp: schema_and_dek_parts result_simps)
  then show ?thesis by (simp add: eval_nat_numeral handle_parts list_update_append)
qed

text \<open>
  Requests are serialised: whatever rotations, refreshes and other requests happen while a request
  is in flight, its answer is the one the handler gives when run at once on a state made of the
  schema cache at one moment of the run and the rest of the state at the same or a later moment.
\<close>

lemma requests_are_serialised:
  assumes "opt_fold (flight_step frames cfg P http iter) events (flight_new s) = Some w"
    and "Answered call t response \<in> set (tasks w)"
  shows "\<exists>j k w1 w2. j \<le> k \<and> k \<le> length events \<and>
    opt_fold (flight_step frames cfg P http iter) (take j events) (flight_new s) = Some w1 \<and>
    opt_fold (flight_step frames cfg P http iter) (take k events) (flight_new s) = Some w2 \<and>
    response = snd (handle P http iter t ((shared w2)\<lparr>schema_cache := schema_cache (shared w1)\<rparr>) call)"
proof -
  have "task_ok (passed (flight_step frames cfg P http iter) events (flight_new s)) P http iter
      (Answered call t response)"
    using run_tasks_ok [OF assms(1)] assms(2) by (auto simp: flight_new_def simp del: task_ok.simps)
  then obtain j w1 k w2 where "passed (flight_step frames cfg P http iter) events (flight_new s) j w1"
    "passed (flight_step frames cfg P http iter) events (flight_new s) k w2" "j \<le> k"
    "response = snd (handle P http iter t (mixed (shared w1) (shared w2)) call)"
    by auto
  then show ?thesis unfolding passed_def mixed_def by blast
qed

definition sample_call :: "((string \<times> string) list, int) call" where
  "sample_call = EncryptCall sample_headers \<lparr>encrypt_request_payload = user_payload\<rparr>"

abbreviation sample_flight_step ::
  "(unit, (string \<times> string) list, int, nat) flight_event \<Rightarrow>
     ((string \<times> string) list, int, nat) flight \<Rightarrow> ((string \<times> string) list, int, nat) flight option" where
  "sample_flight_step \<equiv> flight_step 10 sample_config sample_crypto sample_http sorted_list_of_set"

definition straddling_events :: "(unit, (string \<times> string) list, int, nat) flight_event list" where
  "straddling_events =
     [Arrive sample_call, Advance 0 7, RotateTick (sample_aws (Some (replicate 32 1))), Advance 0 7, Advance 0 7]"

lemma straddling_run:
  "\<exists>w response. opt_fold sample_flight_step straddling_events (flight_new sample_state) = Some w \<and>
     tasks w = [Answered sample_call 7 response]"
proof -
  let ?cached = "\<lparr>cached_api = sample_api, pii_paths = {''ssn'', ''homes[].street'', ''street''}\<rparr>"
  have found: "find_schema sample_http sample_state (call_headers sample_call) = Ok ?cached"
    using sample_state_lookup by (auto simp: sample_call_def schema_and_dek_parts result_simps)
  obtain d log where rot: "rotation_tick sample_config (dek_rotations (app_metrics sample_state))
      (sample_aws (Some (replicate 32 1))) (dek_store sample_state, [] :: nat measurement list) = (d, log)"
    by (rule prod.exhaust)
  then have "d = fst (fetch_and_store (sample_aws (Some (replicate 32 1))) sample_config (dek_store sample_state))"
    by (simp add: rotation_tick_eq)
  then have "current d = Ok (replicate 32 1)"
    by (simp add: fetch_and_store_state fetched_key_def sample_aws_def KEY_LEN_def dek.put_valid)
  then have key: "take_dek (sample_state\<lparr>dek_store := d\<rparr>) = Ok (replicate 32 1)"
    by (simp add: take_dek_def)
  show ?thesis
    by (simp add: straddling_events_def flight_new_def found rot key)
qed

lemma finish_answers: "r \<noteq> Panic \<Longrightarrow> \<exists>response. snd (finish m t call r) = Some response"
  by (cases r) (auto simp: finish_def split: prod.splits)

lemma transform_not_Panic: "hmac_ok P \<Longrightarrow> transform P iter call cached dek \<noteq> Panic"
  by (cases call) (auto simp: map_err_Panic_iff encrypt_pii_fields_not_Panic decrypt_pii_fields_not_Panic)

section \<open>The abstract service with requests\<close>

text \<open>
  What the abstract service answers: it knows of a state only the paths of each schema and the key.
  The paths may be those of an earlier moment than the key.
\<close>

definition spec_handle ::
  "('c, 'z) crypto_scheme \<Rightarrow> ('h, 'v, 'y) http_scheme \<Rightarrow> (string set \<Rightarrow> string list) \<Rightarrow> 't \<Rightarrow> 'n app_state \<Rightarrow>
     service_spec \<Rightarrow> service_spec \<Rightarrow> ('h, 'n) call \<Rightarrow> 't measurement list \<times> 'n response option" where
  "spec_handle P http iter elapsed setup a b call =
     finish (app_metrics setup) elapsed call
       (and_then (schema_name http setup (call_headers call)) (\<lambda>name.
        and_then (ok_or (spec_paths a name)
          (400, error_response_new ''bad_request'' (''unknown schema: '' @ name))) (\<lambda>paths.
        and_then (ok_or (spec_key b)
          (503, error_response_new ''service_unavailable'' ''DEK not yet initialised'')) (\<lambda>dek.
          transform P iter call \<lparr>cached_api = \<lparr>components = None\<rparr>, pii_paths = paths\<rparr> dek))))"

text \<open>The background events of a run; the requests do not change what the abstract service knows.\<close>

fun background :: "('x, 'h, 'n, 't) flight_event \<Rightarrow> ('x, 'n, 'h, 'b, 't) event option" where
  "background (RotateTick aws) = Some (Rotate aws)"
| "background (RefreshTick io) = Some (Refresh io)"
| "background _ = None"

lemma transform_paths:
  "pii_paths cached = pii_paths cached' \<Longrightarrow> transform P iter call cached dek = transform P iter call cached' dek"
  by (cases call) simp_all

lemma handle_spec:
  "handle P http iter t (mixed s1 s2) call = spec_handle P http iter t s2 (service_abs s1) (service_abs s2) call"
proof -
  have name: "schema_name http (mixed s1 s2) h = schema_name http s2 h" for h
    by (simp add: schema_name_def mixed_def cong: option.case_cong)
  have m: "app_metrics (mixed s1 s2) = app_metrics s2" "schema_cache (mixed s1 s2) = schema_cache s1"
    by (simp_all add: mixed_def)
  have key: "take_dek s2 = ok_or (spec_key (service_abs s2))
      (503, error_response_new ''service_unavailable'' ''DEK not yet initialised'')"
    by (cases "inner (dek_store s2)") (simp_all add: take_dek_def current_def service_abs_def)
  show ?thesis
  proof (cases "schema_name http s2 (call_headers call)")
    case (Ok name)
    show ?thesis
    proof (cases "map_of (schema_cache s1) name")
      case (Some cached)
      have "transform P iter call cached =
          transform P iter call \<lparr>cached_api = \<lparr>components = None\<rparr>, pii_paths = pii_paths cached\<rparr>"
        by (rule ext, rule transform_paths) simp
      with Some show ?thesis
        by (simp add: handle_parts find_schema_def name Ok m key cache_get_def spec_handle_def service_abs_def)
    qed (simp add: handle_parts find_schema_def name Ok m cache_get_def spec_handle_def service_abs_def)
  qed (simp_all add: handle_parts find_schema_def name m spec_handle_def)
qed

lemma flight_step_abs:
  assumes "flight_step frames cfg P http iter e w = Some w'"
  shows "service_abs (shared w') =
    (case background e :: ('x, 'n, 'h, unit, 't) event option of
       Some b \<Rightarrow> spec_step cfg b (service_abs (shared w)) | None \<Rightarrow> service_abs (shared w))"
  using assms
proof (cases e)
  case (RotateTick aws)
  with assms show ?thesis
    by (auto simp: service_abs_def rotation_tick_eq fetch_and_store_state store_def split: option.split)
next
  case (RefreshTick io)
  with assms obtain c where "refresh_tick frames cfg io (schema_cache (shared w)) = Some c"
    "shared w' = (shared w)\<lparr>schema_cache := c\<rparr>" by auto
  with RefreshTick show ?thesis
    using refresh_paths [of frames cfg io "schema_cache (shared w)" c]
    by (simp add: service_abs_def split: option.split)
qed (auto dest: advance_shared cancel_effect split: if_splits)

lemma flight_run_abs:
  "opt_fold (flight_step frames cfg P http iter) events w = Some w' \<Longrightarrow>
     service_abs (shared w') =
       fold (spec_step cfg) (List.map_filter background events :: ('x, 'n, 'h, unit, 't) event list)
         (service_abs (shared w))"
proof (induction events arbitrary: w)
  case (Cons e events)
  then obtain u where "flight_step frames cfg P http iter e w = Some u"
    "opt_fold (flight_step frames cfg P http iter) events u = Some w'"
    by (auto simp: bind_eq_Some_conv)
  with Cons.IH [of u] flight_step_abs [of frames cfg P http iter e w u] show ?case
    by (simp add: map_filter_simps split: option.split)
qed (simp add: map_filter_simps)

lemma spec_handle_setup:
  "app_state.schema_header_name s = app_state.schema_header_name s' \<Longrightarrow> app_metrics s = app_metrics s' \<Longrightarrow>
     spec_handle P http iter t s a b call = spec_handle P http iter t s' a b call"
  by (simp add: spec_handle_def schema_name_def cong: option.case_cong)

text \<open>
  C7. The concurrent service implements the abstract one, answers included: every request in flight is
  answered as the abstract service answers it, with the paths it knows after the background events
  before one moment of the run and the key it has after those before the same or a later moment.
\<close>

theorem answers_refine_spec:
  fixes events :: "('x, 'h, 'n, 't) flight_event list"
  assumes "opt_fold (flight_step frames cfg P http iter) events (flight_new s) = Some w"
    and "Answered call t response \<in> set (tasks w)"
  shows "\<exists>j k. j \<le> k \<and> k \<le> length events \<and>
    response = snd (spec_handle P http iter t s
      (fold (spec_step cfg) (List.map_filter background (take j events) :: ('x, 'n, 'h, unit, 't) event list) (service_abs s))
      (fold (spec_step cfg) (List.map_filter background (take k events) :: ('x, 'n, 'h, unit, 't) event list) (service_abs s))
      call)"
proof -
  let ?step = "flight_step frames cfg P http iter"
  have "task_ok (passed ?step events (flight_new s)) P http iter (Answered call t response)"
    using run_tasks_ok [OF assms(1)] assms(2) by (auto simp: flight_new_def simp del: task_ok.simps)
  then obtain j w1 k w2 where seen: "passed ?step events (flight_new s) j w1"
    "passed ?step events (flight_new s) k w2" "j \<le> k"
    and r: "response = snd (handle P http iter t (mixed (shared w1) (shared w2)) call)"
    by auto
  have "spec_handle P http iter t (shared w2) (service_abs (shared w1)) (service_abs (shared w2)) call =
      spec_handle P http iter t s (service_abs (shared w1)) (service_abs (shared w2)) call"
    using passed_setup [OF seen(2)] by (intro spec_handle_setup) (simp_all add: same_setup_def flight_new_def)
  then have "response = snd (spec_handle P http iter t s (service_abs (shared w1)) (service_abs (shared w2)) call)"
    unfolding r handle_spec by (rule arg_cong)
  moreover have "service_abs (shared w1) = fold (spec_step cfg)
      (List.map_filter background (take j events) :: ('x, 'n, 'h, unit, 't) event list) (service_abs s)"
    "service_abs (shared w2) = fold (spec_step cfg)
      (List.map_filter background (take k events) :: ('x, 'n, 'h, unit, 't) event list) (service_abs s)"
    using seen(1,2) flight_run_abs [where w = "flight_new s" and cfg = cfg]
    by (auto simp: passed_def flight_new_def)
  ultimately show ?thesis using seen unfolding passed_def by metis
qed

theorem answers_refine_spec_witness:
  "\<exists>w response a b. opt_fold sample_flight_step straddling_events (flight_new sample_state) = Some w \<and>
     tasks w = [Answered sample_call 7 response] \<and>
     response = snd (spec_handle sample_crypto sample_http sorted_list_of_set (7 :: nat) sample_state a b sample_call)"
proof -
  obtain w response where w: "opt_fold sample_flight_step straddling_events (flight_new sample_state) = Some w"
    "tasks w = [Answered sample_call 7 response]"
    using straddling_run by blast
  moreover from w answers_refine_spec [OF w(1), of sample_call 7 response] obtain a b where
    "response = snd (spec_handle sample_crypto sample_http sorted_list_of_set (7 :: nat) sample_state a b sample_call)"
    by auto
  ultimately show ?thesis by blast
qed

end
