(* ===== verification/Flight_Metrics.thy ===== *)
theory Flight_Metrics
  imports In_Flight "HOL-Library.Multiset"
begin

text \<open>
  The measurements of requests in flight (\<open>src/crates/enclave/src/server/handlers.rs\<close>,
  \<open>src/crates/enclave/src/dek/mod.rs\<close>): whatever the interleaving, the log of the meter is, up to the
  order of its entries, what each answered request records and one entry for each rotation that
  succeeded. The order depends on the scheduler, so the log is compared as a multiset.
\<close>

section \<open>What a task records\<close>

fun answer_log :: "metrics \<Rightarrow> ('h, 'n, 't) task \<Rightarrow> 't measurement list" where
  "answer_log m (Answered call elapsed (Some (status, body))) =
     (let attrs = (if status = 200 then success_attrs else error_attrs)
      in [Add (fst (call_instruments m call)) 1 attrs, Record (snd (call_instruments m call)) elapsed attrs])"
| "answer_log m _ = []"

text \<open>The rotations of a run that fetched a key the store accepts.\<close>

fun rotates :: "config \<Rightarrow> ('x, 'h, 'n, 't) flight_event \<Rightarrow> bool" where
  "rotates cfg (RotateTick aws) = (case fetched_key aws cfg of Some key \<Rightarrow> length key = KEY_LEN | None \<Rightarrow> False)"
| "rotates cfg _ = False"

section \<open>Lemmas\<close>

text \<open>An error of a handler never carries the status of a success.\<close>

lemma find_schema_status: "find_schema http s headers = Err (status, err) \<Longrightarrow> status \<noteq> 200"
  by (auto simp: find_schema_def schema_name_def cache_get_def err_simps result_simps split: option.splits)

lemma take_dek_status: "take_dek s = Err (status, err) \<Longrightarrow> status \<noteq> 200"
  by (auto simp: take_dek_def err_simps result_simps)

lemma transform_status: "transform P iter call cached dek = Err (status, err) \<Longrightarrow> status \<noteq> 200"
  by (cases call) (auto simp: err_simps result_simps)

lemma finish_log:
  assumes "\<And>status err. r = Err (status, err) \<Longrightarrow> status \<noteq> 200"
  shows "fst (finish m t call r) = answer_log m (Answered call t (snd (finish m t call r)))"
  using assms by (cases r) (auto simp: finish_def Let_def split: prod.splits)

lemma answer_log_eq:
  assumes "\<And>status err. r = Err (status, err) \<Longrightarrow> status \<noteq> 200"
  shows "flight_log (answer i call t r w) =
    flight_log w @ answer_log (app_metrics (shared w))
      (Answered call t (snd (finish (app_metrics (shared w)) t call r)))"
  using finish_log [of r "app_metrics (shared w)" t call] assms
  by (auto simp: answer_def simp del: answer_log.simps split: prod.split)

text \<open>Replacing a task that has recorded nothing adds what the new one has recorded.\<close>

lemma mset_concat_update:
  assumes "i < length xs" "g (xs ! i) = []"
  shows "mset (concat (map g (xs[i := y]))) = mset (concat (map g xs)) + mset (g y)"
proof -
  have "concat (map g xs) = concat (map g (take i xs)) @ concat (map g (drop (Suc i) xs))"
    by (subst id_take_nth_drop [OF assms(1)]) (simp add: assms(2))
  moreover have "concat (map g (xs[i := y])) = concat (map g (take i xs)) @ g y @ concat (map g (drop (Suc i) xs))"
    using assms(1) by (simp add: upd_conv_take_nth_drop)
  ultimately show ?thesis by simp
qed

text \<open>A step appends to the log what its task has recorded, or its rotation.\<close>

lemma advance_log:
  assumes "advance P http iter i t task w = Some w'"
  shows "\<exists>task'. tasks w' = (tasks w)[i := task'] \<and>
    flight_log w' = flight_log w @ answer_log (app_metrics (shared w)) task' \<and>
    answer_log (app_metrics (shared w)) task = []"
proof (cases task)
  case (Arrived call)
  show ?thesis
  proof (cases "find_schema http (shared w) (call_headers call)")
    case (Err e)
    have "flight_log (answer i call t (Err e) w) = flight_log w @ answer_log (app_metrics (shared w))
        (Answered call t (snd (finish (app_metrics (shared w)) t call (Err e))))"
      using Err find_schema_status [of http "shared w" "call_headers call"] by (intro answer_log_eq) auto
    with assms Arrived Err show ?thesis by (auto simp del: answer_log.simps(1))
  qed (use assms Arrived in \<open>auto simp: find_schema_not_Panic\<close>)
next
  case (HasSchema call cached)
  show ?thesis
  proof (cases "take_dek (shared w)")
    case (Err e)
    have "flight_log (answer i call t (Err e) w) = flight_log w @ answer_log (app_metrics (shared w))
        (Answered call t (snd (finish (app_metrics (shared w)) t call (Err e))))"
      using Err take_dek_status [of "shared w"] by (intro answer_log_eq) auto
    with assms HasSchema Err show ?thesis by (auto simp del: answer_log.simps(1))
  qed (use assms HasSchema in \<open>auto simp: take_dek_not_Panic\<close>)
next
  case (HasDek call cached dek)
  have "flight_log (answer i call t (transform P iter call cached dek) w) =
      flight_log w @ answer_log (app_metrics (shared w))
        (Answered call t (snd (finish (app_metrics (shared w)) t call (transform P iter call cached dek))))"
    by (rule answer_log_eq) (rule transform_status)
  with assms HasDek show ?thesis by (auto simp del: answer_log.simps(1))
qed (use assms in auto)

lemma cancel_log:
  "cancel i task w = Some w' \<Longrightarrow>
     flight_log w' = flight_log w \<and> answer_log m task = [] \<and> (\<exists>call. tasks w' = (tasks w)[i := Cancelled call])"
  by (cases task) auto

definition balanced :: "metrics \<Rightarrow> nat \<Rightarrow> ('h, 'n, 't) flight \<Rightarrow> bool" where
  "balanced m n w \<longleftrightarrow>
     mset (flight_log w) =
       mset (concat (map (answer_log m) (tasks w))) + replicate_mset n (Add (dek_rotations m) 1 [])"

lemma flight_step_balanced:
  assumes "flight_step frames cfg P http iter e w = Some w'" "app_metrics (shared w) = m" "balanced m n w"
  shows "balanced m (n + (if rotates cfg e then 1 else 0)) w'"
proof (cases e)
  case (Advance i t)
  with assms(1) have i: "i < length (tasks w)" and "advance P http iter i t (tasks w ! i) w = Some w'"
    by (auto split: if_splits)
  from advance_log [OF this(2)] obtain task' where "tasks w' = (tasks w)[i := task']"
    "flight_log w' = flight_log w @ answer_log m task'" "answer_log m (tasks w ! i) = []"
    unfolding assms(2) by blast
  with mset_concat_update [OF i, of "answer_log m" task'] assms(3) Advance show ?thesis
    by (simp add: balanced_def)
next
  case (Cancel i)
  with assms(1) have i: "i < length (tasks w)" and "cancel i (tasks w ! i) w = Some w'"
    by (auto split: if_splits)
  from cancel_log [OF this(2), of m] obtain call where "tasks w' = (tasks w)[i := Cancelled call]"
    "flight_log w' = flight_log w" "answer_log m (tasks w ! i) = []" by blast
  with mset_concat_update [OF i, of "answer_log m" "Cancelled call"] assms(3) Cancel show ?thesis
    by (simp add: balanced_def)
qed (use assms in \<open>auto simp: balanced_def rotation_tick_eq fetch_and_store_Ok_iff split: option.splits\<close>)

lemma run_balanced:
  "opt_fold (flight_step frames cfg P http iter) es w0 = Some w \<Longrightarrow> app_metrics (shared w0) = m \<Longrightarrow>
     balanced m 0 w0 \<Longrightarrow> balanced m (length (filter (rotates cfg) es)) w"
proof (induction es arbitrary: w rule: rev_induct)
  case (snoc e es)
  then obtain u where u: "opt_fold (flight_step frames cfg P http iter) es w0 = Some u"
    and step: "flight_step frames cfg P http iter e u = Some w"
    by (auto simp: opt_fold_append bind_eq_Some_conv)
  have "app_metrics (shared u) = m" using run_setup [OF u] snoc.prems(2) by (simp add: same_setup_def)
  from flight_step_balanced [OF step this snoc.IH [OF u snoc.prems(2,3)]] show ?case by (auto split: if_splits)
qed simp

section \<open>Properties\<close>

text \<open>
  C24. Every request in flight is counted once and timed once when it is answered, under \<open>success\<close> exactly
  when the answer is \<open>200\<close> and with the instruments of its endpoint; requests that are cancelled or
  still running are not counted, and the only other entries of the log are one for each rotation that
  brought a 32-byte key. The order of the entries is the scheduler's.
\<close>

theorem measurements_balance:
  assumes "opt_fold (flight_step frames cfg P http iter) events (flight_new s) = Some w"
  shows "mset (flight_log w) =
    mset (concat (map (answer_log (app_metrics s)) (tasks w))) +
    replicate_mset (length (filter (rotates cfg) events)) (Add (dek_rotations (app_metrics s)) 1 [])"
  using run_balanced [OF assms, of "app_metrics s"] by (simp add: balanced_def flight_new_def)

theorem measurements_balance_witness:
  "\<exists>w entries. opt_fold sample_flight_step straddling_events (flight_new sample_state) = Some w \<and>
     mset (flight_log w) = mset entries + {#Add (dek_rotations (app_metrics sample_state)) 1 []#}"
proof -
  obtain w where w: "opt_fold sample_flight_step straddling_events (flight_new sample_state) = Some w"
    using straddling_run by blast
  have "length (filter (rotates sample_config) straddling_events) = 1"
    by (simp add: straddling_events_def fetched_key_def sample_aws_def KEY_LEN_def)
  with measurements_balance [OF w] w show ?thesis by auto
qed

text \<open>The counters of the shipped instruments: each one counts its own endpoint.\<close>

lemma counted_mset: "mset xs = mset ys \<Longrightarrow> counted i xs = counted i ys"
proof (induction xs arbitrary: ys)
  case (Cons x xs)
  then obtain as bs where ys: "ys = as @ x # bs" "mset xs = mset (as @ bs)"
    by (metis list.set_intros(1) mset_eq_setD split_list add_mset_remove_trivial mset.simps(2)
        mset_append union_mset_add_mset_right)
  show ?case using Cons.IH [OF ys(2)] unfolding ys(1) by (cases x) (simp_all add: counted_append)
qed simp

fun answered_encrypt :: "('h, 'n, 't) task \<Rightarrow> bool" where
  "answered_encrypt (Answered (EncryptCall _ _) _ (Some _)) = True"
| "answered_encrypt _ = False"

lemma counted_answers:
  "counted (encrypt_requests metrics_new) (concat (map (answer_log metrics_new) ts)) =
     of_nat (length (filter answered_encrypt ts))"
proof (induction ts)
  case (Cons task ts)
  have "counted (encrypt_requests metrics_new) (answer_log metrics_new task) =
      (if answered_encrypt task then 1 else 0)"
  proof (induction "metrics_new" task rule: answer_log.induct)
    case (1 call elapsed status body)
    then show ?case by (cases call) (simp_all add: metrics_new_def Let_def)
  qed simp_all
  with Cons show ?case by (simp add: counted_append)
qed simp

lemma counted_rotations: "counted (encrypt_requests metrics_new) (replicate n (Add (dek_rotations metrics_new) 1 a)) = 0"
  by (induction n) (simp_all add: metrics_new_def)

lemma encrypt_counter:
  assumes "opt_fold (flight_step frames cfg P http iter) events (flight_new s) = Some w"
    and "app_metrics s = metrics_new"
  shows "counted (encrypt_requests metrics_new) (flight_log w) = of_nat (length (filter answered_encrypt (tasks w)))"
proof -
  have "mset (flight_log w) = mset (concat (map (answer_log metrics_new) (tasks w)) @
      replicate (length (filter (rotates cfg) events)) (Add (dek_rotations metrics_new) 1 []))"
    using run_balanced [OF assms(1), of metrics_new] assms(2) by (simp add: balanced_def flight_new_def)
  from counted_mset [OF this] show ?thesis by (simp add: counted_append counted_answers counted_rotations)
qed

end
