(* ===== verification/Key_Memory.thy ===== *)
theory Key_Memory
  imports In_Flight
begin

text \<open>
  The key in memory (\<open>src/crates/enclave/src/dek/store.rs\<close>, \<open>dek/mod.rs\<close>, \<open>server/handlers.rs\<close>).
  \<open>In_Flight\<close> has the key as a value that the store holds, a rotation replaces and a request takes in one step. In
  the code the store is a \<open>tokio::sync::RwLock\<close> around a box, \<open>store\<close> and \<open>current\<close> wait for the lock, a clone is
  a box of its own and \<open>Drop\<close> overwrites a box. This theory has the boxes, the lock and the
  waiting, and shows which boxes can hold a key at any moment. \<open>Key_Lock\<close> shows that the code refines the
  one-step view and cannot deadlock. Key schedules inside the cipher crates are third-party and not among the boxes.
\<close>

section \<open>Boxes\<close>

text \<open>
  The contents of every box that was ever allocated for key material, by address. A box that has been freed keeps
  its contents: that is why \<open>Drop\<close> overwrites them. \<open>slot\<close> is the \<open>Option<DekBytes>\<close> inside the lock, and
  \<open>blobs\<close> are the boxes that belong to answers of KMS.
\<close>

record memory =
  boxes :: "u8 list list"
  slot :: "nat option"
  blobs :: "nat list"

definition new_box :: "u8 list \<Rightarrow> memory \<Rightarrow> nat \<times> memory" where
  "new_box bytes m = (length (boxes m), m\<lparr>boxes := boxes m @ [bytes]\<rparr>)"

definition drop_box :: "nat \<Rightarrow> memory \<Rightarrow> memory" where
  "drop_box a m = m\<lparr>boxes := (boxes m)[a := drop_dek_bytes (boxes m ! a)]\<rparr>"

text \<open>\<open>DekStore::store\<close> up to the \<open>await\<close>: the check and the new box.\<close>

definition store_buf :: "u8 list \<Rightarrow> memory \<Rightarrow> memory \<times> (nat, dek_error) result" where
  "store_buf key_bytes m =
     (if length key_bytes \<noteq> KEY_LEN then (m, Err (InvalidLength (length key_bytes)))
      else (case new_box (replicate KEY_LEN 0) m of
              (buf, m) \<Rightarrow> (m\<lparr>boxes := (boxes m)[buf := key_bytes]\<rparr>, Ok buf)))"

text \<open>The assignment under the write guard: it drops the old value in place, then the new one is there.\<close>

definition drop_old :: "memory \<Rightarrow> memory" where
  "drop_old m = (case slot m of Some old \<Rightarrow> (drop_box old m)\<lparr>slot := None\<rparr> | None \<Rightarrow> m)"

definition put_new :: "nat \<Rightarrow> memory \<Rightarrow> memory" where
  "put_new buf m = m\<lparr>slot := Some buf\<rparr>"

text \<open>\<open>DekStore::current\<close> under the read guard.\<close>

definition clone_current :: "memory \<Rightarrow> memory \<times> (nat, dek_error) result" where
  "clone_current m =
     (case slot m of
        Some a \<Rightarrow> (case new_box (boxes m ! a) m of (b, m) \<Rightarrow> (m, Ok b))
      | None \<Rightarrow> (m, Err NotInitialised))"

text \<open>
  \<open>fetch_and_store\<close> up to the \<open>await\<close> in \<open>store\<close>. The plaintext is borrowed from the answer of KMS, which
  is released with its contents when the function returns.
\<close>

definition fetch_buf ::
  "('x) dek_aws_scheme \<Rightarrow> config \<Rightarrow> memory \<Rightarrow> memory \<times> (nat, anyhow) result" where
  "fetch_buf aws cfg m =
     (case kms_plaintext aws cfg of
        Ok plaintext \<Rightarrow>
          (case new_box plaintext m of
             (blob, m) \<Rightarrow>
               (case store_buf (boxes m ! blob) (m\<lparr>blobs := blobs m @ [blob]\<rparr>) of
                  (m, r) \<Rightarrow>
                    (m, with_context (map_err (\<lambda>e. [show_dek_error e]) r)
                          ''failed to store decrypted DEK (unexpected key length)'')))
      | Err e \<Rightarrow> (m, Err e)
      | Panic \<Rightarrow> (m, Panic))"

section \<open>The lock\<close>

text \<open>
  The lock is \<open>tokio\<close>'s. It is a function that tells, from the number of read guards, whether there is a write guard,
  and the requests that wait in order of arrival, whether a request is granted.
\<close>

datatype lock_request = ReadReq nat | WriteReq

type_synonym rwlock = "nat \<times> bool \<Rightarrow> lock_request list \<Rightarrow> lock_request \<Rightarrow> bool"

text \<open>Its documentation: any number of readers or one writer, and a lock that is free serves someone who waits.\<close>

definition rwlock_ok :: "rwlock \<Rightarrow> bool" where
  "rwlock_ok lk \<longleftrightarrow>
     (\<forall>readers writer q i. lk (readers, writer) q (ReadReq i) \<longrightarrow> \<not> writer) \<and>
     (\<forall>readers writer q. lk (readers, writer) q WriteReq \<longrightarrow> readers = 0 \<and> \<not> writer) \<and>
     (\<forall>q. q \<noteq> [] \<longrightarrow> (\<exists>r \<in> set q. lk (0, False) q r))"

section \<open>Requests and rotations\<close>

text \<open>
  A request that has its schema waits for the read guard, holds it while it clones, and then holds its
  clone until it returns.
\<close>

datatype ('h, 'n, 't) mtask =
    MArrived "('h, 'n) call"
  | MQueued "('h, 'n) call" "'n cached_schema"
  | MReading "('h, 'n) call" "'n cached_schema"
  | MHasDek "('h, 'n) call" "'n cached_schema" nat
  | MAnswered "('h, 'n) call" 't "'n response option"
  | MCancelled "('h, 'n) call"

text \<open>The rotation task: with a new key, waiting for the write guard, holding it, and between the two halves of the assignment.\<close>

datatype 'x rotator =
    Resting
  | Storing "'x dek_aws_scheme" nat
  | Locked "'x dek_aws_scheme" nat
  | Erased "'x dek_aws_scheme" nat

text \<open>The rest of the state is as before; the key store inside \<open>msetup\<close> is not used.\<close>

record ('x, 'h, 'n, 't) mflight =
  msetup :: "'n app_state"
  memory :: memory
  queue :: "lock_request list"
  mtasks :: "('h, 'n, 't) mtask list"
  rotator :: "'x rotator"
  mlog :: "'t measurement list"

datatype ('x, 'h, 'n, 't) mevent =
    MArrive "('h, 'n) call"
  | MStep nat 't
  | MCancel nat
  | MTick "'x dek_aws_scheme"
  | MRotate
  | MRefresh "'n s3_io"

fun is_reading :: "('h, 'n, 't) mtask \<Rightarrow> bool" where
  "is_reading (MReading _ _) = True"
| "is_reading _ = False"

fun is_writing :: "'x rotator \<Rightarrow> bool" where
  "is_writing (Locked _ _) = True"
| "is_writing (Erased _ _) = True"
| "is_writing _ = False"

definition guards :: "('x, 'h, 'n, 't) mflight \<Rightarrow> nat \<times> bool" where
  "guards w = (length (filter is_reading (mtasks w)), is_writing (rotator w))"

definition manswer ::
  "nat \<Rightarrow> ('h, 'n) call \<Rightarrow> 't \<Rightarrow> ('n json, u16 \<times> error_response) result \<Rightarrow>
     ('x, 'h, 'n, 't) mflight \<Rightarrow> ('x, 'h, 'n, 't) mflight" where
  "manswer i call elapsed r w =
     (case finish (app_metrics (msetup w)) elapsed call r of
        (recorded, response) \<Rightarrow>
          w\<lparr>mtasks := (mtasks w)[i := MAnswered call elapsed response], mlog := mlog w @ recorded\<rparr>)"

fun mtask_step ::
  "rwlock \<Rightarrow> ('c, 'z) crypto_scheme \<Rightarrow> ('h, 'v, 'y) http_scheme \<Rightarrow> (string set \<Rightarrow> string list) \<Rightarrow> nat \<Rightarrow> 't \<Rightarrow>
     ('h, 'n, 't) mtask \<Rightarrow> ('x, 'h, 'n, 't) mflight \<Rightarrow> ('x, 'h, 'n, 't) mflight option" where
  "mtask_step lk P http iter i elapsed (MArrived call) w =
     Some (case find_schema http (msetup w) (call_headers call) of
             Ok cached \<Rightarrow> w\<lparr>mtasks := (mtasks w)[i := MQueued call cached], queue := queue w @ [ReadReq i]\<rparr>
           | Err e \<Rightarrow> manswer i call elapsed (Err e) w
           | Panic \<Rightarrow> manswer i call elapsed Panic w)"
| "mtask_step lk P http iter i elapsed (MQueued call cached) w =
     (if lk (guards w) (queue w) (ReadReq i)
      then Some (w\<lparr>mtasks := (mtasks w)[i := MReading call cached], queue := remove1 (ReadReq i) (queue w)\<rparr>)
      else None)"
| "mtask_step lk P http iter i elapsed (MReading call cached) w =
     Some (case clone_current (memory w) of
             (m, Ok dek) \<Rightarrow> w\<lparr>mtasks := (mtasks w)[i := MHasDek call cached dek], memory := m\<rparr>
           | (m, Err e) \<Rightarrow>
               manswer i call elapsed
                 (Err (503, error_response_new ''service_unavailable'' ''DEK not yet initialised'')) (w\<lparr>memory := m\<rparr>)
           | (m, Panic) \<Rightarrow> manswer i call elapsed Panic (w\<lparr>memory := m\<rparr>))"
| "mtask_step lk P http iter i elapsed (MHasDek call cached dek) w =
     Some ((manswer i call elapsed (transform P iter call cached (boxes (memory w) ! dek)) w)
             \<lparr>memory := drop_box dek (memory w)\<rparr>)"
| "mtask_step lk P http iter i elapsed (MAnswered _ _ _) w = None"
| "mtask_step lk P http iter i elapsed (MCancelled _) w = None"

text \<open>A handler is dropped where it waits, and then no longer waits for the lock.\<close>

fun mcancel :: "nat \<Rightarrow> ('h, 'n, 't) mtask \<Rightarrow> ('x, 'h, 'n, 't) mflight \<Rightarrow> ('x, 'h, 'n, 't) mflight option" where
  "mcancel i (MArrived call) w = Some (w\<lparr>mtasks := (mtasks w)[i := MCancelled call]\<rparr>)"
| "mcancel i (MQueued call _) w =
     Some (w\<lparr>mtasks := (mtasks w)[i := MCancelled call], queue := remove1 (ReadReq i) (queue w)\<rparr>)"
| "mcancel i _ w = None"

text \<open>A tick of the rotation task, when the last one is done; a failed fetch keeps the previous key.\<close>

definition mtick ::
  "config \<Rightarrow> ('x) dek_aws_scheme \<Rightarrow> ('x, 'h, 'n, 't) mflight \<Rightarrow> ('x, 'h, 'n, 't) mflight option" where
  "mtick cfg aws w =
     (case rotator w of
        Resting \<Rightarrow>
          Some (case fetch_buf aws cfg (memory w) of
                  (m, Ok buf) \<Rightarrow> w\<lparr>memory := m, rotator := Storing aws buf, queue := queue w @ [WriteReq]\<rparr>
                | (m, _) \<Rightarrow> w\<lparr>memory := m\<rparr>)
      | _ \<Rightarrow> None)"

text \<open>Its steps after the fetch. The last one also counts the rotation.\<close>

fun mrotate :: "rwlock \<Rightarrow> 'x rotator \<Rightarrow> ('x, 'h, 'n, 't) mflight \<Rightarrow> ('x, 'h, 'n, 't) mflight option" where
  "mrotate lk Resting w = None"
| "mrotate lk (Storing aws buf) w =
     (if lk (guards w) (queue w) WriteReq
      then Some (w\<lparr>rotator := Locked aws buf, queue := remove1 WriteReq (queue w)\<rparr>) else None)"
| "mrotate lk (Locked aws buf) w = Some (w\<lparr>memory := drop_old (memory w), rotator := Erased aws buf\<rparr>)"
| "mrotate lk (Erased aws buf) w =
     Some (w\<lparr>memory := put_new buf (memory w), rotator := Resting,
             mlog := mlog w @ [Add (dek_rotations (app_metrics (msetup w))) 1 []]\<rparr>)"

fun mstep ::
  "rwlock \<Rightarrow> nat \<Rightarrow> config \<Rightarrow> ('c, 'z) crypto_scheme \<Rightarrow> ('h, 'v, 'y) http_scheme \<Rightarrow> (string set \<Rightarrow> string list) \<Rightarrow>
     ('x, 'h, 'n, 't) mevent \<Rightarrow> ('x, 'h, 'n, 't) mflight \<Rightarrow> ('x, 'h, 'n, 't) mflight option" where
  "mstep lk frames cfg P http iter (MArrive call) w = Some (w\<lparr>mtasks := mtasks w @ [MArrived call]\<rparr>)"
| "mstep lk frames cfg P http iter (MStep i elapsed) w =
     (if i < length (mtasks w) then mtask_step lk P http iter i elapsed (mtasks w ! i) w else None)"
| "mstep lk frames cfg P http iter (MCancel i) w =
     (if i < length (mtasks w) then mcancel i (mtasks w ! i) w else None)"
| "mstep lk frames cfg P http iter (MTick aws) w = mtick cfg aws w"
| "mstep lk frames cfg P http iter MRotate w = mrotate lk (rotator w) w"
| "mstep lk frames cfg P http iter (MRefresh io) w =
     map_option (\<lambda>c. w\<lparr>msetup := (msetup w)\<lparr>schema_cache := c\<rparr>\<rparr>)
       (refresh_tick frames cfg io (schema_cache (msetup w)))"

text \<open>After startup: the answer of KMS to the first fetch, and the key in the store.\<close>

definition mflight_new :: "'n app_state \<Rightarrow> ('x, 'h, 'n, 't) mflight" where
  "mflight_new s =
     \<lparr>msetup = s,
      memory =
        (case inner (dek_store s) of
           Some key \<Rightarrow> \<lparr>boxes = [key, key], slot = Some 1, blobs = [0]\<rparr>
         | None \<Rightarrow> \<lparr>boxes = [], slot = None, blobs = []\<rparr>),
      queue = [], mtasks = [], rotator = Resting, mlog = []\<rparr>"

section \<open>Ownership\<close>

text \<open>
  Boxes have owners, and at most one each. Whoever owns a box may drop it or pass it on, and a box without an owner
  holds only zeroes.
\<close>

definition erased :: "u8 list \<Rightarrow> bool" where
  "erased b \<longleftrightarrow> set b \<subseteq> {0}"

definition own_ok :: "('o \<Rightarrow> nat option) \<Rightarrow> u8 list list \<Rightarrow> bool" where
  "own_ok f bs \<longleftrightarrow>
     (\<forall>p a. f p = Some a \<longrightarrow> a < length bs) \<and>
     (\<forall>p q a. f p = Some a \<and> f q = Some a \<longrightarrow> p = q) \<and>
     (\<forall>a < length bs. (\<forall>p. f p \<noteq> Some a) \<longrightarrow> erased (bs ! a))"

lemma erased_drop [simp]: "erased (drop_dek_bytes b)"
  by (auto simp: erased_def drop_dek_bytes_def)

lemma own_okI:
  assumes "\<And>p a. f p = Some a \<Longrightarrow> a < length bs"
    and "\<And>p q a. f p = Some a \<Longrightarrow> f q = Some a \<Longrightarrow> p = q"
    and "\<And>a. a < length bs \<Longrightarrow> (\<exists>p. f p = Some a) \<or> erased (bs ! a)"
  shows "own_ok f bs"
  using assms unfolding own_ok_def by blast

lemma own_okD:
  assumes "own_ok f bs"
  shows "f p = Some a \<Longrightarrow> a < length bs"
    and "f p = Some a \<Longrightarrow> f q = Some a \<Longrightarrow> p = q"
    and "a < length bs \<Longrightarrow> (\<exists>p. f p = Some a) \<or> erased (bs ! a)"
  using assms unfolding own_ok_def by blast+

lemma own_ok_new:
  assumes "own_ok f bs" "f p = None"
  shows "own_ok (f(p \<mapsto> length bs)) (bs @ [x])"
proof (rule own_okI)
  fix a assume "a < length (bs @ [x])"
  then consider "a = length bs" | "a < length bs" by fastforce
  then show "(\<exists>q. (f(p \<mapsto> length bs)) q = Some a) \<or> erased ((bs @ [x]) ! a)"
  proof cases
    case 2
    with own_okD(3) [OF assms(1), of a] assms(2) show ?thesis
      by (auto simp: nth_append) (metis option.distinct(1))
  qed auto
qed (use own_okD(1,2) [OF assms(1)] in \<open>fastforce split: if_splits\<close>)+

lemma own_ok_drop:
  assumes "own_ok f bs" "f p = Some a" "erased z"
  shows "own_ok (f(p := None)) (bs[a := z])"
proof (rule own_okI)
  fix b assume "b < length (bs[a := z])"
  with own_okD(3) [OF assms(1), of b] assms(2,3)
  show "(\<exists>q. (f(p := None)) q = Some b) \<or> erased (bs[a := z] ! b)" by (cases "b = a") (auto, metis option.distinct(1) option.inject)
qed (use own_okD(1,2) [OF assms(1)] in \<open>auto split: if_splits\<close>)

lemma own_ok_move:
  assumes "own_ok f bs" "f p = Some a" "f q = None"
  shows "own_ok (f(p := None, q \<mapsto> a)) bs"
proof (rule own_okI)
  fix b assume "b < length bs"
  with own_okD(3) [OF assms(1), of b] assms(2,3)
  show "(\<exists>r. (f(p := None, q \<mapsto> a)) r = Some b) \<or> erased (bs ! b)" by (cases "b = a") (auto, metis option.distinct(1) option.inject)
next
  fix r b assume "(f(p := None, q \<mapsto> a)) r = Some b"
  with own_okD(1) [OF assms(1)] assms(2) show "b < length bs" by (auto split: if_splits)
next
  fix r r' b assume "(f(p := None, q \<mapsto> a)) r = Some b" "(f(p := None, q \<mapsto> a)) r' = Some b"
  with own_okD(2) [OF assms(1)] assms(2) show "r = r'" by (auto split: if_splits)
qed

text \<open>The owners: the store, the task that has cloned the key, the rotation with its new key, and the answers of KMS.\<close>

datatype owner = TheStore | CloneOf nat | NewKey | KmsAnswer nat

fun clone_of :: "('h, 'n, 't) mtask \<Rightarrow> nat option" where
  "clone_of (MHasDek _ _ a) = Some a"
| "clone_of _ = None"

lemma clone_of_iff: "clone_of task = Some a \<longleftrightarrow> (\<exists>call cached. task = MHasDek call cached a)"
  by (cases task) simp_all

fun new_key :: "'x rotator \<Rightarrow> nat option" where
  "new_key Resting = None"
| "new_key (Storing _ buf) = Some buf"
| "new_key (Locked _ buf) = Some buf"
| "new_key (Erased _ buf) = Some buf"

fun owned :: "memory \<Rightarrow> ('h, 'n, 't) mtask list \<Rightarrow> nat option \<Rightarrow> owner \<Rightarrow> nat option" where
  "owned m ts r TheStore = slot m"
| "owned m ts r (CloneOf i) = (if i < length ts then clone_of (ts ! i) else None)"
| "owned m ts r NewKey = r"
| "owned m ts r (KmsAnswer k) = (if k < length (blobs m) then Some (blobs m ! k) else None)"

lemma owned_boxes [simp]: "owned (m\<lparr>boxes := bs\<rparr>) ts r = owned m ts r"
  by (rule ext, rename_tac p, case_tac p) auto

lemma owned_slot: "owned (m\<lparr>slot := x\<rparr>) ts r = (owned m ts r)(TheStore := x)"
  by (rule ext, rename_tac p, case_tac p) auto

lemma owned_blobs: "owned (m\<lparr>blobs := blobs m @ [a]\<rparr>) ts r = (owned m ts r)(KmsAnswer (length (blobs m)) \<mapsto> a)"
  by (rule ext, rename_tac p, case_tac p) (auto simp: nth_append)

lemma owned_task: "i < length ts \<Longrightarrow> owned m (ts[i := x]) r = (owned m ts r)(CloneOf i := clone_of x)"
  by (rule ext, rename_tac p, case_tac p) (auto simp: nth_list_update)

lemma owned_arrive: "clone_of x = None \<Longrightarrow> owned m (ts @ [x]) r = owned m ts r"
  by (rule ext, rename_tac p, case_tac p) (auto simp: nth_append)

lemma owned_new_key: "owned m ts r' = (owned m ts r)(NewKey := r')"
  by (rule ext, rename_tac p, case_tac p) auto

section \<open>The invariant of the memory\<close>

text \<open>A rotation on its way holds the key that its fetch has brought.\<close>

fun fetched_by :: "config \<Rightarrow> u8 list list \<Rightarrow> 'x rotator \<Rightarrow> bool" where
  "fetched_by cfg bs Resting \<longleftrightarrow> True"
| "fetched_by cfg bs (Storing aws buf) \<longleftrightarrow> fetched_key aws cfg = Some (bs ! buf) \<and> length (bs ! buf) = KEY_LEN"
| "fetched_by cfg bs (Locked aws buf) \<longleftrightarrow> fetched_key aws cfg = Some (bs ! buf) \<and> length (bs ! buf) = KEY_LEN"
| "fetched_by cfg bs (Erased aws buf) \<longleftrightarrow> fetched_key aws cfg = Some (bs ! buf) \<and> length (bs ! buf) = KEY_LEN"

fun is_erased :: "'x rotator \<Rightarrow> bool" where
  "is_erased (Erased _ _) = True"
| "is_erased _ = False"

definition mem_ok :: "config \<Rightarrow> ('x, 'h, 'n, 't) mflight \<Rightarrow> bool" where
  "mem_ok cfg w \<longleftrightarrow>
     own_ok (owned (memory w) (mtasks w) (new_key (rotator w))) (boxes (memory w)) \<and>
     fetched_by cfg (boxes (memory w)) (rotator w) \<and>
     (is_erased (rotator w) \<longrightarrow> slot (memory w) = None)"

lemma mem_okD:
  "mem_ok cfg w \<Longrightarrow> own_ok (owned (memory w) (mtasks w) (new_key (rotator w))) (boxes (memory w))"
  by (simp add: mem_ok_def)

lemma fetched_by_cong:
  "(\<And>buf. new_key r = Some buf \<Longrightarrow> bs' ! buf = bs ! buf) \<Longrightarrow> fetched_by cfg bs' r \<longleftrightarrow> fetched_by cfg bs r"
  by (cases r) auto

lemma boxes_kept_new: "own_ok f bs \<Longrightarrow> f p = Some b \<Longrightarrow> (bs @ xs) ! b = bs ! b"
  by (auto simp: nth_append dest: own_okD(1))

lemma boxes_kept_drop: "own_ok f bs \<Longrightarrow> f p = Some a \<Longrightarrow> f q = Some b \<Longrightarrow> p \<noteq> q \<Longrightarrow> bs[a := z] ! b = bs ! b"
  by (metis nth_list_update_neq own_okD(2))

lemma manswer_simps [simp]:
  "msetup (manswer i call t r w) = msetup w" "memory (manswer i call t r w) = memory w"
  "queue (manswer i call t r w) = queue w" "rotator (manswer i call t r w) = rotator w"
  "mtasks (manswer i call t r w) =
     (mtasks w)[i := MAnswered call t (snd (finish (app_metrics (msetup w)) t call r))]"
  "mlog (manswer i call t r w) = mlog w @ fst (finish (app_metrics (msetup w)) t call r)"
  by (simp_all add: manswer_def split: prod.split)

lemma store_buf_eq:
  "store_buf k m =
     (if length k = KEY_LEN then (m\<lparr>boxes := boxes m @ [k]\<rparr>, Ok (length (boxes m)))
      else (m, Err (InvalidLength (length k))))"
  by (simp add: store_buf_def new_box_def)

lemma fetch_buf_cases:
  obtains (failed) r where "fetch_buf aws cfg m = (m, r)" "\<not> is_ok r" "fetched_key aws cfg = None"
  | (rejected) k r where "fetched_key aws cfg = Some k" "length k \<noteq> KEY_LEN" "\<not> is_ok r"
      "fetch_buf aws cfg m = (m\<lparr>blobs := blobs m @ [length (boxes m)], boxes := boxes m @ [k]\<rparr>, r)"
  | (ready) k where "fetched_key aws cfg = Some k" "length k = KEY_LEN"
      "fetch_buf aws cfg m =
         (m\<lparr>blobs := blobs m @ [length (boxes m)], boxes := boxes m @ [k, k]\<rparr>, Ok (Suc (length (boxes m))))"
proof (cases "kms_plaintext aws cfg")
  case (Ok k)
  show ?thesis
  proof (cases "length k = KEY_LEN")
    case True
    with Ok show ?thesis
      by (intro ready) (simp_all add: fetch_buf_def fetched_key_plaintext new_box_def store_buf_eq with_context_def)
  next
    case False
    with Ok show ?thesis
      by (intro rejected [of k "snd (fetch_buf aws cfg m)"], cases m)
        (simp_all add: fetch_buf_def fetched_key_plaintext new_box_def store_buf_eq is_ok_iff with_context_def)
  qed
qed (use failed in \<open>simp_all add: fetch_buf_def fetched_key_plaintext is_ok_iff\<close>)

text \<open>The steps of a task, of a tick and of the rotation.\<close>

lemma mem_ok_quiet:
  assumes "mem_ok cfg w" "memory w' = memory w" "mtasks w' = (mtasks w)[i := x]" "rotator w' = rotator w"
    and "i < length (mtasks w)" "clone_of (mtasks w ! i) = None" "clone_of x = None"
  shows "mem_ok cfg w'"
proof -
  have "(owned (memory w) (mtasks w) (new_key (rotator w)))(CloneOf i := None) = owned (memory w) (mtasks w) (new_key (rotator w))"
    using assms(5,6) by (simp add: fun_upd_idem)
  with assms show ?thesis by (simp add: mem_ok_def owned_task)
qed

lemma mem_ok_clone:
  assumes "mem_ok cfg w" "i < length (mtasks w)" "clone_of (mtasks w ! i) = None"
  shows "mem_ok cfg (w\<lparr>mtasks := (mtasks w)[i := MHasDek call cached (length (boxes (memory w)))],
    memory := (memory w)\<lparr>boxes := boxes (memory w) @ [x]\<rparr>\<rparr>)"
proof -
  let ?f = "owned (memory w) (mtasks w) (new_key (rotator w))"
  have f: "own_ok ?f (boxes (memory w))" using assms(1) by (simp add: mem_ok_def)
  moreover have "?f (CloneOf i) = None" using assms(2,3) by simp
  moreover have "fetched_by cfg (boxes (memory w) @ [x]) (rotator w) \<longleftrightarrow> fetched_by cfg (boxes (memory w)) (rotator w)"
    by (intro fetched_by_cong boxes_kept_new [OF f, of NewKey]) simp
  ultimately show ?thesis using assms by (simp add: mem_ok_def owned_task own_ok_new)
qed

lemma mem_ok_return:
  assumes "mem_ok cfg w" "i < length (mtasks w)" "mtasks w ! i = MHasDek call cached a"
    and "memory w' = drop_box a (memory w)" "mtasks w' = (mtasks w)[i := x]" "rotator w' = rotator w" "clone_of x = None"
  shows "mem_ok cfg w'"
proof -
  let ?f = "owned (memory w) (mtasks w) (new_key (rotator w))" and ?z = "drop_dek_bytes (boxes (memory w) ! a)"
  have f: "own_ok ?f (boxes (memory w))" using assms(1) by (simp add: mem_ok_def)
  have a: "?f (CloneOf i) = Some a" using assms(2,3) by simp
  have "fetched_by cfg ((boxes (memory w))[a := ?z]) (rotator w) \<longleftrightarrow> fetched_by cfg (boxes (memory w)) (rotator w)"
    by (intro fetched_by_cong boxes_kept_drop [OF f a, of NewKey]) simp_all
  with own_ok_drop [OF f a erased_drop [of "boxes (memory w) ! a"]] assms
  show ?thesis by (simp add: mem_ok_def owned_task drop_box_def)
qed

lemma mem_ok_blob:
  assumes "mem_ok cfg w"
  shows "mem_ok cfg (w\<lparr>memory := (memory w)\<lparr>blobs := blobs (memory w) @ [length (boxes (memory w))],
    boxes := boxes (memory w) @ [k]\<rparr>\<rparr>)"
proof -
  let ?f = "owned (memory w) (mtasks w) (new_key (rotator w))"
  have f: "own_ok ?f (boxes (memory w))" using assms(1) by (simp add: mem_ok_def)
  moreover have "?f (KmsAnswer (length (blobs (memory w)))) = None" by simp
  moreover have "fetched_by cfg (boxes (memory w) @ [k]) (rotator w) \<longleftrightarrow> fetched_by cfg (boxes (memory w)) (rotator w)"
    by (intro fetched_by_cong boxes_kept_new [OF f, of NewKey]) simp
  ultimately show ?thesis using assms own_ok_new [OF f] by (simp add: mem_ok_def owned_blobs)
qed

lemma mem_ok_tick:
  assumes "mem_ok cfg w" "mtick cfg aws w = Some w'"
  shows "mem_ok cfg w'"
proof -
  have rest: "rotator w = Resting" using assms(2) by (auto simp: mtick_def split: rotator.splits)
  let ?m = "memory w"
  show ?thesis
  proof (cases rule: fetch_buf_cases [of aws cfg ?m])
    case (failed r)
    with assms rest show ?thesis by (cases r) (auto simp: mtick_def is_ok_iff)
  next
    case (rejected k r)
    then have "w' = w\<lparr>memory := ?m\<lparr>blobs := blobs ?m @ [length (boxes ?m)], boxes := boxes ?m @ [k]\<rparr>\<rparr>"
      using assms(2) rest by (cases r) (auto simp: mtick_def is_ok_iff)
    then show ?thesis using mem_ok_blob [OF assms(1)] by simp
  next
    case (ready k)
    let ?n = "?m\<lparr>blobs := blobs ?m @ [length (boxes ?m)], boxes := boxes ?m @ [k]\<rparr>"
    from mem_ok_blob [OF assms(1), of k] rest
    have n: "own_ok (owned ?n (mtasks w) None) (boxes ?n)" by (simp add: mem_ok_def)
    have "own_ok ((owned ?n (mtasks w) None)(NewKey \<mapsto> length (boxes ?n))) (boxes ?n @ [k])"
      by (rule own_ok_new [OF n]) simp
    moreover have "owned ?n (mtasks w) (Some (Suc (length (boxes ?m)))) =
        (owned ?n (mtasks w) None)(NewKey \<mapsto> length (boxes ?n))"
      by (subst owned_new_key [where r = None]) simp
    moreover have "w' = w\<lparr>memory := ?n\<lparr>boxes := boxes ?n @ [k]\<rparr>,
        rotator := Storing aws (Suc (length (boxes ?m))), queue := queue w @ [WriteReq]\<rparr>"
      using assms(2) rest ready by (simp add: mtick_def)
    ultimately show ?thesis using ready by (simp add: mem_ok_def nth_append)
  qed
qed

lemma mem_ok_rotate:
  assumes "mem_ok cfg w" "mrotate lk (rotator w) w = Some w'"
  shows "mem_ok cfg w'"
proof (cases "rotator w")
  case (Storing aws buf)
  with assms show ?thesis by (auto simp: mem_ok_def split: if_splits)
next
  case (Locked aws buf)
  let ?f = "owned (memory w) (mtasks w) (new_key (rotator w))"
  have f: "own_ok ?f (boxes (memory w))" using assms(1) by (simp add: mem_ok_def)
  have w': "w' = w\<lparr>memory := drop_old (memory w), rotator := Erased aws buf\<rparr>" using assms(2) Locked by simp
  show ?thesis
  proof (cases "slot (memory w)")
    case None
    with w' assms(1) Locked show ?thesis by (simp add: drop_old_def mem_ok_def)
  next
    case (Some old)
    let ?z = "drop_dek_bytes (boxes (memory w) ! old)"
    have old: "?f TheStore = Some old" using Some by simp
    have "fetched_by cfg ((boxes (memory w))[old := ?z]) (rotator w) \<longleftrightarrow> fetched_by cfg (boxes (memory w)) (rotator w)"
      by (intro fetched_by_cong boxes_kept_drop [OF f old, of NewKey]) simp_all
    with own_ok_drop [OF f old erased_drop [of "boxes (memory w) ! old"]] assms(1) w' Some Locked
    show ?thesis by (simp add: mem_ok_def drop_old_def drop_box_def owned_slot)
  qed
next
  case (Erased aws buf)
  let ?f = "owned (memory w) (mtasks w) (new_key (rotator w))"
  have f: "own_ok ?f (boxes (memory w))" and "?f TheStore = None" using assms(1) Erased by (simp_all add: mem_ok_def)
  then have "own_ok (?f(NewKey := None, TheStore \<mapsto> buf)) (boxes (memory w))"
    using Erased by (intro own_ok_move) simp_all
  moreover have "owned (put_new buf (memory w)) (mtasks w) None = ?f(NewKey := None, TheStore \<mapsto> buf)"
    by (subst owned_new_key [where r = "new_key (rotator w)"]) (simp add: put_new_def owned_slot fun_upd_twist)
  moreover have "boxes (put_new buf (memory w)) = boxes (memory w)" by (simp add: put_new_def)
  ultimately show ?thesis using assms Erased by (auto simp: mem_ok_def)
qed (use assms(2) in simp)

lemma mem_ok_task:
  assumes "mem_ok cfg w" "i < length (mtasks w)" "mtask_step lk P http iter i t (mtasks w ! i) w = Some w'"
  shows "mem_ok cfg w'"
proof (cases "mtasks w ! i")
  case (MArrived call)
  with assms(2,3) show ?thesis
    by (cases "find_schema http (msetup w) (call_headers call)") (auto intro: mem_ok_quiet [OF assms(1)])
next
  case (MQueued call cached)
  with assms(2,3) show ?thesis by (auto intro: mem_ok_quiet [OF assms(1)] split: if_splits)
next
  case (MReading call cached)
  show ?thesis
  proof (cases "slot (memory w)")
    case None
    with MReading assms(2,3) show ?thesis by (auto simp: clone_current_def intro: mem_ok_quiet [OF assms(1)])
  next
    case (Some a)
    with MReading assms(3) mem_ok_clone [OF assms(1,2), where call = call and cached = cached and x = "boxes (memory w) ! a"]
    show ?thesis by (simp add: clone_current_def new_box_def)
  qed
next
  case (MHasDek call cached a)
  with assms(2,3) show ?thesis by (auto intro: mem_ok_return [OF assms(1)])
qed (use assms(3) in simp_all)

lemma mem_ok_step:
  assumes "mem_ok cfg w" "mstep lk frames cfg P http iter e w = Some w'"
  shows "mem_ok cfg w'"
proof (cases e)
  case (MArrive call)
  with assms show ?thesis by (auto simp: mem_ok_def owned_arrive)
next
  case (MStep i t)
  with assms show ?thesis by (auto intro: mem_ok_task split: if_splits)
next
  case (MCancel i)
  with assms(2) have "i < length (mtasks w)" "mcancel i (mtasks w ! i) w = Some w'" by (auto split: if_splits)
  then show ?thesis by (cases "mtasks w ! i") (auto intro: mem_ok_quiet [OF assms(1)])
next
  case (MTick aws)
  with assms show ?thesis by (auto intro: mem_ok_tick)
next
  case MRotate
  with assms show ?thesis by (auto intro: mem_ok_rotate)
next
  case (MRefresh io)
  with assms show ?thesis by (auto simp: mem_ok_def)
qed

interpretation memory_run: step_machine "mstep lk frames cfg P http iter" "mem_ok cfg"
  for lk frames cfg P http iter
  by unfold_locales (rule mem_ok_step)

lemma mem_ok_new:
  fixes s :: "'n app_state"
  shows "mem_ok cfg (mflight_new s :: ('x, 'h, 'n, 't) mflight)"
proof (cases "inner (dek_store s)")
  case None
  let ?w = "mflight_new s :: ('x, 'h, 'n, 't) mflight"
  have "owned (memory ?w) (mtasks ?w) (new_key (rotator ?w)) p = None" for p
    using None by (cases p) (simp_all add: mflight_new_def)
  with None show ?thesis by (simp add: mem_ok_def own_ok_def mflight_new_def)
next
  case (Some key)
  let ?w = "mflight_new s :: ('x, 'h, 'n, 't) mflight"
  let ?f = "owned (memory ?w) (mtasks ?w) (new_key (rotator ?w))"
  have f: "?f p = (if p = TheStore then Some 1 else if p = KmsAnswer 0 then Some 0 else None)" for p
    using Some by (cases p) (simp_all add: mflight_new_def)
  have "own_ok ?f [key, key]"
  proof (rule own_okI)
    fix a assume "a < length [key, key]"
    then have "?f (if a = 0 then KmsAnswer 0 else TheStore) = Some a" by (auto simp: f)
    then show "(\<exists>p. ?f p = Some a) \<or> erased ([key, key] ! a)" by blast
  qed (auto simp: f split: if_splits)
  with Some show ?thesis by (simp add: mem_ok_def mflight_new_def)
qed

text \<open>A lock that serves in order of arrival, and a run in which a rotation overtakes a request that waits.\<close>

definition fifo :: rwlock where
  "fifo g q r = (case q of [] \<Rightarrow> False | x # _ \<Rightarrow> x = r \<and> \<not> snd g \<and> (r = WriteReq \<longrightarrow> fst g = 0))"

lemma fifo_ok: "rwlock_ok fifo"
  by (auto simp: rwlock_ok_def fifo_def neq_Nil_conv split: list.splits)

abbreviation sample_mstep ::
  "(unit, (string \<times> string) list, int, nat) mevent \<Rightarrow>
     (unit, (string \<times> string) list, int, nat) mflight \<Rightarrow> (unit, (string \<times> string) list, int, nat) mflight option" where
  "sample_mstep \<equiv> mstep fifo 10 sample_config sample_crypto sample_http sorted_list_of_set"

abbreviation sample_mflight :: "(unit, (string \<times> string) list, int, nat) mflight" where
  "sample_mflight \<equiv> mflight_new sample_state"

definition queued_events :: "(unit, (string \<times> string) list, int, nat) mevent list" where
  "queued_events = [MArrive sample_call, MTick (sample_aws (Some (replicate 32 1))), MStep 0 7]"

definition served_events :: "(unit, (string \<times> string) list, int, nat) mevent list" where
  "served_events = [MRotate, MRotate, MRotate, MStep 0 7, MStep 0 7, MStep 0 7]"

lemma sample_schema: "\<exists>cached. find_schema sample_http sample_state (call_headers sample_call) = Ok cached"
  using sample_state_lookup by (auto simp: sample_call_def schema_and_dek_parts result_simps)

lemma sample_key: "\<exists>key. inner (dek_store sample_state) = Some key"
proof -
  have "\<exists>key. current (dek_store sample_state) = Ok key"
    using sample_state_lookup by (auto simp: schema_and_dek_Ok_iff)
  then show ?thesis by (auto simp: current_def result_simps)
qed

lemma served_run:
  "\<exists>w w' response. opt_fold sample_mstep queued_events sample_mflight = Some w \<and> length (mtasks w) = 1 \<and>
     opt_fold sample_mstep served_events w = Some w' \<and>
     mtasks w' = [MAnswered sample_call 7 response] \<and> rotator w' = Resting \<and> slot (memory w') = Some 3 \<and>
     length (boxes (memory w')) = 5 \<and> blobs (memory w') = [0, 2]"
proof -
  obtain cached where found: "find_schema sample_http sample_state (call_headers sample_call) = Ok cached"
    using sample_schema by blast
  obtain key where key: "inner (dek_store sample_state) = Some key" using sample_key by blast
  have plain: "kms_plaintext (sample_aws (Some (replicate 32 1))) sample_config = Ok (replicate 32 1)"
    by (simp add: kms_plaintext_def sample_aws_def with_context_def)
  note defs = mtick_def fetch_buf_def new_box_def store_buf_eq KEY_LEN_def with_context_def clone_current_def
    drop_old_def drop_box_def put_new_def fifo_def guards_def
  obtain w where w: "opt_fold sample_mstep queued_events sample_mflight = Some w"
    and st: "msetup w = sample_state" "mtasks w = [MQueued sample_call cached]" "queue w = [WriteReq, ReadReq 0]"
      "rotator w = Storing (sample_aws (Some (replicate 32 1))) 3"
      "memory w = \<lparr>boxes = [key, key, replicate 32 1, replicate 32 1], slot = Some 1, blobs = [0, 2]\<rparr>"
    by (simp add: queued_events_def mflight_new_def key plain found defs)
  have "\<exists>w' response. opt_fold sample_mstep served_events w = Some w' \<and>
     mtasks w' = [MAnswered sample_call 7 response] \<and> rotator w' = Resting \<and> slot (memory w') = Some 3 \<and>
     length (boxes (memory w')) = 5 \<and> blobs (memory w') = [0, 2]"
    by (simp add: served_events_def st defs)
  with w st(2) show ?thesis by auto
qed

section \<open>Properties\<close>

text \<open>
  C23. Keys in memory: in every state of every run, a box that holds anything but zeroes is the key in the store, the clone of a
  request that has taken the key and has not returned, the new key of a rotation on its way, or belongs to an
  answer of KMS. So every key that a rotation has replaced and every clone that a request has used is overwritten,
  also when the request fails.
\<close>

theorem keys_in_memory:
  assumes "opt_fold (mstep lk frames cfg P http iter) events (mflight_new s) = Some w" "a < length (boxes (memory w))"
  shows "set (boxes (memory w) ! a) \<subseteq> {0} \<or> slot (memory w) = Some a \<or>
    (\<exists>i call cached. i < length (mtasks w) \<and> mtasks w ! i = MHasDek call cached a) \<or>
    (\<exists>aws. rotator w = Storing aws a \<or> rotator w = Locked aws a \<or> rotator w = Erased aws a) \<or>
    a \<in> set (blobs (memory w))"
proof -
  have "mem_ok cfg w" by (rule memory_run.run_invar [OF mem_ok_new assms(1)])
  from own_okD(3) [OF mem_okD [OF this] assms(2)]
  consider "erased (boxes (memory w) ! a)" | p where "owned (memory w) (mtasks w) (new_key (rotator w)) p = Some a"
    by blast
  then show ?thesis
  proof cases
    case 2
    then show ?thesis
      by (cases p; cases "rotator w") (auto simp: clone_of_iff split: if_splits)
  qed (simp add: erased_def)
qed

theorem keys_in_memory_witness:
  "\<exists>w. opt_fold sample_mstep (queued_events @ served_events) sample_mflight = Some w \<and> length (boxes (memory w)) = 5 \<and>
     set (boxes (memory w) ! 1) \<subseteq> {0} \<and> set (boxes (memory w) ! 4) \<subseteq> {0}"
proof -
  obtain u w response where "opt_fold sample_mstep queued_events sample_mflight = Some u"
    "opt_fold sample_mstep served_events u = Some w"
    and w: "mtasks w = [MAnswered sample_call 7 response]" "rotator w = Resting" "slot (memory w) = Some 3"
      "length (boxes (memory w)) = 5" "blobs (memory w) = [0, 2]"
    using served_run by blast
  then have run: "opt_fold sample_mstep (queued_events @ served_events) sample_mflight = Some w"
    by (simp add: opt_fold_append)
  from keys_in_memory [OF run, of 1] keys_in_memory [OF run, of 4] w run show ?thesis by simp
qed

text \<open>
  The answers of KMS are not overwritten: what a fetch has brought stays in the box of the answer, whatever
  happens later, although no one needs it any more.
\<close>

lemma blob_owned:
  assumes "b \<in> set (blobs m)"
  shows "\<exists>k. owned m ts r (KmsAnswer k) = Some b"
proof -
  from assms obtain k where "k < length (blobs m)" "blobs m ! k = b" by (auto simp: in_set_conv_nth)
  then show ?thesis by (intro exI [of _ k]) simp
qed

lemma task_boxes:
  assumes "mem_ok cfg w" "i < length (mtasks w)" "mtask_step lk P http iter i t (mtasks w ! i) w = Some w'"
    and "b \<in> set (blobs (memory w))"
  shows "b \<in> set (blobs (memory w')) \<and> boxes (memory w') ! b = boxes (memory w) ! b"
proof -
  note ok = mem_okD [OF assms(1)]
  obtain k where k: "owned (memory w) (mtasks w) (new_key (rotator w)) (KmsAnswer k) = Some b"
    using blob_owned [OF assms(4)] by blast
  show ?thesis
  proof (cases "mtasks w ! i")
    case (MArrived call)
    with assms(3,4) show ?thesis by (auto split: result.splits)
  next
    case (MReading call cached)
    with assms(3,4) boxes_kept_new [OF ok k] show ?thesis
      by (cases "slot (memory w)") (auto simp: clone_current_def new_box_def)
  next
    case (MHasDek call cached a)
    then have "owned (memory w) (mtasks w) (new_key (rotator w)) (CloneOf i) = Some a" using assms(2) by simp
    with MHasDek assms(3,4) boxes_kept_drop [OF ok this k] show ?thesis by (auto simp: drop_box_def)
  qed (use assms(3,4) in \<open>auto split: if_splits\<close>)
qed

lemma kms_answers_stay:
  assumes "mem_ok cfg w" "mstep lk frames cfg P http iter e w = Some w'" "b \<in> set (blobs (memory w))"
  shows "b \<in> set (blobs (memory w')) \<and> boxes (memory w') ! b = boxes (memory w) ! b"
proof -
  note ok = mem_okD [OF assms(1)]
  obtain k where k: "owned (memory w) (mtasks w) (new_key (rotator w)) (KmsAnswer k) = Some b"
    using blob_owned [OF assms(3)] by blast
  show ?thesis
  proof (cases e)
    case (MStep i t)
    with assms(2) have "i < length (mtasks w)" "mtask_step lk P http iter i t (mtasks w ! i) w = Some w'"
      by (auto split: if_splits)
    from task_boxes [OF assms(1) this assms(3)] show ?thesis .
  next
    case (MCancel i)
    with assms(2,3) show ?thesis by (cases "mtasks w ! i") (auto split: if_splits)
  next
    case (MTick aws)
    then show ?thesis using assms(2,3) boxes_kept_new [OF ok k]
      by (cases rule: fetch_buf_cases [of aws cfg "memory w"])
        (auto simp: mtick_def is_ok_iff split: rotator.splits result.splits)
  next
    case MRotate
    with assms(2,3) boxes_kept_drop [OF ok _ k, of TheStore] show ?thesis
      by (cases "rotator w"; cases "slot (memory w)") (auto simp: drop_old_def drop_box_def put_new_def split: if_splits)
  qed (use assms(2,3) in auto)
qed

end
