(* ===== verification/Key_Lock.thy ===== *)
theory Key_Lock
  imports Key_Memory
begin

text \<open>
  The lock around the key: who waits and who holds a guard, the simulation of \<open>Key_Memory\<close> by the one-step view of
  \<open>In_Flight\<close>, and the progress of requests and rotations. The properties of \<open>In_Flight\<close> and of the root theory
  about answers, keys and measurements hold of the code with its lock by this simulation.
\<close>

section \<open>The invariant of the lock\<close>

fun is_queued :: "('h, 'n, 't) mtask \<Rightarrow> bool" where
  "is_queued (MQueued _ _) = True"
| "is_queued _ = False"

fun is_storing :: "'x rotator \<Rightarrow> bool" where
  "is_storing (Storing _ _) = True"
| "is_storing _ = False"

text \<open>Exactly those wait who have asked and not been served, and a writer is alone.\<close>

definition lock_ok :: "('x, 'h, 'n, 't) mflight \<Rightarrow> bool" where
  "lock_ok w \<longleftrightarrow>
     distinct (queue w) \<and>
     (\<forall>i. ReadReq i \<in> set (queue w) \<longleftrightarrow> i < length (mtasks w) \<and> is_queued (mtasks w ! i)) \<and>
     (WriteReq \<in> set (queue w) \<longleftrightarrow> is_storing (rotator w)) \<and>
     (is_writing (rotator w) \<longrightarrow> (\<forall>i < length (mtasks w). \<not> is_reading (mtasks w ! i)))"

lemma lock_ok_task:
  assumes "lock_ok w" "mtasks w' = (mtasks w)[i := x]" "i < length (mtasks w)" "rotator w' = rotator w"
    and "distinct (queue w')"
    and "set (queue w') = (if is_queued x then insert (ReadReq i) (set (queue w)) else set (queue w) - {ReadReq i})"
    and "is_reading x \<Longrightarrow> \<not> is_writing (rotator w)"
  shows "lock_ok w'"
proof -
  have old: "ReadReq j \<in> set (queue w) \<longleftrightarrow> j < length (mtasks w) \<and> is_queued (mtasks w ! j)" for j
    using assms(1) by (simp add: lock_ok_def)
  have "ReadReq j \<in> set (queue w') \<longleftrightarrow> j < length (mtasks w') \<and> is_queued (mtasks w' ! j)" for j
    using assms(2,3,6) old [of j] by (cases "j = i") auto
  moreover have "WriteReq \<in> set (queue w') \<longleftrightarrow> is_storing (rotator w')"
    using assms(1,4,6) by (auto simp: lock_ok_def split: if_splits)
  moreover have "\<not> is_reading (mtasks w' ! j)" if "is_writing (rotator w')" "j < length (mtasks w')" for j
    using assms(1-4,7) that by (cases "j = i") (auto simp: lock_ok_def)
  ultimately show ?thesis using assms(5) unfolding lock_ok_def by blast
qed

lemma lock_ok_mtask_step:
  assumes "rwlock_ok lk" "lock_ok w" "i < length (mtasks w)" "mtask_step lk P http iter i t (mtasks w ! i) w = Some w'"
  shows "lock_ok w'"
proof -
  have q: "distinct (queue w)" "ReadReq i \<in> set (queue w) \<longleftrightarrow> is_queued (mtasks w ! i)"
    using assms(2,3) by (simp_all add: lock_ok_def)
  show ?thesis
  proof (cases "mtasks w ! i")
    case (MArrived call)
    with assms(3,4) q show ?thesis
      by (cases "find_schema http (msetup w) (call_headers call)")
        (auto intro!: lock_ok_task [OF assms(2), where i = i])
  next
    case (MQueued call cached)
    with assms(1,4) have "\<not> is_writing (rotator w)" by (auto simp: rwlock_ok_def guards_def split: if_splits)
    with MQueued assms(3,4) q show ?thesis
      by (auto intro!: lock_ok_task [OF assms(2), where i = i] split: if_splits)
  next
    case (MReading call cached)
    with assms(3,4) q show ?thesis
      by (cases "slot (memory w)")
        (auto simp: clone_current_def new_box_def intro!: lock_ok_task [OF assms(2), where i = i])
  next
    case (MHasDek call cached a)
    with assms(3,4) q show ?thesis by (auto intro!: lock_ok_task [OF assms(2), where i = i])
  qed (use assms(4) in simp_all)
qed

lemma lock_ok_rotate:
  assumes "rwlock_ok lk" "lock_ok w" "mrotate lk (rotator w) w = Some w'"
  shows "lock_ok w'"
proof (cases "rotator w")
  case (Storing aws buf)
  with assms(3) have "lk (guards w) (queue w) WriteReq" and
    w': "w' = w\<lparr>rotator := Locked aws buf, queue := remove1 WriteReq (queue w)\<rparr>" by (auto split: if_splits)
  with assms(1) have "filter is_reading (mtasks w) = []" by (fastforce simp: rwlock_ok_def guards_def)
  with assms(2) show ?thesis by (auto simp: w' lock_ok_def filter_empty_conv)
qed (use assms in \<open>auto simp: lock_ok_def\<close>)

lemma lock_ok_tick:
  assumes "lock_ok w" "mtick cfg aws w = Some w'"
  shows "lock_ok w'"
proof -
  have rest: "rotator w = Resting" using assms(2) by (auto simp: mtick_def split: rotator.splits)
  obtain m r where fetch: "fetch_buf aws cfg (memory w) = (m, r)" by (rule prod.exhaust)
  show ?thesis
  proof (cases r)
    case (Ok buf)
    with assms(2) rest fetch
    have "w' = w\<lparr>memory := m, rotator := Storing aws buf, queue := queue w @ [WriteReq]\<rparr>" by (simp add: mtick_def)
    with assms(1) rest show ?thesis by (simp add: lock_ok_def)
  next
    case (Err e)
    with assms(2) rest fetch have "w' = w\<lparr>memory := m\<rparr>" by (simp add: mtick_def)
    with assms(1) show ?thesis by (simp add: lock_ok_def)
  next
    case Panic
    with assms(2) rest fetch have "w' = w\<lparr>memory := m\<rparr>" by (simp add: mtick_def)
    with assms(1) show ?thesis by (simp add: lock_ok_def)
  qed
qed

lemma lock_ok_step:
  assumes "rwlock_ok lk" "lock_ok w" "mstep lk frames cfg P http iter e w = Some w'"
  shows "lock_ok w'"
proof (cases e)
  case (MArrive call)
  with assms(3) have w': "w' = w\<lparr>mtasks := mtasks w @ [MArrived call]\<rparr>" by simp
  have same: "j < length (mtasks w') \<and> P (mtasks w' ! j) \<longleftrightarrow> j < length (mtasks w) \<and> P (mtasks w ! j)"
    if "\<not> P (MArrived call)" for P j
    using that by (auto simp: w' nth_append less_Suc_eq)
  have "queue w' = queue w" "rotator w' = rotator w" by (simp_all add: w')
  with assms(2) same [of is_queued] same [of is_reading] show ?thesis unfolding lock_ok_def by (metis is_queued.simps(2) is_reading.simps(2))
next
  case (MStep i t)
  with assms show ?thesis by (auto intro: lock_ok_mtask_step split: if_splits)
next
  case (MCancel i)
  with assms(3) have i: "i < length (mtasks w)" and "mcancel i (mtasks w ! i) w = Some w'" by (auto split: if_splits)
  moreover have "distinct (queue w)" "ReadReq i \<in> set (queue w) \<longleftrightarrow> is_queued (mtasks w ! i)"
    using assms(2) i by (simp_all add: lock_ok_def)
  ultimately show ?thesis
    by (cases "mtasks w ! i") (auto intro!: lock_ok_task [OF assms(2), where i = i])
next
  case (MTick aws)
  with assms show ?thesis by (auto intro: lock_ok_tick)
next
  case MRotate
  with assms show ?thesis by (auto intro: lock_ok_rotate)
next
  case (MRefresh io)
  with assms(3) obtain c where "w' = w\<lparr>msetup := (msetup w)\<lparr>schema_cache := c\<rparr>\<rparr>" by auto
  with assms(2) show ?thesis by (simp add: lock_ok_def)
qed

lemma lock_ok_new: "lock_ok (mflight_new s)"
  by (simp add: lock_ok_def mflight_new_def)

interpretation lock_run: step_machine "mstep lk frames cfg P http iter" "\<lambda>w. rwlock_ok lk \<longrightarrow> lock_ok w"
  for lk frames cfg P http iter
  by unfold_locales (blast intro: lock_ok_step)

section \<open>The one-step view\<close>

text \<open>
  A task that waits for the guard, or has it, has not yet taken the key; one that has a clone has the key that is in
  the box. A rotation happens when the new value is in place.
\<close>

fun abs_task :: "u8 list list \<Rightarrow> ('h, 'n, 't) mtask \<Rightarrow> ('h, 'n, 't) task" where
  "abs_task bs (MArrived call) = Arrived call"
| "abs_task bs (MQueued call cached) = HasSchema call cached"
| "abs_task bs (MReading call cached) = HasSchema call cached"
| "abs_task bs (MHasDek call cached a) = HasDek call cached (bs ! a)"
| "abs_task bs (MAnswered call t response) = Answered call t response"
| "abs_task bs (MCancelled call) = Cancelled call"

definition sim :: "('x, 'h, 'n, 't) mflight \<Rightarrow> ('h, 'n, 't) flight \<Rightarrow> bool" where
  "sim w a \<longleftrightarrow>
     shared a = (msetup w)\<lparr>dek_store := dek_store (shared a)\<rparr> \<and>
     (\<not> is_erased (rotator w) \<longrightarrow>
        inner (dek_store (shared a)) = map_option (\<lambda>b. boxes (memory w) ! b) (slot (memory w))) \<and>
     tasks a = map (abs_task (boxes (memory w))) (mtasks w) \<and>
     flight_log a = mlog w"

fun seen_task :: "nat \<Rightarrow> 't \<Rightarrow> ('h, 'n, 't) mtask \<Rightarrow> ('x, 'h, 'n, 't) flight_event list" where
  "seen_task i t (MQueued _ _) = []"
| "seen_task i t _ = [Advance i t]"

fun seen_rotation :: "'x rotator \<Rightarrow> ('x, 'h, 'n, 't) flight_event list" where
  "seen_rotation (Erased aws _) = [RotateTick aws]"
| "seen_rotation _ = []"

fun seen_event :: "('x, 'h, 'n, 't) mflight \<Rightarrow> ('x, 'h, 'n, 't) mevent \<Rightarrow> ('x, 'h, 'n, 't) flight_event list" where
  "seen_event w (MArrive call) = [Arrive call]"
| "seen_event w (MStep i t) = seen_task i t (mtasks w ! i)"
| "seen_event w (MCancel i) = [Cancel i]"
| "seen_event w (MTick aws) = []"
| "seen_event w MRotate = seen_rotation (rotator w)"
| "seen_event w (MRefresh io) = [RefreshTick io]"

lemma abs_tasks_cong:
  assumes "\<And>i b. i < length ts \<Longrightarrow> clone_of (ts ! i) = Some b \<Longrightarrow> bs' ! b = bs ! b"
  shows "map (abs_task bs') ts = map (abs_task bs) ts"
proof (rule nth_equalityI)
  fix i assume "i < length (map (abs_task bs') ts)"
  then show "map (abs_task bs') ts ! i = map (abs_task bs) ts ! i"
    using assms [of i] by (cases "ts ! i") auto
qed simp

lemma abs_tasks_new:
  assumes "mem_ok cfg w"
  shows "map (abs_task (boxes (memory w) @ xs)) (mtasks w) = map (abs_task (boxes (memory w))) (mtasks w)"
proof (rule abs_tasks_cong)
  fix i b assume "i < length (mtasks w)" "clone_of (mtasks w ! i) = Some b"
  then have "owned (memory w) (mtasks w) (new_key (rotator w)) (CloneOf i) = Some b" by simp
  then show "(boxes (memory w) @ xs) ! b = boxes (memory w) ! b"
    by (rule boxes_kept_new [OF mem_okD [OF assms]])
qed

lemma abs_tasks_drop:
  assumes "mem_ok cfg w" "owned (memory w) (mtasks w) (new_key (rotator w)) p = Some a"
    and "\<And>i. p \<noteq> CloneOf i"
  shows "map (abs_task ((boxes (memory w))[a := z])) (mtasks w) = map (abs_task (boxes (memory w))) (mtasks w)"
proof (rule abs_tasks_cong)
  fix i b assume "i < length (mtasks w)" "clone_of (mtasks w ! i) = Some b"
  then have "owned (memory w) (mtasks w) (new_key (rotator w)) (CloneOf i) = Some b" by simp
  then show "(boxes (memory w))[a := z] ! b = boxes (memory w) ! b"
    using assms(3) [of i] by (rule boxes_kept_drop [OF mem_okD [OF assms(1)] assms(2)])
qed

lemma abs_tasks_return:
  assumes "mem_ok cfg w" "i < length (mtasks w)" "mtasks w ! i = MHasDek call cached a" "clone_of x = None"
  shows "map (abs_task ((boxes (memory w))[a := z])) ((mtasks w)[i := x]) =
    (map (abs_task (boxes (memory w))) (mtasks w))[i := abs_task (boxes (memory w)) x]"
proof -
  have "map (abs_task ((boxes (memory w))[a := z])) ((mtasks w)[i := x]) =
      map (abs_task (boxes (memory w))) ((mtasks w)[i := x])"
  proof (rule abs_tasks_cong)
    fix j b assume "j < length ((mtasks w)[i := x])" "clone_of ((mtasks w)[i := x] ! j) = Some b"
    then have "j \<noteq> i" "owned (memory w) (mtasks w) (new_key (rotator w)) (CloneOf j) = Some b"
      using assms(2,4) by (auto simp: nth_list_update split: if_splits)
    moreover have "owned (memory w) (mtasks w) (new_key (rotator w)) (CloneOf i) = Some a"
      using assms(2,3) by simp
    ultimately show "(boxes (memory w))[a := z] ! b = boxes (memory w) ! b"
      using boxes_kept_drop [OF mem_okD [OF assms(1)], of "CloneOf i" a "CloneOf j" b] by simp
  qed
  then show ?thesis by (simp add: map_update)
qed

text \<open>The key in the store is not touched by the others.\<close>

lemma slot_kept_new:
  assumes "mem_ok cfg w"
  shows "map_option (\<lambda>b. (boxes (memory w) @ xs) ! b) (slot (memory w)) =
    map_option (\<lambda>b. boxes (memory w) ! b) (slot (memory w))"
proof (cases "slot (memory w)")
  case (Some b)
  then show ?thesis using boxes_kept_new [OF mem_okD [OF assms], of TheStore b] by simp
qed simp

lemma slot_kept_return:
  assumes "mem_ok cfg w" "i < length (mtasks w)" "mtasks w ! i = MHasDek call cached a"
  shows "map_option (\<lambda>b. (boxes (memory w))[a := z] ! b) (slot (memory w)) =
    map_option (\<lambda>b. boxes (memory w) ! b) (slot (memory w))"
proof (cases "slot (memory w)")
  case (Some b)
  then show ?thesis
    using assms(2,3) boxes_kept_drop [OF mem_okD [OF assms(1)], of "CloneOf i" a TheStore b] by simp
qed simp

lemma simD:
  assumes "sim w a"
  shows "shared a = (msetup w)\<lparr>dek_store := dek_store (shared a)\<rparr>"
    and "\<not> is_erased (rotator w) \<Longrightarrow> inner (dek_store (shared a)) = map_option (\<lambda>b. boxes (memory w) ! b) (slot (memory w))"
    and "tasks a = map (abs_task (boxes (memory w))) (mtasks w)" "flight_log a = mlog w"
    and "app_metrics (shared a) = app_metrics (msetup w)"
proof -
  show shared: "shared a = (msetup w)\<lparr>dek_store := dek_store (shared a)\<rparr>" using assms by (simp add: sim_def)
  show "app_metrics (shared a) = app_metrics (msetup w)" by (subst shared) simp
qed (use assms in \<open>simp_all add: sim_def\<close>)

lemma find_schema_sim:
  assumes "sim w a"
  shows "find_schema http (shared a) headers = find_schema http (msetup w) headers"
  by (subst simD(1) [OF assms]) (simp add: find_schema_def schema_name_def cong: option.case_cong)

lemma take_dek_sim:
  assumes "sim w a" "\<not> is_erased (rotator w)"
  shows "take_dek (shared a) =
    (case slot (memory w) of
       Some b \<Rightarrow> Ok (boxes (memory w) ! b)
     | None \<Rightarrow> Err (503, error_response_new ''service_unavailable'' ''DEK not yet initialised''))"
  using simD(2) [OF assms] by (simp add: take_dek_def current_def split: option.split)

lemma answer_log: "flight_log (answer i call t r w) = flight_log w @ fst (finish (app_metrics (shared w)) t call r)"
  by (simp add: answer_def split: prod.split)

text \<open>Tasks that do not touch the boxes, and those that answer.\<close>

lemma sim_quiet:
  assumes "sim w a" "i < length (mtasks w)"
    and "msetup w' = msetup w" "memory w' = memory w" "rotator w' = rotator w" "mlog w' = mlog w @ l"
    and "mtasks w' = (mtasks w)[i := x]"
    and "shared a' = shared a" "flight_log a' = flight_log a @ l" "tasks a' = (tasks a)[i := abs_task (boxes (memory w)) x]"
  shows "sim w' a'"
  using assms simD(1,2) [OF assms(1)] by (simp add: sim_def map_update)

lemma sim_answer:
  assumes "sim w a" "i < length (mtasks w)"
  shows "sim (manswer i call t r w) (answer i call t r a)"
  using assms(2)
  by (intro sim_quiet [OF assms(1), where i = i
        and x = "MAnswered call t (snd (finish (app_metrics (msetup w)) t call r))"
        and l = "fst (finish (app_metrics (msetup w)) t call r)"]) (simp_all add: answer_log simD(5) [OF assms(1)])

lemma sim_arrived:
  assumes "sim w a" "i < length (mtasks w)" "mtasks w ! i = MArrived call"
    and "mtask_step lk P http iter i t (mtasks w ! i) w = Some w'"
  shows "\<exists>a'. flight_step frames cfg P http iter (Advance i t) a = Some a' \<and> sim w' a'"
proof -
  have i: "i < length (tasks a)" "tasks a ! i = Arrived call" using assms(2,3) by (simp_all add: simD(3) [OF assms(1)])
  show ?thesis
  proof (cases "find_schema http (msetup w) (call_headers call)")
    case (Ok cached)
    then have "sim w' (a\<lparr>tasks := (tasks a)[i := HasSchema call cached]\<rparr>)"
      using assms(2-4) by (intro sim_quiet [OF assms(1,2), where l = "[]" and x = "MQueued call cached"]) auto
    with Ok i show ?thesis by (simp add: find_schema_sim [OF assms(1)])
  next
    case (Err e)
    with assms(3,4) have "w' = manswer i call t (Err e) w" by simp
    with Err i sim_answer [OF assms(1,2)] show ?thesis by (simp add: find_schema_sim [OF assms(1)])
  qed (simp add: find_schema_not_Panic)
qed

lemma sim_queued:
  assumes "sim w a" "i < length (mtasks w)" "mtasks w ! i = MQueued call cached"
    and "mtask_step lk P http iter i t (mtasks w ! i) w = Some w'"
  shows "sim w' a"
proof -
  have "(tasks a)[i := HasSchema call cached] = tasks a"
    using assms(2,3) by (simp add: simD(3) [OF assms(1)] list_update_same_conv)
  with assms show ?thesis
    by (intro sim_quiet [OF assms(1,2), where l = "[]" and x = "MReading call cached"]) (auto split: if_splits)
qed

lemma sim_reading:
  assumes "sim w a" "mem_ok cfg w" "lock_ok w" "i < length (mtasks w)" "mtasks w ! i = MReading call cached"
    and "mtask_step lk P http iter i t (mtasks w ! i) w = Some w'"
  shows "\<exists>a'. flight_step frames cfg P http iter (Advance i t) a = Some a' \<and> sim w' a'"
proof -
  have i: "i < length (tasks a)" "tasks a ! i = HasSchema call cached"
    using assms(4,5) by (simp_all add: simD(3) [OF assms(1)])
  have "\<not> is_writing (rotator w)" using assms(3-5) by (auto simp: lock_ok_def)
  then have free: "\<not> is_erased (rotator w)" by (cases "rotator w") simp_all
  note dek = take_dek_sim [OF assms(1) free]
  show ?thesis
  proof (cases "slot (memory w)")
    case None
    then have "w' = manswer i call t
        (Err (503, error_response_new ''service_unavailable'' ''DEK not yet initialised'')) w"
      using assms(5,6) by (simp add: clone_current_def)
    with None i sim_answer [OF assms(1,4)] show ?thesis by (simp add: dek)
  next
    case (Some b)
    let ?bs = "boxes (memory w)" and ?x = "MHasDek call cached (length (boxes (memory w)))"
    have w': "w' = w\<lparr>mtasks := (mtasks w)[i := ?x], memory := (memory w)\<lparr>boxes := ?bs @ [?bs ! b]\<rparr>\<rparr>"
      using assms(5,6) Some by (simp add: clone_current_def new_box_def)
    have "map (abs_task (?bs @ [?bs ! b])) ((mtasks w)[i := ?x]) =
        (map (abs_task ?bs) (mtasks w))[i := HasDek call cached (?bs ! b)]"
      unfolding map_update abs_tasks_new [OF assms(2)] by simp
    then have "sim w' (a\<lparr>tasks := (tasks a)[i := HasDek call cached (?bs ! b)]\<rparr>)"
      using simD [OF assms(1)] slot_kept_new [OF assms(2), of "[?bs ! b]"] by (simp add: sim_def w')
    with Some i show ?thesis by (simp add: dek)
  qed
qed

lemma sim_has_dek:
  assumes "sim w a" "mem_ok cfg w" "i < length (mtasks w)" "mtasks w ! i = MHasDek call cached b"
    and "mtask_step lk P http iter i t (mtasks w ! i) w = Some w'"
  shows "\<exists>a'. flight_step frames cfg P http iter (Advance i t) a = Some a' \<and> sim w' a'"
proof -
  let ?bs = "boxes (memory w)"
  let ?r = "transform P iter call cached (?bs ! b)"
  have i: "i < length (tasks a)" "tasks a ! i = HasDek call cached (?bs ! b)"
    using assms(3,4) by (simp_all add: simD(3) [OF assms(1)])
  have "w' = (manswer i call t ?r w)\<lparr>memory := drop_box b (memory w)\<rparr>" using assms(4,5) by simp
  then have "sim w' (answer i call t ?r a)"
    using simD [OF assms(1)] assms(3) abs_tasks_return [OF assms(2-4)] slot_kept_return [OF assms(2-4)]
    by (simp add: sim_def drop_box_def answer_log)
  with i show ?thesis by simp
qed

lemma sim_task:
  assumes "sim w a" "mem_ok cfg w" "lock_ok w" "i < length (mtasks w)"
    and "mtask_step lk P http iter i t (mtasks w ! i) w = Some w'"
  shows "\<exists>a'. opt_fold (flight_step frames cfg P http iter) (seen_task i t (mtasks w ! i)) a = Some a' \<and> sim w' a'"
proof (cases "mtasks w ! i")
  case (MArrived call)
  from sim_arrived [OF assms(1,4) this assms(5), of frames cfg] show ?thesis by (auto simp: MArrived)
next
  case (MQueued call cached)
  from sim_queued [OF assms(1,4) this assms(5)] show ?thesis by (simp add: MQueued)
next
  case (MReading call cached)
  from sim_reading [OF assms(1-4) this assms(5), of frames] show ?thesis by (auto simp: MReading)
next
  case (MHasDek call cached b)
  from sim_has_dek [OF assms(1,2,4) this assms(5), of frames] show ?thesis by (auto simp: MHasDek)
qed (use assms(5) in simp_all)

lemma sim_tick:
  assumes "sim w a" "mem_ok cfg w" "mtick cfg aws w = Some w'"
  shows "sim w' a"
proof -
  have rest: "rotator w = Resting" using assms(3) by (auto simp: mtick_def split: rotator.splits)
  have kept: "sim w' a" if "boxes (memory w') = boxes (memory w) @ xs" "slot (memory w') = slot (memory w)"
    "msetup w' = msetup w" "mtasks w' = mtasks w" "mlog w' = mlog w" for xs
    using that simD [OF assms(1)] rest abs_tasks_new [OF assms(2), of xs] slot_kept_new [OF assms(2), of xs]
    by (simp add: sim_def)
  show ?thesis
  proof (cases rule: fetch_buf_cases [of aws cfg "memory w"])
    case (failed r)
    with assms rest show ?thesis by (intro kept [of "[]"]; cases r) (auto simp: mtick_def is_ok_iff)
  next
    case (rejected k r)
    with assms rest show ?thesis by (intro kept [of "[k]"]; cases r) (auto simp: mtick_def is_ok_iff)
  next
    case (ready k)
    with assms rest show ?thesis by (intro kept [of "[k, k]"]) (auto simp: mtick_def)
  qed
qed

lemma sim_rotate:
  assumes "sim w a" "mem_ok cfg w" "mrotate lk (rotator w) w = Some w'"
  shows "\<exists>a'. opt_fold (flight_step frames cfg P http iter) (seen_rotation (rotator w)) a = Some a' \<and> sim w' a'"
proof (cases "rotator w")
  case (Storing aws buf)
  with assms(3) have "w' = w\<lparr>rotator := Locked aws buf, queue := remove1 WriteReq (queue w)\<rparr>" by (auto split: if_splits)
  with Storing simD [OF assms(1)] show ?thesis by (simp add: sim_def)
next
  case (Locked aws buf)
  with assms(3) have w': "w' = w\<lparr>memory := drop_old (memory w), rotator := Erased aws buf\<rparr>" by simp
  have "map (abs_task (boxes (drop_old (memory w)))) (mtasks w) = map (abs_task (boxes (memory w))) (mtasks w)"
  proof (cases "slot (memory w)")
    case (Some old)
    then show ?thesis
      using abs_tasks_drop [OF assms(2), of TheStore old "drop_dek_bytes (boxes (memory w) ! old)"]
      by (simp add: drop_old_def drop_box_def)
  qed (simp add: drop_old_def)
  with Locked simD [OF assms(1)] show ?thesis by (simp add: sim_def w')
next
  case (Erased aws buf)
  let ?key = "boxes (memory w) ! buf"
  let ?d = "fst (store ?key (dek_store (shared a)))"
  have key: "fetched_key aws cfg = Some ?key" "length ?key = KEY_LEN" using assms(2) Erased by (simp_all add: mem_ok_def)
  then have "rotation_tick cfg (dek_rotations (app_metrics (shared a))) aws (dek_store (shared a), flight_log a) =
      (?d, mlog w @ [Add (dek_rotations (app_metrics (msetup w))) 1 []])"
    by (simp add: rotation_tick_eq fetch_and_store_state fetch_and_store_Ok_iff simD(4,5) [OF assms(1)])
  moreover have "inner ?d = Some ?key" using key(2) by (simp add: store_def)
  moreover have "w' = w\<lparr>memory := put_new buf (memory w), rotator := Resting,
      mlog := mlog w @ [Add (dek_rotations (app_metrics (msetup w))) 1 []]\<rparr>"
    using assms(3) Erased by simp
  moreover have "(shared a)\<lparr>dek_store := ?d\<rparr> = (msetup w)\<lparr>dek_store := ?d\<rparr>"
    by (subst simD(1) [OF assms(1)]) simp
  ultimately show ?thesis using Erased simD(3) [OF assms(1)] by (simp add: sim_def put_new_def)
qed (use assms(3) in simp)

lemma sim_step:
  assumes "sim w a" "mem_ok cfg w" "lock_ok w" "mstep lk frames cfg P http iter e w = Some w'"
  shows "\<exists>a'. opt_fold (flight_step frames cfg P http iter) (seen_event w e) a = Some a' \<and> sim w' a'"
proof (cases e)
  case (MArrive call)
  with assms(4) simD [OF assms(1)] show ?thesis by (auto simp: sim_def)
next
  case (MStep i t)
  with assms(4) have "i < length (mtasks w)" "mtask_step lk P http iter i t (mtasks w ! i) w = Some w'"
    by (auto split: if_splits)
  from sim_task [OF assms(1-3) this] show ?thesis by (simp add: MStep)
next
  case (MCancel i)
  with assms(4) have i: "i < length (mtasks w)" and cancel: "mcancel i (mtasks w ! i) w = Some w'"
    by (auto split: if_splits)
  have ts: "i < length (tasks a)" "tasks a ! i = abs_task (boxes (memory w)) (mtasks w ! i)"
    using i by (simp_all add: simD(3) [OF assms(1)])
  show ?thesis
  proof (cases "mtasks w ! i")
    case (MArrived call)
    with cancel i have "sim w' (a\<lparr>tasks := (tasks a)[i := Cancelled call]\<rparr>)"
      by (intro sim_quiet [OF assms(1) i, where l = "[]" and x = "MCancelled call"]) auto
    with MArrived ts show ?thesis by (simp add: MCancel)
  next
    case (MQueued call cached)
    with cancel i have "sim w' (a\<lparr>tasks := (tasks a)[i := Cancelled call]\<rparr>)"
      by (intro sim_quiet [OF assms(1) i, where l = "[]" and x = "MCancelled call"]) auto
    with MQueued ts show ?thesis by (simp add: MCancel)
  qed (use cancel in simp_all)
next
  case (MTick aws)
  with assms show ?thesis by (auto intro: sim_tick)
next
  case MRotate
  with assms(4) have "mrotate lk (rotator w) w = Some w'" by simp
  from sim_rotate [OF assms(1,2) this] show ?thesis by (simp add: MRotate)
next
  case (MRefresh io)
  with assms(4) obtain c where c: "refresh_tick frames cfg io (schema_cache (msetup w)) = Some c"
    and w': "w' = w\<lparr>msetup := (msetup w)\<lparr>schema_cache := c\<rparr>\<rparr>" by auto
  have "schema_cache (shared a) = schema_cache (msetup w)"
    "(shared a)\<lparr>schema_cache := c\<rparr> = (msetup w)\<lparr>schema_cache := c, dek_store := dek_store (shared a)\<rparr>"
    by (subst simD(1) [OF assms(1)], simp)+
  with c simD(2-4) [OF assms(1)] show ?thesis by (simp add: MRefresh w' sim_def)
qed

fun seen_run ::
  "(('x, 'h, 'n, 't) mevent \<Rightarrow> ('x, 'h, 'n, 't) mflight \<Rightarrow> ('x, 'h, 'n, 't) mflight option) \<Rightarrow>
     ('x, 'h, 'n, 't) mevent list \<Rightarrow> ('x, 'h, 'n, 't) mflight \<Rightarrow> ('x, 'h, 'n, 't) flight_event list" where
  "seen_run step [] w = []"
| "seen_run step (e # es) w = seen_event w e @ (case step e w of Some w' \<Rightarrow> seen_run step es w' | None \<Rightarrow> [])"

lemma sim_run:
  assumes "rwlock_ok lk"
  shows "opt_fold (mstep lk frames cfg P http iter) events w = Some w' \<Longrightarrow> sim w a \<Longrightarrow> mem_ok cfg w \<Longrightarrow> lock_ok w \<Longrightarrow>
    \<exists>a'. opt_fold (flight_step frames cfg P http iter) (seen_run (mstep lk frames cfg P http iter) events w) a = Some a' \<and>
      sim w' a'"
proof (induction events arbitrary: w a)
  case (Cons e events)
  then obtain u where u: "mstep lk frames cfg P http iter e w = Some u"
    and run: "opt_fold (mstep lk frames cfg P http iter) events u = Some w'"
    by (auto simp: bind_eq_Some_conv)
  from sim_step [OF Cons.prems(2-4) u] obtain b
    where b: "opt_fold (flight_step frames cfg P http iter) (seen_event w e) a = Some b" "sim u b" by blast
  from Cons.IH [OF run b(2) mem_ok_step [OF Cons.prems(3) u] lock_ok_step [OF assms Cons.prems(4) u]] b(1) u
  show ?case by (simp add: opt_fold_append)
qed simp

lemma sim_new: "sim (mflight_new s) (flight_new s)"
  by (cases "inner (dek_store s)") (simp_all add: sim_def mflight_new_def flight_new_def)

section \<open>Progress\<close>

text \<open>The steps that need nothing from outside: those of the tasks and of a rotation that has its key.\<close>

fun own_step :: "('x, 'h, 'n, 't) mevent \<Rightarrow> bool" where
  "own_step (MStep _ _) = True"
| "own_step MRotate = True"
| "own_step _ = False"

fun task_work :: "('h, 'n, 't) mtask \<Rightarrow> nat" where
  "task_work (MArrived _) = 4"
| "task_work (MQueued _ _) = 3"
| "task_work (MReading _ _) = 2"
| "task_work (MHasDek _ _ _) = 1"
| "task_work (MAnswered _ _ _) = 0"
| "task_work (MCancelled _) = 0"

fun rotator_work :: "'x rotator \<Rightarrow> nat" where
  "rotator_work Resting = 0"
| "rotator_work (Storing _ _) = 3"
| "rotator_work (Locked _ _) = 2"
| "rotator_work (Erased _ _) = 1"

definition work :: "('x, 'h, 'n, 't) mflight \<Rightarrow> nat" where
  "work w = sum_list (map task_work (mtasks w)) + rotator_work (rotator w)"

lemma work_task:
  assumes "i < length ts" "task_work x < task_work (ts ! i)"
  shows "sum_list (map task_work (ts[i := x])) < sum_list (map task_work ts)"
proof -
  have "task_work (ts ! i) \<le> sum_list (map task_work ts)" using assms(1) by (simp add: elem_le_sum_list member_le_sum_list)
  with assms show ?thesis by (simp add: map_update sum_list_update)
qed

lemma own_step_works:
  assumes "mstep lk frames cfg P http iter e w = Some w'" "own_step e"
  shows "work w' < work w"
proof (cases e)
  case (MStep i t)
  with assms(1) have i: "i < length (mtasks w)" and step: "mtask_step lk P http iter i t (mtasks w ! i) w = Some w'"
    by (auto split: if_splits)
  from step have "rotator w' = rotator w \<and> (\<exists>x. mtasks w' = (mtasks w)[i := x] \<and> task_work x < task_work (mtasks w ! i))"
    by (cases "mtasks w ! i") (auto simp: clone_current_def new_box_def split: result.splits option.splits if_splits)
  with work_task [OF i] show ?thesis by (auto simp: work_def)
next
  case MRotate
  with assms(1) show ?thesis by (cases "rotator w") (auto simp: work_def split: if_splits)
qed (use assms(2) in simp_all)

lemma own_steps_bound:
  "opt_fold (mstep lk frames cfg P http iter) es w = Some w' \<Longrightarrow> list_all own_step es \<Longrightarrow> length es + work w' \<le> work w"
proof (induction es arbitrary: w)
  case (Cons e es)
  then obtain u where "mstep lk frames cfg P http iter e w = Some u"
    "opt_fold (mstep lk frames cfg P http iter) es u = Some w'"
    by (auto simp: bind_eq_Some_conv)
  with Cons own_step_works show ?case by fastforce
qed simp

lemma work_bound:
  fixes w :: "('x, 'h, 'n, 't) mflight"
  shows "work w \<le> 4 * length (mtasks w) + 3"
proof -
  have "task_work x \<le> 4" for x :: "('h, 'n, 't) mtask" by (cases x) simp_all
  then have "sum_list (map task_work ts) \<le> sum_list (map (\<lambda>_. 4) ts)" for ts :: "('h, 'n, 't) mtask list"
    by (intro sum_list_mono)
  then have "sum_list (map task_work (mtasks w)) \<le> 4 * length (mtasks w)" by (simp add: sum_list_triv mult.commute)
  moreover have "rotator_work (rotator w) \<le> 3" by (cases "rotator w") simp_all
  ultimately show ?thesis unfolding work_def by (rule add_le_mono)
qed

text \<open>Without work nothing is left to do, and with work someone can step.\<close>

fun is_done :: "('h, 'n, 't) mtask \<Rightarrow> bool" where
  "is_done (MAnswered _ _ _) = True"
| "is_done (MCancelled _) = True"
| "is_done _ = False"

lemma free_lock_steps:
  assumes "rwlock_ok lk" "lock_ok w" "guards w = (0, False)" "queue w \<noteq> []"
  shows "\<exists>e. own_step e \<and> mstep lk frames cfg P http iter e w \<noteq> None"
proof -
  from assms(1,3,4) obtain r where r: "r \<in> set (queue w)" "lk (guards w) (queue w) r"
    unfolding rwlock_ok_def by metis
  show ?thesis
  proof (cases r)
    case (ReadReq i)
    with r assms(2) have "i < length (mtasks w)" "is_queued (mtasks w ! i)" by (auto simp: lock_ok_def)
    with r ReadReq have "mstep lk frames cfg P http iter (MStep i t) w \<noteq> None" for t
      by (cases "mtasks w ! i") auto
    then show ?thesis by (meson own_step.simps(1))
  next
    case WriteReq
    with r assms(2) have "is_storing (rotator w)" by (auto simp: lock_ok_def)
    with r WriteReq have "mstep lk frames cfg P http iter MRotate w \<noteq> None" by (cases "rotator w") auto
    then show ?thesis by (meson own_step.simps(2))
  qed
qed

lemma stuck_is_done:
  assumes "rwlock_ok lk" "lock_ok w" "\<forall>e. own_step e \<longrightarrow> mstep lk frames cfg P http iter e w = None"
  shows "rotator w = Resting \<and> (\<forall>task \<in> set (mtasks w). is_done task)"
proof -
  have tasks: "is_queued (mtasks w ! i) \<or> is_done (mtasks w ! i)" if "i < length (mtasks w)" for i
    using assms(3) [rule_format, of "MStep i undefined"] that by (cases "mtasks w ! i") auto
  have rot: "is_storing (rotator w) \<or> rotator w = Resting"
    using assms(3) [rule_format, of MRotate] by (cases "rotator w") auto
  have "\<not> is_reading task" if task: "task \<in> set (mtasks w)" for task
  proof -
    from task tasks have "is_queued task \<or> is_done task" by (metis in_set_conv_nth)
    then show ?thesis by (cases task) simp_all
  qed
  moreover have "\<not> is_writing (rotator w)" using rot by (cases "rotator w") auto
  ultimately have "guards w = (0, False)" by (simp add: guards_def)
  then have "queue w = []" using free_lock_steps [OF assms(1,2), of frames cfg P http iter] assms(3) by metis
  with assms(2) have "\<not> is_storing (rotator w)" "\<And>i. i < length (mtasks w) \<Longrightarrow> \<not> is_queued (mtasks w ! i)"
    by (auto simp: lock_ok_def)
  with rot tasks show ?thesis by (metis in_set_conv_nth)
qed

text \<open>No request is left without an answer because of a panic.\<close>

definition answers_ok :: "('x, 'h, 'n, 't) mflight \<Rightarrow> bool" where
  "answers_ok w \<longleftrightarrow> (\<forall>call t. MAnswered call t None \<notin> set (mtasks w))"

lemma answers_ok_update:
  assumes "answers_ok w" "mtasks w' = (mtasks w)[i := x]" "\<And>call t. x \<noteq> MAnswered call t None"
  shows "answers_ok w'"
proof -
  have "set (mtasks w') \<subseteq> insert x (set (mtasks w))" unfolding assms(2) by (rule set_update_subset_insert)
  with assms(1,3) show ?thesis unfolding answers_ok_def by blast
qed

lemma answers_ok_task:
  assumes "hmac_ok P" "answers_ok w" "mtask_step lk P http iter i t (mtasks w ! i) w = Some w'"
  shows "answers_ok w'"
proof -
  have answer: "answers_ok w'" if "mtasks w' = mtasks (manswer i call t r w)" "r \<noteq> Panic" for call r
    using finish_answers [OF that(2), of "app_metrics (msetup w)" t call] that(1)
    by (auto intro: answers_ok_update [OF assms(2)])
  show ?thesis
  proof (cases "mtasks w ! i")
    case (MArrived call)
    show ?thesis
    proof (cases "find_schema http (msetup w) (call_headers call)")
      case (Ok cached)
      with MArrived assms(3) show ?thesis by (auto intro: answers_ok_update [OF assms(2)])
    next
      case (Err e)
      with MArrived assms(3) show ?thesis by (intro answer [of call "Err e"]) auto
    qed (simp add: find_schema_not_Panic)
  next
    case (MQueued call cached)
    with assms(3) show ?thesis by (auto intro: answers_ok_update [OF assms(2)] split: if_splits)
  next
    case (MReading call cached)
    show ?thesis
    proof (cases "slot (memory w)")
      case None
      with MReading assms(3) show ?thesis
        by (intro answer [of call "Err (503, error_response_new ''service_unavailable'' ''DEK not yet initialised'')"])
          (auto simp: clone_current_def)
    next
      case (Some b)
      with MReading assms(3) show ?thesis
        by (auto simp: clone_current_def new_box_def intro: answers_ok_update [OF assms(2)])
    qed
  next
    case (MHasDek call cached b)
    with assms(3) transform_not_Panic [OF assms(1)] show ?thesis
      by (intro answer [of call "transform P iter call cached (boxes (memory w) ! b)"]) auto
  qed (use assms(3) in simp_all)
qed

lemma answers_ok_step:
  assumes "hmac_ok P" "answers_ok w" "mstep lk frames cfg P http iter e w = Some w'"
  shows "answers_ok w'"
proof (cases e)
  case (MStep i t)
  with assms show ?thesis by (auto intro: answers_ok_task split: if_splits)
next
  case (MCancel i)
  with assms(3) have "mcancel i (mtasks w ! i) w = Some w'" by (auto split: if_splits)
  then show ?thesis by (cases "mtasks w ! i") (auto intro: answers_ok_update [OF assms(2)])
next
  case (MTick aws)
  with assms(3) have "mtasks w' = mtasks w" by (auto simp: mtick_def split: rotator.splits prod.splits result.splits)
  with assms(2) show ?thesis by (simp add: answers_ok_def)
next
  case MRotate
  with assms(3) have "mtasks w' = mtasks w" by (cases "rotator w") (auto split: if_splits)
  with assms(2) show ?thesis by (simp add: answers_ok_def)
qed (use assms in \<open>auto simp: answers_ok_def\<close>)

interpretation answers_run: step_machine "mstep lk frames cfg P http iter" "\<lambda>w. hmac_ok P \<longrightarrow> answers_ok w"
  for lk frames cfg P http iter
  by unfold_locales (blast intro: answers_ok_step)

section \<open>Properties\<close>

text \<open>
  C25. The store is atomic: whatever the lock does within its documentation, and however the waits of requests and
  rotations interleave, the run looks like one in which a request takes the key in one step and a rotation
  replaces it in one step: the tasks and the measurements are the same, and so is the key outside of the assignment
  itself.
\<close>

theorem store_is_atomic:
  assumes "rwlock_ok lk" "opt_fold (mstep lk frames cfg P http iter) events (mflight_new s) = Some w"
  shows "\<exists>a. opt_fold (flight_step frames cfg P http iter)
      (seen_run (mstep lk frames cfg P http iter) events (mflight_new s)) (flight_new s) = Some a \<and>
    tasks a = map (abs_task (boxes (memory w))) (mtasks w) \<and> flight_log a = mlog w \<and>
    shared a = (msetup w)\<lparr>dek_store := dek_store (shared a)\<rparr> \<and>
    (is_erased (rotator w) \<or>
       inner (dek_store (shared a)) = map_option (\<lambda>b. boxes (memory w) ! b) (slot (memory w)))"
  using sim_run [OF assms sim_new mem_ok_new lock_ok_new] unfolding sim_def by blast

theorem store_is_atomic_witness:
  "\<exists>w a response. opt_fold sample_mstep (queued_events @ served_events) sample_mflight = Some w \<and>
     opt_fold sample_flight_step (seen_run sample_mstep (queued_events @ served_events) sample_mflight)
       (flight_new sample_state) = Some a \<and>
     tasks a = [Answered sample_call 7 response] \<and> flight_log a = mlog w"
proof -
  obtain u w response where "opt_fold sample_mstep queued_events sample_mflight = Some u"
    "opt_fold sample_mstep served_events u = Some w" and w: "mtasks w = [MAnswered sample_call 7 response]"
    using served_run by blast
  then have run: "opt_fold sample_mstep (queued_events @ served_events) sample_mflight = Some w"
    by (simp add: opt_fold_append)
  from store_is_atomic [OF fifo_ok run] w run show ?thesis by auto
qed

text \<open>
  C26. No deadlock: from every reachable state, without any event from outside, the requests in flight and the
  rotation on its way take at most four and three steps each, in whatever order, and when
  none of them can step, every request has been answered, without a panic, or cancelled, and the rotation is done.
\<close>

theorem no_deadlock:
  assumes "rwlock_ok lk" "hmac_ok P"
    and "opt_fold (mstep lk frames cfg P http iter) events (mflight_new s) = Some w"
    and "opt_fold (mstep lk frames cfg P http iter) steps w = Some w'" "list_all own_step steps"
  shows "length steps \<le> 4 * length (mtasks w) + 3 \<and>
    ((\<forall>e. own_step e \<longrightarrow> mstep lk frames cfg P http iter e w' = None) \<longrightarrow>
       rotator w' = Resting \<and>
       (\<forall>task \<in> set (mtasks w'). (\<exists>call t response. task = MAnswered call t (Some response)) \<or> (\<exists>call. task = MCancelled call)))"
proof -
  have run: "opt_fold (mstep lk frames cfg P http iter) (events @ steps) (mflight_new s) = Some w'"
    using assms(3,4) by (simp add: opt_fold_append)
  have "lock_ok w'" using lock_run.run_invar [OF _ run] assms(1) lock_ok_new by blast
  note stuck = stuck_is_done [OF assms(1) this]
  have "answers_ok (mflight_new s)" by (simp add: answers_ok_def mflight_new_def)
  then have answers: "answers_ok w'" using answers_run.run_invar [OF _ run] assms(2) by blast
  have "length steps \<le> 4 * length (mtasks w) + 3"
    using own_steps_bound [OF assms(4,5)] work_bound [of w] by simp
  moreover have "(\<exists>call t response. task = MAnswered call t (Some response)) \<or> (\<exists>call. task = MCancelled call)"
    if "is_done task" "task \<in> set (mtasks w')" for task
  proof (cases task)
    case (MAnswered call t r)
    with that(2) answers have "r \<noteq> None" unfolding answers_ok_def by metis
    with MAnswered show ?thesis by blast
  qed (use that(1) in simp_all)
  ultimately show ?thesis using stuck by blast
qed

theorem no_deadlock_witness:
  "\<exists>w w'. opt_fold sample_mstep queued_events sample_mflight = Some w \<and> opt_fold sample_mstep served_events w = Some w' \<and>
     length served_events \<le> 4 * length (mtasks w) + 3 \<and>
     (\<exists>call t response. mtasks w' = [MAnswered call t (Some response)])"
proof -
  obtain w w' response where run: "opt_fold sample_mstep queued_events sample_mflight = Some w"
    "opt_fold sample_mstep served_events w = Some w'"
    and w': "mtasks w' = [MAnswered sample_call 7 response]" "rotator w' = Resting"
    using served_run by blast
  have own: "list_all own_step served_events" by (simp add: served_events_def)
  have hmac: "hmac_ok sample_crypto" using sample_crypto_ok by (simp add: crypto_ok_def)
  have stuck: "sample_mstep e w' = None" if "own_step e" for e
    using that w' by (cases e) simp_all
  from no_deadlock [OF fifo_ok hmac run own] stuck w' run show ?thesis by auto
qed

end
