(* ===== verification/Runner.thy ===== *)
theory Runner
  imports Prelude
begin

text \<open>
  The runner of the enclave (\<open>src/scripts/run-enclave.sh\<close>), the entry point of the DaemonSet pod: it
  launches the enclave with \<open>nitro-cli\<close>, then polls it and exits when it is not running, so that
  the pod is restarted. The script runs under \<open>set -euo pipefail\<close>: a failed assignment
  \<open>X=$(...)\<close> ends it with the status of the command. \<open>nitro-cli\<close>, \<open>awk\<close> and \<open>jq\<close> are arguments. A
  command gives its exit status and its output.
\<close>

section \<open>Definitions\<close>

record runner_environment =
  ENCLAVE_MEMORY_MB :: "string option"
  ENCLAVE_CPU_COUNT :: "string option"
  ENCLAVE_CID :: "string option"
  EIF_PATH :: "string option"
  HEALTH_CHECK_INTERVAL :: "string option"

text \<open>\<open>${X:?message}\<close> and \<open>${X:-default}\<close>: a variable that is empty counts as unset.\<close>

definition required_var :: "string option \<Rightarrow> (string, nat) result" where
  "required_var v = (case v of Some x \<Rightarrow> if x = '''' then Err 1 else Ok x | None \<Rightarrow> Err 1)"

definition var_or :: "string \<Rightarrow> string option \<Rightarrow> string" where
  "var_or d v = (case v of Some x \<Rightarrow> if x = '''' then d else x | None \<Rightarrow> d)"

record nitro_cli =
  file_exists :: "string \<Rightarrow> bool"
  run_enclave :: "string list \<Rightarrow> nat \<times> string"
  enclave_id_of :: "string \<Rightarrow> nat \<times> string"
  state_of :: "string \<Rightarrow> string \<Rightarrow> nat \<times> string"

text \<open>
  The script once it watches an enclave: the arguments of \<open>terminate-enclave\<close> so far, whether the
  console process has been killed, and the exit status when it has exited.
\<close>

record runner =
  ENCLAVE_ID :: string
  terminated :: "string list"
  console_killed :: bool
  runner_exit :: "nat option"

text \<open>
  Sections 1 and 2. \<open>Stopped\<close> gives the exit status and tells whether \<open>nitro-cli\<close> had launched an enclave
  by then; the trap is not set yet.
\<close>

datatype runner_start = Stopped nat bool | Watching runner

definition launch :: "('x) nitro_cli_scheme \<Rightarrow> string \<Rightarrow> string \<Rightarrow> string \<Rightarrow> string \<Rightarrow> runner_start" where
  "launch N eif memory cpus cid =
     (if \<not> file_exists N eif then Stopped 1 False
      else case run_enclave N [''--eif-path'', eif, ''--memory'', memory, ''--cpu-count'', cpus, ''--enclave-cid'', cid] of
        (status, RUN_OUTPUT) \<Rightarrow>
          if status \<noteq> 0 then Stopped 1 False
          else (case enclave_id_of N RUN_OUTPUT of
            (status, found) \<Rightarrow>
              if status \<noteq> 0 then Stopped status True
              else if found = '''' then Stopped 1 True
              else Watching \<lparr>ENCLAVE_ID = found, terminated = [], console_killed = False, runner_exit = None\<rparr>))"

definition run_enclave_sh :: "('x) nitro_cli_scheme \<Rightarrow> runner_environment \<Rightarrow> runner_start" where
  "run_enclave_sh N env =
     (case required_var (ENCLAVE_MEMORY_MB env) of Ok memory \<Rightarrow>
        (case required_var (ENCLAVE_CPU_COUNT env) of Ok cpus \<Rightarrow>
           (case required_var (ENCLAVE_CID env) of Ok cid \<Rightarrow>
              launch N (var_or ''/enclave/nitro-enc-svc.eif'' (EIF_PATH env)) memory cpus cid
            | _ \<Rightarrow> Stopped 1 False)
         | _ \<Rightarrow> Stopped 1 False)
      | _ \<Rightarrow> Stopped 1 False)"

text \<open>Section 3: the handler, which is also the trap of \<open>EXIT\<close>.\<close>

definition cleanup :: "runner \<Rightarrow> runner" where
  "cleanup r = r\<lparr>console_killed := True, terminated := terminated r @ [ENCLAVE_ID r]\<rparr>"

definition exit_with :: "nat \<Rightarrow> runner \<Rightarrow> runner" where
  "exit_with status r = (cleanup r)\<lparr>runner_exit := Some status\<rparr>"

text \<open>
  Section 5: what happens while it watches. The trap of \<open>TERM\<close> and \<open>INT\<close> runs the handler and
  returns to the loop. \<open>Polled\<close> carries what \<open>describe-enclaves\<close> gives.
\<close>

datatype runner_event = Signalled | SleepFailed nat | Polled nat string

fun runner_step :: "('x) nitro_cli_scheme \<Rightarrow> runner_event \<Rightarrow> runner \<Rightarrow> runner option" where
  "runner_step N Signalled r = (if runner_exit r = None then Some (cleanup r) else None)"
| "runner_step N (SleepFailed status) r =
     (if runner_exit r = None \<and> status \<noteq> 0 then Some (exit_with status r) else None)"
| "runner_step N (Polled status DESCRIBE) r =
     (if runner_exit r \<noteq> None then None
      else if status \<noteq> 0 then Some (exit_with status r)
      else case state_of N (ENCLAVE_ID r) DESCRIBE of
        (status, STATE) \<Rightarrow>
          if status \<noteq> 0 then Some (exit_with status r)
          else if STATE = '''' then Some (exit_with 1 r)
          else if STATE \<noteq> ''RUNNING'' then Some (exit_with 1 r)
          else Some r)"

section \<open>Lemmas\<close>

text \<open>An event that the loop survives.\<close>

fun survived :: "('x) nitro_cli_scheme \<Rightarrow> string \<Rightarrow> runner_event \<Rightarrow> bool" where
  "survived N eid Signalled = True"
| "survived N eid (SleepFailed _) = False"
| "survived N eid (Polled status out) = (status = 0 \<and> state_of N eid out = (0, ''RUNNING''))"

text \<open>An exit is a failure, and the enclave has been asked to terminate by then.\<close>

definition runner_ok :: "runner \<Rightarrow> bool" where
  "runner_ok r \<longleftrightarrow>
     set (terminated r) \<subseteq> {ENCLAVE_ID r} \<and>
     (\<forall>status. runner_exit r = Some status \<longrightarrow> status \<noteq> 0 \<and> console_killed r \<and> terminated r \<noteq> [])"

lemma cleanup_simps [simp]:
  "ENCLAVE_ID (cleanup r) = ENCLAVE_ID r" "runner_exit (cleanup r) = runner_exit r"
  "terminated (cleanup r) = terminated r @ [ENCLAVE_ID r]" "console_killed (cleanup r)"
  by (simp_all add: cleanup_def)

lemma exit_with_simps [simp]:
  "ENCLAVE_ID (exit_with c r) = ENCLAVE_ID r" "runner_exit (exit_with c r) = Some c"
  "terminated (exit_with c r) = terminated r @ [ENCLAVE_ID r]" "console_killed (exit_with c r)"
  by (simp_all add: exit_with_def)

lemma runner_step_ok: "runner_ok r \<Longrightarrow> runner_step N e r = Some r' \<Longrightarrow> runner_ok r'"
  by (cases e) (auto simp: runner_ok_def split: if_splits prod.splits)

interpretation runner_run: step_machine "runner_step N" runner_ok
  for N
  by unfold_locales (rule runner_step_ok)

fun_cases runner_step_SomeE: "runner_step N e r = Some r'"

lemma runner_step_id: "runner_step N e r = Some r' \<Longrightarrow> ENCLAVE_ID r' = ENCLAVE_ID r"
  by (erule runner_step_SomeE) (auto split: if_splits prod.splits)

lemma runner_step_exit:
  "runner_step N e r = Some r' \<Longrightarrow> runner_exit r = None \<and> (runner_exit r' = None \<longleftrightarrow> survived N (ENCLAVE_ID r) e)"
  by (erule runner_step_SomeE) (auto split: if_splits prod.splits)

lemma runner_step_enabled:
  "runner_exit r = None \<Longrightarrow> \<exists>r'. runner_step N (Polled status out) r = Some r'"
  by (auto split: prod.split)

lemma runner_run_id: "opt_fold (runner_step N) es r = Some r' \<Longrightarrow> ENCLAVE_ID r' = ENCLAVE_ID r"
  by (induction es arbitrary: r) (auto simp: bind_eq_Some_conv dest!: runner_step_id)

lemma runner_run_exit:
  "opt_fold (runner_step N) es r = Some r' \<Longrightarrow> runner_exit r = None \<Longrightarrow>
     runner_exit r' = None \<longleftrightarrow> list_all (survived N (ENCLAVE_ID r)) es"
proof (induction es arbitrary: r' rule: rev_induct)
  case (snoc e es)
  then obtain u where u: "opt_fold (runner_step N) es r = Some u" and e: "runner_step N e u = Some r'"
    by (auto simp: opt_fold_append bind_eq_Some_conv)
  from snoc.IH [OF u snoc.prems(2)] runner_step_exit [OF e] runner_run_id [OF u] show ?case by simp
qed simp

lemma launch_cases:
  "launch N eif memory cpus cid =
     (let out = run_enclave N [''--eif-path'', eif, ''--memory'', memory, ''--cpu-count'', cpus, ''--enclave-cid'', cid];
          found = enclave_id_of N (snd out)
      in if \<not> file_exists N eif \<or> fst out \<noteq> 0 then Stopped 1 False
         else if fst found \<noteq> 0 then Stopped (fst found) True
         else if snd found = '''' then Stopped 1 True
         else Watching \<lparr>ENCLAVE_ID = snd found, terminated = [], console_killed = False, runner_exit = None\<rparr>)"
  by (auto simp: launch_def Let_def split: prod.splits)

lemma run_enclave_sh_launches:
  "run_enclave_sh N env = Watching r \<or> run_enclave_sh N env = Stopped status True \<Longrightarrow>
     \<exists>memory cpus cid. ENCLAVE_MEMORY_MB env = Some memory \<and> ENCLAVE_CPU_COUNT env = Some cpus \<and>
       ENCLAVE_CID env = Some cid \<and> cid \<noteq> '''' \<and>
       launch N (var_or ''/enclave/nitro-enc-svc.eif'' (EIF_PATH env)) memory cpus cid = run_enclave_sh N env"
  by (auto simp: run_enclave_sh_def required_var_def split: option.splits if_splits)

lemma run_enclave_sh_Watching:
  assumes "run_enclave_sh N env = Watching r"
  shows "terminated r = []" "runner_exit r = None" "ENCLAVE_ID r \<noteq> ''''" "runner_ok r"
proof -
  obtain eif memory cpus cid where "launch N eif memory cpus cid = Watching r"
    using run_enclave_sh_launches [of N env r] assms by metis
  then show "terminated r = []" "runner_exit r = None" "ENCLAVE_ID r \<noteq> ''''" "runner_ok r"
    by (auto simp: launch_cases Let_def runner_ok_def split: if_splits)
qed

section \<open>Properties\<close>

text \<open>
  C21. The runner supervises its enclave: it keeps watching exactly as long as every poll succeeds and
  shows the enclave as \<open>RUNNING\<close> (a signal alone does not end it), it is never stuck, a poll that
  shows anything else ends it, and when it ends, it ends with a failure status after it has asked
  for its enclave to be terminated.
\<close>

theorem runner_supervises:
  assumes "run_enclave_sh N env = Watching r" "opt_fold (runner_step N) events r = Some r'"
  shows "(runner_exit r' = None \<longleftrightarrow> list_all (survived N (ENCLAVE_ID r)) events) \<and>
    (\<forall>status. runner_exit r' = Some status \<longrightarrow> status \<noteq> 0 \<and> ENCLAVE_ID r \<in> set (terminated r')) \<and>
    (runner_exit r' = None \<longrightarrow> (\<forall>status out. \<exists>r''. runner_step N (Polled status out) r' = Some r'' \<and>
       (runner_exit r'' = None \<longleftrightarrow> status = 0 \<and> state_of N (ENCLAVE_ID r) out = (0, ''RUNNING''))))"
proof -
  note start = run_enclave_sh_Watching [OF assms(1)]
  have sid: "ENCLAVE_ID r' = ENCLAVE_ID r" by (rule runner_run_id [OF assms(2)])
  have "runner_ok r'" by (rule runner_run.run_invar [OF start(4) assms(2)])
  then have "\<forall>status. runner_exit r' = Some status \<longrightarrow> status \<noteq> 0 \<and> ENCLAVE_ID r \<in> set (terminated r')"
    using sid by (cases "terminated r'") (auto simp: runner_ok_def)
  moreover have "\<exists>r''. runner_step N (Polled status out) r' = Some r'' \<and>
      (runner_exit r'' = None \<longleftrightarrow> status = 0 \<and> state_of N (ENCLAVE_ID r) out = (0, ''RUNNING''))"
    if alive: "runner_exit r' = None" for status out
  proof -
    obtain r'' where r'': "runner_step N (Polled status out) r' = Some r''"
      using runner_step_enabled [OF alive] by blast
    from runner_step_exit [OF this] r'' sid show ?thesis by auto
  qed
  ultimately show ?thesis using runner_run_exit [OF assms(2) start(2)] by blast
qed

definition sample_nitro :: nitro_cli where
  "sample_nitro =
     \<lparr>file_exists = (\<lambda>_. True), run_enclave = (\<lambda>_. (0, ''started i-1'')), enclave_id_of = (\<lambda>_. (0, ''i-1'')),
      state_of = (\<lambda>_ out. (0, out))\<rparr>"

definition sample_runner_env :: runner_environment where
  "sample_runner_env =
     \<lparr>ENCLAVE_MEMORY_MB = Some ''1024'', ENCLAVE_CPU_COUNT = Some ''2'', ENCLAVE_CID = Some ''16'',
      EIF_PATH = None, HEALTH_CHECK_INTERVAL = None\<rparr>"

theorem runner_supervises_witness:
  "\<exists>r r'. run_enclave_sh sample_nitro sample_runner_env = Watching r \<and>
     opt_fold (runner_step sample_nitro) [Polled 0 ''RUNNING'', Signalled, Polled 0 ''TERMINATING''] r = Some r' \<and>
     runner_exit r' \<noteq> None \<and> ''i-1'' \<in> set (terminated r')"
proof -
  let ?r = "\<lparr>ENCLAVE_ID = ''i-1'', terminated = [], console_killed = False, runner_exit = None\<rparr>"
  have r: "run_enclave_sh sample_nitro sample_runner_env = Watching ?r"
    by (simp add: run_enclave_sh_def sample_runner_env_def required_var_def launch_def sample_nitro_def)
  obtain r' where r': "opt_fold (runner_step sample_nitro)
      [Polled 0 ''RUNNING'', Signalled, Polled 0 ''TERMINATING''] ?r = Some r'" "runner_exit r' = Some 1"
    by (simp add: sample_nitro_def)
  with runner_supervises [OF r r'(1)] have "''i-1'' \<in> set (terminated r')" by simp
  with r r' show ?thesis by (intro exI [of _ ?r] exI [of _ r']) simp
qed

text \<open>
  Between the launch and the trap nothing terminates the enclave: when its identifier cannot be read from
  the output of \<open>nitro-cli\<close>, the script fails and the enclave keeps running.
\<close>

lemma launch_can_leak:
  assumes "file_exists N eif"
    and "run_enclave N [''--eif-path'', eif, ''--memory'', memory, ''--cpu-count'', cpus, ''--enclave-cid'', cid] = (0, out)"
    and "enclave_id_of N out = (status, found)" "status \<noteq> 0 \<or> found = ''''"
  shows "\<exists>code. code \<noteq> 0 \<and> launch N eif memory cpus cid = Stopped code True"
  using assms by (auto simp: launch_cases Let_def)

text \<open>A signal does not end the script: the handler runs, and the next failing poll runs it again.\<close>

lemma signal_terminates_twice:
  assumes "runner_exit r = None" "terminated r = []" "state_of N (ENCLAVE_ID r) out \<noteq> (0, ''RUNNING'')"
    and "opt_fold (runner_step N) [Signalled, Polled 0 out] r = Some r'"
  shows "terminated r' = [ENCLAVE_ID r, ENCLAVE_ID r] \<and> runner_exit r' \<noteq> None \<and> runner_exit r' \<noteq> Some 0"
  using assms by (auto split: prod.splits if_splits)

end
