(* ===== verification/Deployment.thy ===== *)
theory Deployment
  imports Relay Connector Runner
begin

text \<open>
  How the pieces are wired on a node: the proxies of the parent that
  \<open>src/terraform/templates/node_userdata.sh.tpl\<close> starts (\<open>src/deploy/karpenter-ec2nodeclass.yaml\<close> has the
  same script for one region), the environment baked into the enclave image (\<open>src/Dockerfile.enclave\<close>), and
  the environment of the sidecar and of the runner (\<open>src/deploy/vsock-proxy-service.yaml\<close>,
  \<open>src/deploy/daemonset-enclave.yaml\<close>). Composed with the connector, the bridges and the sidecar they give
  the two directions: where a request that leaves the enclave arrives, and where one that enters the
  node arrives.
\<close>

section \<open>The proxies of the parent\<close>

text \<open>Section 3 of the bootstrap: what the enclave may reach, and on which port.\<close>

definition ALLOWLIST :: "string \<Rightarrow> (string \<times> string) list" where
  "ALLOWLIST aws_region =
     [(''kms.'' @ aws_region @ ''.amazonaws.com'', ''443''),
      (''secretsmanager.'' @ aws_region @ ''.amazonaws.com'', ''443''),
      (''s3.'' @ aws_region @ ''.amazonaws.com'', ''443''),
      (''169.254.169.254'', ''80''),
      (''127.0.0.1'', ''4317''),
      (''127.0.0.1'', ''4318'')]"

text \<open>Section 4: the units, each with the line that \<open>read\<close> takes apart.\<close>

definition PROXIES :: "string \<Rightarrow> (string \<times> string) list" where
  "PROXIES aws_region =
     [(''nitro-vsock-kms'', ''8001 kms.'' @ aws_region @ ''.amazonaws.com 443''),
      (''nitro-vsock-sm'', ''8002 secretsmanager.'' @ aws_region @ ''.amazonaws.com 443''),
      (''nitro-vsock-s3'', ''8003 s3.'' @ aws_region @ ''.amazonaws.com 443''),
      (''nitro-vsock-imds'', ''8004 169.254.169.254 80''),
      (''nitro-vsock-otlp'', ''4317 127.0.0.1 4317''),
      (''nitro-vsock-logs'', ''4318 127.0.0.1 4318'')]"

text \<open>
  \<open>read -r A B C\<close>: fields are separated by blanks, and the last variable takes the rest of the line
  without trailing blanks.
\<close>

definition blank :: "char \<Rightarrow> bool" where
  "blank c \<longleftrightarrow> c \<in> {CHR '' '', CHR 0x09, CHR 0x0A}"

definition next_field :: "string \<Rightarrow> string \<times> string" where
  "next_field s = (takeWhile (\<lambda>c. \<not> blank c) s, dropWhile blank (dropWhile (\<lambda>c. \<not> blank c) s))"

definition read_fields :: "string \<Rightarrow> string \<times> string \<times> string" where
  "read_fields line =
     (let (a, rest) = next_field (dropWhile blank line);
          (b, rest) = next_field rest
      in (a, b, rev (dropWhile blank (rev rest))))"

text \<open>
  The arguments of \<open>ExecStart\<close>. The \<open>vsock-proxy\<close> of the parent is AWS's: \<open>bin\<close> gives, for an
  allowlist and its arguments, the vsock port it listens on and the remote it connects to, or
  \<open>None\<close> when it refuses to start.
\<close>

definition units :: "string \<Rightarrow> (string \<times> string \<times> string) list" where
  "units aws_region = map (\<lambda>(NAME, line). read_fields line) (PROXIES aws_region)"

type_synonym vsock_proxy = "(string \<times> string) list \<Rightarrow> string \<times> string \<times> string \<Rightarrow> (u32 \<times> string \<times> u16) option"

definition listeners :: "vsock_proxy \<Rightarrow> string \<Rightarrow> (u32 \<times> string \<times> u16) list" where
  "listeners bin aws_region = List.map_filter (bin (ALLOWLIST aws_region)) (units aws_region)"

text \<open>Its documentation: decimal ports, and the remote has to be on the allowlist.\<close>

definition vsock_proxy_ok :: "vsock_proxy \<Rightarrow> bool" where
  "vsock_proxy_ok bin \<longleftrightarrow>
     (\<forall>allow port host remote_port. port < 2 ^ 32 \<and> remote_port < 2 ^ 16 \<longrightarrow>
        bin allow (show_nat port, host, show_nat remote_port) =
          (if (host, show_nat remote_port) \<in> set allow then Some (of_nat port, host, of_nat remote_port) else None))"

text \<open>
  What a port of the parent leads to: the remote of a proxy, or, when the deployment has an ACM certificate
  (section 5), the proxy that hands out its key on port 9005.
\<close>

datatype remote = Host string u16 | CertificateProxy

definition p7_proxy :: "string \<Rightarrow> (u32 \<times> remote) list" where
  "p7_proxy acm_cert_arn = (if acm_cert_arn \<noteq> '''' then [(9005, CertificateProxy)] else [])"

definition parent_ports :: "vsock_proxy \<Rightarrow> string \<Rightarrow> string \<Rightarrow> (u32 \<times> remote) list" where
  "parent_ports bin aws_region acm_cert_arn =
     map (\<lambda>(port, host, remote_port). (port, Host host remote_port)) (listeners bin aws_region) @ p7_proxy acm_cert_arn"

section \<open>Leaving the enclave\<close>

text \<open>A vsock connect from the enclave reaches what listens on that port of the parent.\<close>

definition parent_connect ::
  "u32 \<Rightarrow> (u32 \<times> remote) list \<Rightarrow> u32 \<Rightarrow> u32 \<Rightarrow> (remote, anyhow) result" where
  "parent_connect parent ports cid port =
     (if cid = parent then ok_or (map_of ports port) [''connection reset''] else Err [''no such device''])"

text \<open>
  A TCP connect to the loopback interface reaches the task of a bridge, which dials. To be safe, every other TCP
  connect is taken to succeed: nothing is assumed about the isolation of the enclave's network.
\<close>

definition dialled ::
  "(u32 \<Rightarrow> u32 \<Rightarrow> ('r, anyhow) result) \<Rightarrow> ('peer \<times> u32 \<times> u32) list \<Rightarrow> ('r, anyhow) result" where
  "dialled dial tasks = (case tasks of (_, cid, port) # _ \<Rightarrow> dial cid port | [] \<Rightarrow> Err [''connection refused''])"

definition tcp_connect ::
  "(u32 \<Rightarrow> u32 \<Rightarrow> (remote, anyhow) result) \<Rightarrow> u32 \<Rightarrow> string \<Rightarrow> u16 \<Rightarrow> (remote, anyhow) result" where
  "tcp_connect dial parent_cid host port =
     (if host \<noteq> ''127.0.0.1'' \<and> host \<noteq> ''localhost'' then Ok (Host host port)
      else if port = 8004 then and_then (start_imds_bridge parent_cid (Ok ()) [Ok ()]) (dialled dial)
      else if port = 4317 then and_then (start_otlp_bridge parent_cid (Ok ()) [Ok ()]) (dialled dial)
      else if port = 4318 then dialled dial (fst (start_log_bridge parent_cid (Ok ()) (Some ()) [Ok ()]))
      else Err [''connection refused''])"

text \<open>A request of the AWS clients, from the connector to the remote.\<close>

definition egress ::
  "vsock_proxy \<Rightarrow> string \<Rightarrow> string \<Rightarrow> u32 \<Rightarrow> config \<Rightarrow> uri \<Rightarrow> (remote, anyhow) result" where
  "egress bin aws_region acm_cert_arn parent cfg u =
     (let dial = parent_connect parent (parent_ports bin aws_region acm_cert_arn)
      in and_then (connector_call (tcp_connect dial (vsock_proxy_cid cfg)) dial
           (connector_new (vsock_proxy_cid cfg) (vsock_proxy_port cfg)) u)
         (\<lambda>s. case s of Vsock remote \<Rightarrow> Ok remote | Tcp remote \<Rightarrow> Ok remote))"

text \<open>The service that the port of a host belongs to.\<close>

definition service_prefix :: "string \<Rightarrow> string" where
  "service_prefix h =
     (if starts_with h ''kms.'' then ''kms.''
      else if starts_with h ''secretsmanager.'' then ''secretsmanager.''
      else if starts_with h ''s3.'' \<or> contains h ''.s3.'' then ''s3.''
      else ''kms.'')"

section \<open>Environments\<close>

text \<open>
  The image, with the optional arguments at their defaults. A required \<open>ARG\<close> that is not given leaves an
  empty variable. Numbers are converted by the
  \<open>config\<close> crate, which rejects an empty one.
\<close>

definition baked :: "string option \<Rightarrow> string env_var" where
  "baked arg = Present (case arg of Some v \<Rightarrow> v | None \<Rightarrow> '''')"

definition baked_number :: "'a option \<Rightarrow> 'a env_var" where
  "baked_number arg = (case arg of Some v \<Rightarrow> Present v | None \<Rightarrow> Malformed)"

record build_args =
  arg_secret_arn :: "string option"
  arg_kms_key_id :: "string option"
  arg_s3_bucket :: "string option"
  arg_vsock_proxy_cid :: "u32 option"
  arg_otel_exporter_otlp_endpoint :: "string option"

definition image_env :: "build_args \<Rightarrow> environment" where
  "image_env args =
     \<lparr>env_secret_arn = baked (arg_secret_arn args),
      env_kms_key_id = baked (arg_kms_key_id args),
      env_s3_bucket = baked (arg_s3_bucket args),
      env_s3_prefix = Present ''schemas/'',
      env_schema_header_name = Present ''X-Schema-Name'',
      env_dek_rotation_interval_secs = Present 3600,
      env_schema_refresh_interval_secs = Present 300,
      env_vsock_proxy_cid = baked_number (arg_vsock_proxy_cid args),
      env_vsock_proxy_port = Present 8000,
      env_tls_port = Present 443,
      env_tls_cert_path = Present ''/etc/acm/tls.crt'',
      env_tls_key_path = Present ''/etc/acm/tls.key'',
      env_otel_exporter_otlp_endpoint = baked (arg_otel_exporter_otlp_endpoint args),
      env_log_level = Present ''info''\<rparr>"

definition IMAGE_REGION :: string where
  "IMAGE_REGION = ''us-east-2''"

text \<open>The sidecar's and the runner's, in the manifests.\<close>

definition sidecar_env :: proxy_environment where
  "sidecar_env =
     \<lparr>env_listen_port = Present 8443, env_enclave_cid = Present 16, env_enclave_port = Present 443,
      env_main_app_addr = Present ''127.0.0.1:9999'', env_proxy_log_level = Present ''info''\<rparr>"

definition runner_env :: runner_environment where
  "runner_env =
     \<lparr>ENCLAVE_MEMORY_MB = Some ''1024'', ENCLAVE_CPU_COUNT = Some ''2'', ENCLAVE_CID = Some ''16'',
      EIF_PATH = None, HEALTH_CHECK_INTERVAL = None\<rparr>"

section \<open>Lemmas\<close>

definition plain_region :: "string \<Rightarrow> bool" where
  "plain_region aws_region \<longleftrightarrow> list_all (\<lambda>c. \<not> blank c) aws_region"

lemma read_fields_words:
  assumes "list_all (\<lambda>c. \<not> blank c) a" "list_all (\<lambda>c. \<not> blank c) b" "list_all (\<lambda>c. \<not> blank c) c"
    and "a \<noteq> ''''" "b \<noteq> ''''"
  shows "read_fields (a @ CHR '' '' # b @ CHR '' '' # c) = (a, b, c)"
proof -
  have sp: "blank (CHR '' '')" by (simp add: blank_def)
  have split: "takeWhile (\<lambda>c. \<not> blank c) (x @ CHR '' '' # y) = x"
    "dropWhile (\<lambda>c. \<not> blank c) (x @ CHR '' '' # y) = CHR '' '' # y"
    if "list_all (\<lambda>c. \<not> blank c) x" for x y
    using that sp by (auto simp: takeWhile_append dropWhile_append list_all_iff)
  have keep: "dropWhile blank x = x" if "list_all (\<lambda>c. \<not> blank c) x" for x
    using that by (cases x) simp_all
  have start: "dropWhile blank (x @ y) = x @ y" if "list_all (\<lambda>c. \<not> blank c) x" "x \<noteq> []" for x y
    using that by (cases x) simp_all
  have "list_all (\<lambda>c. \<not> blank c) (rev c)" using assms(3) by (simp add: list_all_iff)
  then show ?thesis
    using assms sp by (simp add: read_fields_def next_field_def Let_def split keep start)
qed

lemma show_ports:
  "show_nat 8001 = ''8001''" "show_nat 8002 = ''8002''" "show_nat 8003 = ''8003''" "show_nat 8004 = ''8004''"
  "show_nat 4317 = ''4317''" "show_nat 4318 = ''4318''" "show_nat 443 = ''443''" "show_nat 80 = ''80''"
  by (simp_all add: show_nat.simps char_of_def bit_0)

lemma units_eq:
  assumes "plain_region r"
  shows "units r =
    [(show_nat 8001, ''kms.'' @ r @ ''.amazonaws.com'', show_nat 443),
     (show_nat 8002, ''secretsmanager.'' @ r @ ''.amazonaws.com'', show_nat 443),
     (show_nat 8003, ''s3.'' @ r @ ''.amazonaws.com'', show_nat 443),
     (show_nat 8004, ''169.254.169.254'', show_nat 80),
     (show_nat 4317, ''127.0.0.1'', show_nat 4317),
     (show_nat 4318, ''127.0.0.1'', show_nat 4318)]"
proof -
  have r: "list_all (\<lambda>c. \<not> blank c) r" using assms by (simp add: plain_region_def)
  have "read_fields (a @ '' '' @ (p @ r @ ''.amazonaws.com'') @ '' '' @ ''443'') = (a, p @ r @ ''.amazonaws.com'', ''443'')"
    if "list_all (\<lambda>c. \<not> blank c) a" "list_all (\<lambda>c. \<not> blank c) p" "a \<noteq> ''''" for a p
    using that r read_fields_words [of a "p @ r @ ''.amazonaws.com''" "''443''"] by (simp add: blank_def)
  from this [of "''8001''" "''kms.''"] this [of "''8002''" "''secretsmanager.''"] this [of "''8003''" "''s3.''"]
  have hosts: "read_fields (''8001 kms.'' @ r @ ''.amazonaws.com 443'') = (''8001'', ''kms.'' @ r @ ''.amazonaws.com'', ''443'')"
    "read_fields (''8002 secretsmanager.'' @ r @ ''.amazonaws.com 443'') =
       (''8002'', ''secretsmanager.'' @ r @ ''.amazonaws.com'', ''443'')"
    "read_fields (''8003 s3.'' @ r @ ''.amazonaws.com 443'') = (''8003'', ''s3.'' @ r @ ''.amazonaws.com'', ''443'')"
    by (simp_all add: blank_def)
  have fixed: "read_fields ''8004 169.254.169.254 80'' = (''8004'', ''169.254.169.254'', ''80'')"
    "read_fields ''4317 127.0.0.1 4317'' = (''4317'', ''127.0.0.1'', ''4317'')"
    "read_fields ''4318 127.0.0.1 4318'' = (''4318'', ''127.0.0.1'', ''4318'')"
    using read_fields_words [of "''8004''" "''169.254.169.254''" "''80''"]
      read_fields_words [of "''4317''" "''127.0.0.1''" "''4317''"] read_fields_words [of "''4318''" "''127.0.0.1''" "''4318''"]
    by (simp_all add: blank_def)
  show ?thesis using hosts fixed by (simp add: units_def PROXIES_def show_ports)
qed

lemma listeners_eq:
  assumes "vsock_proxy_ok bin" "plain_region r"
  shows "listeners bin r =
    [(8001, ''kms.'' @ r @ ''.amazonaws.com'', 443), (8002, ''secretsmanager.'' @ r @ ''.amazonaws.com'', 443),
     (8003, ''s3.'' @ r @ ''.amazonaws.com'', 443), (8004, ''169.254.169.254'', 80),
     (4317, ''127.0.0.1'', 4317), (4318, ''127.0.0.1'', 4318)]"
proof -
  have "bin (ALLOWLIST r) (show_nat p, h, show_nat q) = Some (of_nat p, h, of_nat q)"
    if "p < 2 ^ 32" "q < 2 ^ 16" "(h, show_nat q) \<in> set (ALLOWLIST r)" for p h q
    using that assms(1) unfolding vsock_proxy_ok_def by auto
  from this [of 8001 443] this [of 8002 443] this [of 8003 443] this [of 8004 80] this [of 4317 4317] this [of 4318 4318]
  show ?thesis
    by (simp add: listeners_def units_eq [OF assms(2)] List.map_filter_def ALLOWLIST_def show_ports)
qed

text \<open>What the ports of the parent lead to; the proxies come first, and their ports are not 9005.\<close>

lemma parent_ports_eq:
  assumes "vsock_proxy_ok bin" "plain_region r"
  shows "map_of (parent_ports bin r acm) port =
    (if port = 8001 then Some (Host (''kms.'' @ r @ ''.amazonaws.com'') 443)
     else if port = 8002 then Some (Host (''secretsmanager.'' @ r @ ''.amazonaws.com'') 443)
     else if port = 8003 then Some (Host (''s3.'' @ r @ ''.amazonaws.com'') 443)
     else if port = 8004 then Some (Host ''169.254.169.254'' 80)
     else if port = 4317 then Some (Host ''127.0.0.1'' 4317)
     else if port = 4318 then Some (Host ''127.0.0.1'' 4318)
     else if port = 9005 \<and> acm \<noteq> '''' then Some CertificateProxy else None)"
  unfolding parent_ports_def listeners_eq [OF assms] p7_proxy_def by simp

lemma tcp_connect_eq:
  "tcp_connect dial cid host port =
     (if host \<noteq> ''127.0.0.1'' \<and> host \<noteq> ''localhost'' then Ok (Host host port)
      else if port = 8004 then dial cid 8004 else if port = 4317 then dial cid 4317
      else if port = 4318 then dial cid 4318 else Err [''connection refused''])"
  by (simp add: tcp_connect_def start_imds_bridge_def start_otlp_bridge_def start_log_bridge_def dialled_def
      IMDS_PORT_def OTLP_PORT_def LOG_PORT_def with_context_def is_ok_def)

lemma egress_vsock:
  assumes "h \<noteq> ''127.0.0.1''" "h \<noteq> ''localhost''"
  shows "egress bin r acm parent cfg \<lparr>uri_host = Some h, uri_port = p\<rparr> = Ok remote \<longleftrightarrow>
    vsock_proxy_cid cfg = parent \<and>
    map_of (parent_ports bin r acm) (vsock_port h (vsock_proxy_port cfg)) = Some remote"
  using assms
  by (auto simp: egress_def Let_def connector_call_def connector_new_def parent_connect_def result_simps)

lemma egress_local:
  assumes "h = ''127.0.0.1'' \<or> h = ''localhost''"
  shows "egress bin r acm parent cfg \<lparr>uri_host = Some h, uri_port = p\<rparr> = Ok remote \<longleftrightarrow>
    vsock_proxy_cid cfg = parent \<and>
    (\<exists>port. p = Some port \<and> port \<in> {8004, 4317, 4318} \<and> map_of (parent_ports bin r acm) (ucast port) = Some remote)"
  using assms
  by (auto simp: egress_def Let_def connector_call_def tcp_connect_eq parent_connect_def result_simps
      split: option.splits if_splits)

lemma egress_host:
  "egress bin r acm parent cfg u =
     egress bin r acm parent cfg \<lparr>uri_host = Some (case uri_host u of Some h \<Rightarrow> h | None \<Rightarrow> ''''), uri_port = uri_port u\<rparr>"
  by (simp add: egress_def Let_def connector_call_def)

lemma image_config:
  assumes "from_env (Ok (image_env args)) = Ok cfg"
  shows "vsock_proxy_port cfg = 8000" "tls_port cfg = 443" "arg_vsock_proxy_cid args = Some (vsock_proxy_cid cfg)"
  using assms
  by (auto simp: from_env_Ok_iff deserialize_Ok_iff image_env_def baked_number_def result_simps split: option.splits)

text \<open>A proxy that reads its ports as decimal numbers and checks the allowlist.\<close>

definition read_nat :: "string \<Rightarrow> nat" where
  "read_nat s = foldl (\<lambda>n c. 10 * n + (of_char c - 48)) 0 s"

definition sample_vsock_proxy :: vsock_proxy where
  "sample_vsock_proxy allow args =
     (case args of (port, host, remote_port) \<Rightarrow>
        if (host, remote_port) \<in> set allow
        then Some (of_nat (read_nat port), host, of_nat (read_nat remote_port)) else None)"

lemma read_show_nat: "read_nat (show_nat n) = n"
proof (induction n rule: show_nat.induct)
  case (1 n)
  show ?case
  proof (cases "n < 10")
    case True
    then have "show_nat n = [char_of (48 + n)]" by (simp add: show_nat.simps)
    with True show ?thesis by (simp add: read_nat_def)
  next
    case False
    then have "show_nat n = show_nat (n div 10) @ [char_of (48 + n mod 10)]" by (subst show_nat.simps) simp
    moreover have "n mod 10 < 10" by simp
    ultimately show ?thesis using 1 [OF False] by (simp add: read_nat_def)
  qed
qed

lemma sample_vsock_proxy_ok: "vsock_proxy_ok sample_vsock_proxy"
  by (simp add: vsock_proxy_ok_def sample_vsock_proxy_def read_show_nat)

definition sample_args :: build_args where
  "sample_args =
     \<lparr>arg_secret_arn = Some ''arn'', arg_kms_key_id = Some ''key'', arg_s3_bucket = Some ''bucket'',
      arg_vsock_proxy_cid = Some 3, arg_otel_exporter_otlp_endpoint = Some ''http''\<rparr>"

definition sample_image_config :: config where
  "sample_image_config =
     \<lparr>secret_arn = ''arn'', kms_key_id = ''key'', s3_bucket = ''bucket'', s3_prefix = ''schemas/'',
      schema_header_name = ''X-Schema-Name'', dek_rotation_interval_secs = 3600,
      schema_refresh_interval_secs = 300, vsock_proxy_cid = 3, vsock_proxy_port = 8000, tls_port = 443,
      tls_cert_path = ''/etc/acm/tls.crt'', tls_key_path = ''/etc/acm/tls.key'',
      otel_exporter_otlp_endpoint = ''http'', log_level = ''info''\<rparr>"

lemma sample_image: "from_env (Ok (image_env sample_args)) = Ok sample_image_config"
  unfolding from_env_Ok_iff config_ok_def deserialize_Ok_iff
  by (simp add: image_env_def sample_args_def sample_image_config_def baked_def baked_number_def with_default_def
      not_blank is_ascii_def is_whitespace_def)

section \<open>Properties\<close>

text \<open>
  C19. Requests that leave the enclave arrive: on a node of a region, with the image's configuration and the CID of
  the parent baked in, a request to KMS, to Secrets Manager or to S3 of that region (by the name of
  the service or of a bucket) is connected to that very service on port 443, and one to the metadata
  endpoint on the loopback interface to the metadata service of the instance.
\<close>

theorem egress_arrives:
  assumes "vsock_proxy_ok bin" "plain_region r" "from_env (Ok (image_env args)) = Ok cfg"
    and "arg_vsock_proxy_cid args = Some parent"
    and "\<not> starts_with (bucket @ ''.s3.'' @ r @ ''.amazonaws.com'') ''kms.''"
    and "\<not> starts_with (bucket @ ''.s3.'' @ r @ ''.amazonaws.com'') ''secretsmanager.''"
  shows "egress bin r acm parent cfg \<lparr>uri_host = Some (''kms.'' @ r @ ''.amazonaws.com''), uri_port = p\<rparr> =
      Ok (Host (''kms.'' @ r @ ''.amazonaws.com'') 443) \<and>
    egress bin r acm parent cfg \<lparr>uri_host = Some (''secretsmanager.'' @ r @ ''.amazonaws.com''), uri_port = p\<rparr> =
      Ok (Host (''secretsmanager.'' @ r @ ''.amazonaws.com'') 443) \<and>
    egress bin r acm parent cfg \<lparr>uri_host = Some (''s3.'' @ r @ ''.amazonaws.com''), uri_port = p\<rparr> =
      Ok (Host (''s3.'' @ r @ ''.amazonaws.com'') 443) \<and>
    egress bin r acm parent cfg \<lparr>uri_host = Some (bucket @ ''.s3.'' @ r @ ''.amazonaws.com''), uri_port = p\<rparr> =
      Ok (Host (''s3.'' @ r @ ''.amazonaws.com'') 443) \<and>
    egress bin r acm parent cfg \<lparr>uri_host = Some ''127.0.0.1'', uri_port = Some 8004\<rparr> = Ok (Host ''169.254.169.254'' 80)"
proof -
  note ls = parent_ports_eq [OF assms(1,2), of acm] and cfg = image_config [OF assms(3)]
  note ports = port_mapping [OF assms(5,6), of 8000]
  have parent: "vsock_proxy_cid cfg = parent" using cfg(3) assms(4) by simp
  have "bucket @ ''.s3.'' @ r @ ''.amazonaws.com'' \<noteq> h" if "length h < 18" for h
    using that by (auto dest: arg_cong [where f = length])
  from this [of "''127.0.0.1''"] this [of "''localhost''"]
  have local: "bucket @ ''.s3.'' @ r @ ''.amazonaws.com'' \<noteq> ''127.0.0.1''"
    "bucket @ ''.s3.'' @ r @ ''.amazonaws.com'' \<noteq> ''localhost''"
    by simp_all
  have dialled: "egress bin r acm parent cfg \<lparr>uri_host = Some h, uri_port = p\<rparr> = Ok remote"
    if "h \<noteq> ''127.0.0.1''" "h \<noteq> ''localhost''" "map_of (parent_ports bin r acm) (vsock_port h 8000) = Some remote"
    for h remote
    using egress_vsock [OF that(1,2)] that(3) parent cfg(1) by simp
  show ?thesis
  proof (intro conjI)
    show "egress bin r acm parent cfg \<lparr>uri_host = Some (''kms.'' @ r @ ''.amazonaws.com''), uri_port = p\<rparr> =
        Ok (Host (''kms.'' @ r @ ''.amazonaws.com'') 443)"
      by (rule dialled) (use ports in \<open>simp_all add: ls\<close>)
    show "egress bin r acm parent cfg \<lparr>uri_host = Some (''secretsmanager.'' @ r @ ''.amazonaws.com''), uri_port = p\<rparr> =
        Ok (Host (''secretsmanager.'' @ r @ ''.amazonaws.com'') 443)"
      by (rule dialled) (use ports in \<open>simp_all add: ls\<close>)
    show "egress bin r acm parent cfg \<lparr>uri_host = Some (''s3.'' @ r @ ''.amazonaws.com''), uri_port = p\<rparr> =
        Ok (Host (''s3.'' @ r @ ''.amazonaws.com'') 443)"
      by (rule dialled) (use ports in \<open>simp_all add: ls\<close>)
    show "egress bin r acm parent cfg \<lparr>uri_host = Some (bucket @ ''.s3.'' @ r @ ''.amazonaws.com''), uri_port = p\<rparr> =
        Ok (Host (''s3.'' @ r @ ''.amazonaws.com'') 443)"
      by (rule dialled [OF local]) (use ports in \<open>simp_all add: ls\<close>)
    show "egress bin r acm parent cfg \<lparr>uri_host = Some ''127.0.0.1'', uri_port = Some 8004\<rparr> =
        Ok (Host ''169.254.169.254'' 80)"
      unfolding egress_local [OF disjI1 [OF refl]] by (simp add: parent ls)
  qed
qed

theorem egress_arrives_witness:
  "egress sample_vsock_proxy ''us-east-2'' ''arn'' 3 sample_image_config
     \<lparr>uri_host = Some ''kms.us-east-2.amazonaws.com'', uri_port = None\<rparr> =
     Ok (Host ''kms.us-east-2.amazonaws.com'' 443)"
proof -
  have "egress sample_vsock_proxy ''us-east-2'' ''arn'' 3 sample_image_config
      \<lparr>uri_host = Some (''kms.'' @ ''us-east-2'' @ ''.amazonaws.com''), uri_port = None\<rparr> =
      Ok (Host (''kms.'' @ ''us-east-2'' @ ''.amazonaws.com'') 443)"
    by (rule conjunct1 [OF egress_arrives [OF sample_vsock_proxy_ok _ sample_image, where bucket = "''bucket''"]])
      (simp_all add: plain_region_def blank_def sample_args_def starts_with_def)
  then show ?thesis by simp
qed

text \<open>
  C8. Nothing else is reachable, even if the enclave had a network of its own: with the configuration of the image,
  whatever a client asks for, a connection that is made to a host other than the loopback interface
  ends at the service of the region that the name of the host stands for, KMS for a host of no known service, on port
  443; one to the loopback interface ends at the metadata service or at a collector on the parent,
  by its port. In no case is it another host, a remote that is not on the node's allowlist, or the
  proxy on port 9005 that hands out the key of the certificate.
\<close>

theorem egress_confined:
  assumes "vsock_proxy_ok bin" "plain_region r" "from_env (Ok (image_env args)) = Ok cfg"
    and "egress bin r acm parent cfg u = Ok remote" "h = (case uri_host u of Some h \<Rightarrow> h | None \<Rightarrow> '''')"
  shows "(h \<noteq> ''127.0.0.1'' \<and> h \<noteq> ''localhost'' \<longrightarrow> remote = Host (service_prefix h @ r @ ''.amazonaws.com'') 443) \<and>
    (h = ''127.0.0.1'' \<or> h = ''localhost'' \<longrightarrow>
       uri_port u = Some 8004 \<and> remote = Host ''169.254.169.254'' 80 \<or>
       uri_port u = Some 4317 \<and> remote = Host ''127.0.0.1'' 4317 \<or>
       uri_port u = Some 4318 \<and> remote = Host ''127.0.0.1'' 4318) \<and>
    (\<exists>host port. remote = Host host port \<and> (host, show_nat (unat port)) \<in> set (ALLOWLIST r))"
proof -
  note ls = parent_ports_eq [OF assms(1,2), of acm] and base = image_config(1) [OF assms(3)]
  have run: "egress bin r acm parent cfg \<lparr>uri_host = Some h, uri_port = uri_port u\<rparr> = Ok remote"
    using assms(4) egress_host [of bin r acm parent cfg u] by (simp add: assms(5))
  have global: "starts_with ''s3.amazonaws.com'' ''s3.''" by (simp add: starts_with_def)
  have far: "remote = Host (service_prefix h @ r @ ''.amazonaws.com'') 443"
    if "h \<noteq> ''127.0.0.1''" "h \<noteq> ''localhost''"
    using run unfolding egress_vsock [OF that] base vsock_port_def
    by (auto simp: ls service_prefix_def global split: if_splits)
  moreover have near: "uri_port u = Some 8004 \<and> remote = Host ''169.254.169.254'' 80 \<or>
       uri_port u = Some 4317 \<and> remote = Host ''127.0.0.1'' 4317 \<or>
       uri_port u = Some 4318 \<and> remote = Host ''127.0.0.1'' 4318"
    if "h = ''127.0.0.1'' \<or> h = ''localhost''"
    using run unfolding egress_local [OF that] by (auto simp: ls)
  moreover have "\<exists>host port. remote = Host host port \<and> (host, show_nat (unat port)) \<in> set (ALLOWLIST r)"
  proof (cases "h = ''127.0.0.1'' \<or> h = ''localhost''")
    case True
    from near [OF this] show ?thesis by (elim disjE) (simp_all add: ALLOWLIST_def show_ports)
  next
    case False
    with far show ?thesis by (simp add: ALLOWLIST_def show_ports service_prefix_def)
  qed
  ultimately show ?thesis by blast
qed

theorem egress_confined_witness:
  "egress sample_vsock_proxy ''us-east-2'' ''arn'' 3 sample_image_config
     \<lparr>uri_host = Some ''evil.example'', uri_port = Some 9005\<rparr> = Ok (Host ''kms.us-east-2.amazonaws.com'' 443)"
proof -
  have plain: "plain_region ''us-east-2''" by (simp add: plain_region_def blank_def)
  have s3: "\<not> contains ''evil.example'' ''.s3.''" by (simp add: starts_with_def)
  have "\<exists>remote. egress sample_vsock_proxy ''us-east-2'' ''arn'' 3 sample_image_config
      \<lparr>uri_host = Some ''evil.example'', uri_port = Some 9005\<rparr> = Ok remote"
    using s3 by (subst egress_vsock)
      (simp_all add: parent_ports_eq [OF sample_vsock_proxy_ok plain] sample_image_config_def vsock_port_def starts_with_def)
  then obtain remote where run: "egress sample_vsock_proxy ''us-east-2'' ''arn'' 3 sample_image_config
      \<lparr>uri_host = Some ''evil.example'', uri_port = Some 9005\<rparr> = Ok remote" by blast
  from egress_confined [OF sample_vsock_proxy_ok plain sample_image run refl] s3
  have "remote = Host (''kms.'' @ ''us-east-2'' @ ''.amazonaws.com'') 443"
    by (simp add: service_prefix_def starts_with_def)
  with run show ?thesis by simp
qed

text \<open>
  C20. Requests that enter a node arrive: the sidecar starts with the environment of its manifest, and every
  connection it accepts is forwarded to the vsock CID that the runner launches the enclave with and
  to the port that the server of the image listens on.
\<close>

theorem ingress_arrives:
  assumes "from_env (Ok (image_env args)) = Ok cfg" "run_enclave_sh N runner_env = Watching r"
    and "try_init (case rust_log of Some f \<Rightarrow> f | None \<Rightarrow> ''info'') = Ok ()" "bind = Ok ()"
  shows "\<exists>spawned. proxy_main (Ok sidecar_env) rust_log try_init bind accepts = Ok spawned \<and>
    map fst spawned = List.map_filter (\<lambda>a. case a of Ok peer \<Rightarrow> Some peer | _ \<Rightarrow> None) accepts \<and>
    (\<forall>(_, cid, port) \<in> set spawned. port = ucast (tls_port cfg) \<and>
       launch N ''/enclave/nitro-enc-svc.eif'' ''1024'' ''2'' (show_nat (unat cid)) = Watching r)"
proof -
  let ?peers = "List.map_filter (\<lambda>a. case a of Ok peer \<Rightarrow> Some peer | _ \<Rightarrow> None) accepts"
  have sidecar: "proxy_from_env (Ok sidecar_env) = Ok \<lparr>listen_port = 8443, enclave_cid = 16, enclave_port = 443,
      main_app_addr = ''127.0.0.1:9999'', proxy_log_level = ''info''\<rparr>"
    by (simp add: proxy_from_env_def proxy_deserialize_def proxy_validate_def sidecar_env_def required_def
        with_default_def with_context_def not_blank is_ascii_def is_whitespace_def)
  have "proxy_main (Ok sidecar_env) rust_log try_init bind accepts = Ok (map (\<lambda>peer. (peer, 16, 443)) ?peers)"
    using assms(3,4) unfolding proxy_main_exact sidecar
    by (simp add: not_blank is_ascii_def is_whitespace_def cong: option.case_cong)
  moreover have "show_nat 16 = ''16''" by (simp add: show_nat.simps char_of_def bit_0)
  moreover have "launch N ''/enclave/nitro-enc-svc.eif'' ''1024'' ''2'' ''16'' = Watching r"
    using assms(2) by (simp add: run_enclave_sh_def runner_env_def required_var_def var_or_def)
  ultimately show ?thesis using image_config(2) [OF assms(1)]
    by (intro exI [of _ "map (\<lambda>peer. (peer, 16, 443)) ?peers"]) (auto simp: comp_def)
qed

theorem ingress_arrives_witness:
  "\<exists>spawned. proxy_main (Ok sidecar_env) None (\<lambda>_. Ok ()) (Ok ()) [Ok ''client'', Err [''reset'']] = Ok spawned \<and>
     map fst spawned = [''client'']"
proof -
  obtain r where r: "run_enclave_sh sample_nitro runner_env = Watching r"
    by (simp add: run_enclave_sh_def runner_env_def required_var_def launch_def sample_nitro_def)
  from ingress_arrives [OF sample_image r, of "\<lambda>_. Ok ()" None "Ok ()" "[Ok ''client'', Err [''reset'']]"]
  show ?thesis by (auto simp: map_filter_simps)
qed

section \<open>What the comments say\<close>

text \<open>
  The comments of the manifests and of the runner ask for the enclave's CID to equal the baked
  \<open>VSOCK_PROXY_CID\<close>. That variable is the CID of the parent: with the enclave's own CID in it nothing
  outside the enclave can be reached, unless the parent has that CID.
\<close>

lemma own_cid_is_cut_off:
  assumes "vsock_proxy_cid cfg = 16" "parent \<noteq> 16"
  shows "\<not> is_ok (egress bin r acm parent cfg u)"
proof -
  let ?h = "case uri_host u of Some h \<Rightarrow> h | None \<Rightarrow> ''''"
  have "egress bin r acm parent cfg \<lparr>uri_host = Some ?h, uri_port = uri_port u\<rparr> \<noteq> Ok remote" for remote
    using assms egress_vsock [of ?h bin r acm parent cfg "uri_port u" remote]
      egress_local [of ?h bin r acm parent cfg "uri_port u" remote] by auto
  then show ?thesis using egress_host [of bin r acm parent cfg u] by (simp add: is_ok_iff)
qed

text \<open>
  The region of the image is not one of the build arguments that \<open>buildspec.yml\<close> passes on. On a node of
  another region the requests of the clients go to the services of the node's region.
\<close>

lemma region_of_the_node:
  assumes "vsock_proxy_ok bin" "plain_region r" "from_env (Ok (image_env args)) = Ok cfg"
    and "arg_vsock_proxy_cid args = Some parent"
  shows "egress bin r acm parent cfg \<lparr>uri_host = Some (''kms.'' @ IMAGE_REGION @ ''.amazonaws.com''), uri_port = p\<rparr> =
    Ok (Host (''kms.'' @ r @ ''.amazonaws.com'') 443)"
proof -
  note cfg = image_config [OF assms(3)]
  have "vsock_port (''kms.'' @ IMAGE_REGION @ ''.amazonaws.com'') 8000 = 8001"
    by (simp add: vsock_port_def starts_with_def)
  then show ?thesis
    using cfg(3) assms(4) by (subst egress_vsock) (simp_all add: parent_ports_eq [OF assms(1,2)] cfg(1))
qed

text \<open>The ports of the parent are fixed: with a base of 8003 the requests to KMS go to the metadata service.\<close>

lemma shifted_base_port:
  assumes "vsock_proxy_ok bin" "plain_region r" "vsock_proxy_cid cfg = parent" "vsock_proxy_port cfg = 8003"
  shows "egress bin r acm parent cfg \<lparr>uri_host = Some (''kms.'' @ rest), uri_port = p\<rparr> = Ok (Host ''169.254.169.254'' 80)"
proof -
  have "vsock_port (''kms.'' @ rest) 8003 = 8004" by (simp add: vsock_port_def starts_with_def)
  then show ?thesis
    using assms(3,4) by (subst egress_vsock) (simp_all add: parent_ports_eq [OF assms(1,2)])
qed

end
