(* ===== verification/Schema_Check.thy ===== *)
theory Schema_Check
  imports Handlers
begin

text \<open>
  A check for OpenAPI documents. Two things can keep a marked property of a document from being
  protected: the resolver does not return (a cycle of references), or its path is one that
  \<open>parse_path\<close> of \<open>src/crates/enclave/src/server/handlers.rs\<close> does not read back as \<open>walk_schema\<close> of
  \<open>src/crates/enclave/src/schema/resolver.rs\<close> meant it (dots or brackets in names, arrays of arrays,
  schemas that are arrays). \<open>safe_api\<close> computes whether a document is free of both.
\<close>

section \<open>The check\<close>

text \<open>\<open>in_key\<close> tells that the last step was a property, so that an array step can follow.\<close>

fun safe_schema :: "nat \<Rightarrow> ('n, 'x) openapi_scheme \<Rightarrow> bool \<Rightarrow> 'n schema \<Rightarrow> bool" where
  "safe_schema 0 api in_key s = False"
| "safe_schema (Suc n) api in_key s =
     list_all (\<lambda>(seg, t).
       (case seg of
          Key k \<Rightarrow> plain_name k \<and> safe_schema n api True t
        | ArrayItem \<Rightarrow> in_key \<and> safe_schema n api False t)) (sub_schemas api s)"

definition safe_api :: "nat \<Rightarrow> ('n, 'x) openapi_scheme \<Rightarrow> bool" where
  "safe_api n api =
     (case components api of
        Some schemas \<Rightarrow>
          list_all (\<lambda>(_, r). case r of Item s \<Rightarrow> safe_schema n api False s | Reference _ \<Rightarrow> True) schemas
      | None \<Rightarrow> True)"

section \<open>What it guarantees\<close>

lemma safe_schema_returns: "safe_schema n api b s \<Longrightarrow> \<exists>out'. walk_schema n api s prefix out = Some out'"
proof (induction n arbitrary: b s prefix out)
  case (Suc n)
  have "\<exists>out'. walk_schema n api t path u = Some out'" if "(seg, t) \<in> set (sub_schemas api s)" for seg t path u
    using Suc.prems that by (cases seg) (fastforce simp: list_all_iff dest: Suc.IH)+
  then show ?case
    unfolding walk_schema_sub_schemas by (intro opt_fold_total) (auto split: prod.split)
qed simp

lemma safe_schema_readable:
  "safe_schema n api b s \<Longrightarrow> pii_at api s p \<Longrightarrow>
     (if b then \<forall>k. plain_name k \<longrightarrow> readable (Key k # p) else readable p)"
proof (induction n arbitrary: b s p)
  case (Suc n)
  from Suc.prems(2) obtain seg t q where seg: "(seg, t) \<in> set (sub_schemas api s)" and p: "p = seg # q"
    and q: "q = [] \<or> pii_at api t q"
    by (auto simp: pii_at_unfold [of api s])
  show ?case
  proof (cases seg)
    case (Key k)
    with Suc.prems(1) seg have "plain_name k" "safe_schema n api True t" by (auto simp: list_all_iff)
    with Suc.IH [of True t q] q have "readable (Key k # q)" by auto
    then show ?thesis by (simp add: p Key)
  next
    case ArrayItem
    with Suc.prems(1) seg have "b" "safe_schema n api False t" by (auto simp: list_all_iff)
    with Suc.IH [of False t q] q have "readable q" by auto
    with \<open>b\<close> show ?thesis by (simp add: p ArrayItem)
  qed
qed simp

lemma safe_api_root:
  "safe_api n api \<Longrightarrow> components api = Some schemas \<Longrightarrow> (name, Item s) \<in> set schemas \<Longrightarrow> safe_schema n api False s"
  by (fastforce simp: safe_api_def list_all_iff)

lemma safe_api_returns:
  assumes "safe_api n api" "n \<le> frames"
  shows "\<exists>paths. resolve_pii_paths frames api = Some paths"
proof -
  have "\<exists>paths. resolve_pii_paths n api = Some paths"
  proof (cases "components api")
    case (Some schemas)
    show ?thesis
      unfolding resolve_pii_paths_def Some option.case
      by (rule opt_fold_total)
        (auto intro!: safe_schema_returns safe_api_root [OF assms(1) Some] split: reference_or.split)
  qed (simp add: resolve_pii_paths_def)
  then show ?thesis using assms(2) by (blast intro: resolve_pii_paths_mono)
qed

lemma safe_api_readable: "safe_api n api \<Longrightarrow> p \<in> api_pii api \<Longrightarrow> readable p"
  using safe_schema_readable [of n api False _ p] safe_api_root [of n api] by (fastforce simp: api_pii_def)

section \<open>A check in one pass\<close>

text \<open>
  \<open>safe_api\<close> walks into a component as often as it is referred to. With a rank for every component,
  smaller for what a component refers to, it is enough to look at every component once.
\<close>

definition name_rank :: "(string \<times> nat) list \<Rightarrow> string \<Rightarrow> nat" where
  "name_rank ranks name = (case map_of ranks name of Some r \<Rightarrow> r | None \<Rightarrow> 0)"

text \<open>A reference to a component goes to one of smaller rank; the resolver ignores other references.\<close>

definition ref_descends :: "(string \<times> nat) list \<Rightarrow> nat \<Rightarrow> string \<Rightarrow> bool" where
  "ref_descends ranks r reference =
     (case strip_prefix reference schemas_prefix of
        Some name \<Rightarrow> name_rank ranks name < r
      | None \<Rightarrow> True)"

fun inline_safe ::
  "nat \<Rightarrow> (string \<times> nat) list \<Rightarrow> nat \<Rightarrow> bool \<Rightarrow> 'n schema \<Rightarrow> bool" where
  "inline_safe 0 ranks r in_key s = False"
| "inline_safe (Suc n) ranks r in_key s =
     (case schema_kind s of
        TypeObject properties \<Rightarrow>
          list_all (\<lambda>(k, x). plain_name k \<and>
            (case x of
               Item t \<Rightarrow> inline_safe n ranks r True t
             | Reference reference \<Rightarrow> ref_descends ranks r reference)) properties
      | TypeArray (Some x) \<Rightarrow>
          in_key \<and>
          (case x of
             Item t \<Rightarrow> inline_safe n ranks r False t
           | Reference reference \<Rightarrow> ref_descends ranks r reference)
      | _ \<Rightarrow> True)"

definition ranked_api :: "nat \<Rightarrow> (string \<times> nat) list \<Rightarrow> ('n, 'x) openapi_scheme \<Rightarrow> bool" where
  "ranked_api n ranks api =
     (case components api of
        Some schemas \<Rightarrow>
          list_all (\<lambda>(name, x).
            (case x of
               Item s \<Rightarrow> inline_safe n ranks (name_rank ranks name) False s
             | Reference _ \<Rightarrow> True)) schemas
      | None \<Rightarrow> True)"

lemma safe_schema_mono: "safe_schema n api b s \<Longrightarrow> n \<le> m \<Longrightarrow> (b \<Longrightarrow> c) \<Longrightarrow> safe_schema m api c s"
proof (induction n arbitrary: m b c s)
  case (Suc n)
  then obtain m' where m: "m = Suc m'" "n \<le> m'" by (cases m) auto
  have "safe_schema m' api d t" if "safe_schema n api d t" for d t
    using Suc.IH [OF that m(2)] by blast
  with Suc.prems show ?case
    by (auto simp: m(1) list_all_iff split: path_segment.splits prod.splits)
qed simp

lemma inline_safe_sound:
  assumes "\<And>reference t. ref_descends ranks r reference \<Longrightarrow> resolve_ref api reference = Some t \<Longrightarrow>
      safe_schema m api False t"
  shows "inline_safe n ranks r b s \<Longrightarrow> safe_schema (n + m) api b s"
proof (induction n arbitrary: b s)
  case (Suc n)
  have item: "safe_schema (n + m) api c t"
    if "resolve_item api x = Some t"
      "case x of Item t \<Rightarrow> inline_safe n ranks r c t | Reference y \<Rightarrow> ref_descends ranks r y" for x t c
    using that Suc.IH safe_schema_mono [OF assms, of _ t "n + m" c]
    by (cases x) (auto simp: resolve_item_def)
  show ?case
  proof (cases "schema_kind s")
    case (TypeObject properties)
    with Suc.prems have "plain_name k \<and>
        (case x of Item t \<Rightarrow> inline_safe n ranks r True t | Reference y \<Rightarrow> ref_descends ranks r y)"
      if "(k, x) \<in> set properties" for k x
      using that by (auto simp: list_all_iff)
    with item have "plain_name k \<and> safe_schema (n + m) api True t"
      if "(k, x) \<in> set properties" "resolve_item api x = Some t" for k x t
      using that by blast
    then show ?thesis
      using TypeObject by (auto simp: sub_schemas_def list_all_iff map_filter_def)
  next
    case (TypeArray x)
    with Suc.prems show ?thesis
      by (cases x) (auto simp: sub_schemas_def intro: item split: option.split)
  qed (simp add: sub_schemas_def)
qed simp

lemma resolve_ref_Some_iff:
  "resolve_ref api reference = Some t \<longleftrightarrow>
     (\<exists>schemas name. components api = Some schemas \<and> strip_prefix reference schemas_prefix = Some name \<and>
        map_of schemas name = Some (Item t))"
proof -
  have "(case x of Item s \<Rightarrow> Some s | Reference _ \<Rightarrow> None) = Some t \<longleftrightarrow> x = Item t" for x :: "'a schema reference_or"
    by (cases x) auto
  then show ?thesis by (auto simp: resolve_ref_def bind_eq_Some_conv)
qed

lemma ranked_component_safe:
  assumes "ranked_api n ranks api" "components api = Some schemas"
  shows "(name, Item s) \<in> set schemas \<Longrightarrow> safe_schema (n * Suc (name_rank ranks name)) api False s"
proof (induction "name_rank ranks name" arbitrary: name s rule: less_induct)
  case less
  let ?r = "name_rank ranks name"
  have "safe_schema (n * ?r) api False t"
    if "ref_descends ranks ?r reference" "resolve_ref api reference = Some t" for reference t
  proof -
    from that(2) assms(2) obtain target where target: "strip_prefix reference schemas_prefix = Some target"
      "(target, Item t) \<in> set schemas"
      by (auto simp: resolve_ref_Some_iff dest: map_of_SomeD)
    with that have rank: "name_rank ranks target < ?r" by (simp add: ref_descends_def)
    then have "n * Suc (name_rank ranks target) \<le> n * ?r" by (intro mult_le_mono) simp_all
    then show ?thesis using safe_schema_mono [OF less.hyps [OF rank target(2)]] by blast
  qed
  moreover have "inline_safe n ranks ?r False s"
    using assms less.prems by (fastforce simp: ranked_api_def list_all_iff)
  ultimately show ?case using inline_safe_sound [of ranks ?r api "n * ?r" n False s] by simp
qed

lemma ranked_api_safe:
  assumes "ranked_api n ranks api" "\<forall>(name, r) \<in> set ranks. r \<le> highest"
  shows "safe_api (n * Suc highest) api"
proof (cases "components api")
  case (Some schemas)
  have "safe_schema (n * Suc highest) api False s" if "(name, Item s) \<in> set schemas" for name s
  proof -
    have "name_rank ranks name \<le> highest"
      using assms(2) by (auto simp: name_rank_def split: option.split dest: map_of_SomeD)
    then have "n * Suc (name_rank ranks name) \<le> n * Suc highest" by (intro mult_le_mono) simp_all
    then show ?thesis using safe_schema_mono [OF ranked_component_safe [OF assms(1) Some that]] by blast
  qed
  with Some show ?thesis by (auto simp: safe_api_def list_all_iff split: reference_or.split)
qed (simp add: safe_api_def)

end
