(* ===== verification/Crypto_Tests.thy ===== *)
theory Crypto_Tests
  imports Payload
begin

text \<open>
  The unit tests of \<open>src/crates/enclave/src/crypto/cipher.rs\<close> and of the payload traversal in
  \<open>src/crates/enclave/src/server/handlers.rs\<close>, transcribed assertion by assertion: a test is the
  conjunction of its assertions, and an \<open>unwrap\<close> of an error makes it false. They check the model
  against what the authors expect of the code, and hold for every instance of the cryptographic
  primitives that meets \<open>crypto_ok\<close>. Four tests of the cipher speak of its strength, which no
  equation expresses; they are evaluated on the sample instance.
\<close>

unbundle bit_operations_syntax

section \<open>Reading a JSON value\<close>

text \<open>\<open>val[key]\<close> of \<open>serde_json\<close>: \<open>Null\<close> for a missing key. Then \<open>as_str\<close> and \<open>as_array\<close>.\<close>

fun index_json :: "'n json \<Rightarrow> string \<Rightarrow> 'n json" where
  "index_json (JObject m) key = (case map_of m key of Some v \<Rightarrow> v | None \<Rightarrow> JNull)"
| "index_json _ key = JNull"

fun as_str :: "'n json \<Rightarrow> string option" where
  "as_str (JString s) = Some s"
| "as_str _ = None"

fun as_array :: "'n json \<Rightarrow> 'n json list option" where
  "as_array (JArray xs) = Some xs"
| "as_array _ = None"

definition holds_str :: "'n json \<Rightarrow> (string \<Rightarrow> bool) \<Rightarrow> bool" where
  "holds_str v p = (case as_str v of Some s \<Rightarrow> p s | None \<Rightarrow> False)"

definition is_err :: "('a, 'e) result \<Rightarrow> bool" where
  "is_err r = (case r of Err _ \<Rightarrow> True | _ \<Rightarrow> False)"

text \<open>\<open>r.unwrap()\<close> followed by the rest of the test.\<close>

definition unwrapped :: "('a, 'e) result \<Rightarrow> ('a \<Rightarrow> bool) \<Rightarrow> bool" where
  "unwrapped r rest = (case r of Ok x \<Rightarrow> rest x | _ \<Rightarrow> False)"

section \<open>Tests of the cipher\<close>

definition test_dek_a :: "u8 list" where
  "test_dek_a = replicate KEY_LEN 0xAA"

definition test_dek_b :: "u8 list" where
  "test_dek_b = replicate KEY_LEN 0xBB"

definition encrypt_decrypt_round_trip :: "('c, 'x) crypto_scheme \<Rightarrow> bool" where
  "encrypt_decrypt_round_trip P =
     (let dek = test_dek_a; plaintext = as_bytes ''123-45-6789'' in
      unwrapped (encrypt_field P plaintext dek) (\<lambda>encrypted.
      unwrapped (decrypt_field P encrypted dek) (\<lambda>decrypted. decrypted = plaintext)))"

definition deterministic_same_plaintext_same_dek :: "('c, 'x) crypto_scheme \<Rightarrow> bool" where
  "deterministic_same_plaintext_same_dek P =
     (let dek = test_dek_a; plaintext = as_bytes ''4111111111111111'' in
      unwrapped (encrypt_field P plaintext dek) (\<lambda>a.
      unwrapped (encrypt_field P plaintext dek) (\<lambda>b.
        nonce a = nonce b \<and> ciphertext a = ciphertext b)))"

definition deterministic_different_plaintext_differs :: "('c, 'x) crypto_scheme \<Rightarrow> bool" where
  "deterministic_different_plaintext_differs P =
     (let dek = test_dek_a in
      unwrapped (encrypt_field P (as_bytes ''4111111111111111'') dek) (\<lambda>a.
      unwrapped (encrypt_field P (as_bytes ''5500005555555559'') dek) (\<lambda>b.
        nonce a \<noteq> nonce b \<and> ciphertext a \<noteq> ciphertext b)))"

definition deterministic_different_dek_differs :: "('c, 'x) crypto_scheme \<Rightarrow> bool" where
  "deterministic_different_dek_differs P =
     (let plaintext = as_bytes ''Jane Smith'' in
      unwrapped (encrypt_field P plaintext test_dek_a) (\<lambda>a.
      unwrapped (encrypt_field P plaintext test_dek_b) (\<lambda>b.
        nonce a \<noteq> nonce b \<and> ciphertext a \<noteq> ciphertext b)))"

definition wrong_key_fails_decryption :: "('c, 'x) crypto_scheme \<Rightarrow> bool" where
  "wrong_key_fails_decryption P =
     unwrapped (encrypt_field P (as_bytes ''secret'') test_dek_a) (\<lambda>encrypted.
       is_err (decrypt_field P encrypted test_dek_b))"

definition invalid_key_length_rejected :: "('c, 'x) crypto_scheme \<Rightarrow> bool" where
  "invalid_key_length_rejected P =
     (let short_key = replicate 16 0 in is_err (encrypt_field P (as_bytes ''x'') short_key))"

definition string_repr_round_trip :: "('c, 'x) crypto_scheme \<Rightarrow> bool" where
  "string_repr_round_trip P =
     unwrapped (encrypt_field P (as_bytes ''hello'') test_dek_a) (\<lambda>field.
       let s = to_string_repr P field in
       starts_with s ''v1.'' \<and>
       unwrapped (from_str P s) (\<lambda>parsed.
         nonce parsed = nonce field \<and> ciphertext parsed = ciphertext field))"

definition from_str_rejects_bad_prefix :: "('c, 'x) crypto_scheme \<Rightarrow> bool" where
  "from_str_rejects_bad_prefix P = is_err (from_str P ''v2.abc.def'')"

definition from_str_rejects_too_few_parts :: "('c, 'x) crypto_scheme \<Rightarrow> bool" where
  "from_str_rejects_too_few_parts P = is_err (from_str P ''v1.abc'')"

definition from_str_rejects_bad_base64 :: "('c, 'x) crypto_scheme \<Rightarrow> bool" where
  "from_str_rejects_bad_base64 P = is_err (from_str P ''v1.!!!.abc'')"

text \<open>An empty ciphertext would make the index panic.\<close>

definition tampered_ciphertext_fails_auth :: "('c, 'x) crypto_scheme \<Rightarrow> bool" where
  "tampered_ciphertext_fails_auth P =
     (let dek = test_dek_a in
      unwrapped (encrypt_field P (as_bytes ''tamper me'') dek) (\<lambda>field.
        (case ciphertext field of
           [] \<Rightarrow> False
         | b # bs \<Rightarrow> is_err (decrypt_field P (field\<lparr>ciphertext := (b XOR 0xFF) # bs\<rparr>) dek))))"

section \<open>Tests of the payload traversal\<close>

definition parse_path_flat :: bool where
  "parse_path_flat =
     (let segs = parse_path ''ssn'' in segs ! 0 = Key ''ssn'' \<and> length segs = 1)"

definition parse_path_nested :: bool where
  "parse_path_nested = (let segs = parse_path ''user.address.zip'' in length segs = 3)"

definition parse_path_array :: bool where
  "parse_path_array =
     (let segs = parse_path ''orders[].card_number'' in length segs = 3 \<and> segs ! 1 = ArrayItem)"

text \<open>The key that these tests share.\<close>

definition test_dek :: "u8 list" where
  "test_dek = replicate KEY_LEN 0x42"

definition encrypt_flat_field :: "('c, 'x) crypto_scheme \<Rightarrow> bool" where
  "encrypt_flat_field P =
     (let val = JObject [(''ssn'', JString ''123-45-6789''), (''name'', JString ''Alice'')] :: int json in
      unwrapped (encrypt_pii_fields P [''ssn''] test_dek val) (\<lambda>val.
        holds_str (index_json val ''ssn'') (\<lambda>ssn. starts_with ssn ''v1.'') \<and>
        as_str (index_json val ''name'') = Some ''Alice''))"

definition encrypt_nested_field :: "('c, 'x) crypto_scheme \<Rightarrow> bool" where
  "encrypt_nested_field P =
     (let val = JObject [(''user'', JObject [(''address'', JObject [(''zip'', JString ''90210'')])])] :: int json in
      unwrapped (encrypt_pii_fields P [''user.address.zip''] test_dek val) (\<lambda>val.
        holds_str (index_json (index_json (index_json val ''user'') ''address'') ''zip'')
          (\<lambda>zip. starts_with zip ''v1.'')))"

definition encrypt_array_field :: "('c, 'x) crypto_scheme \<Rightarrow> bool" where
  "encrypt_array_field P =
     (let val = JObject [(''orders'', JArray
            [JObject [(''card_number'', JString ''4111111111111111'')],
             JObject [(''card_number'', JString ''5500000000000004'')]])] :: int json in
      unwrapped (encrypt_pii_fields P [''orders[].card_number''] test_dek val) (\<lambda>val.
        (case as_array (index_json val ''orders'') of
           Some orders \<Rightarrow>
             list_all (\<lambda>order. holds_str (index_json order ''card_number'') (\<lambda>cn. starts_with cn ''v1.'')) orders
         | None \<Rightarrow> False)))"

definition missing_field_is_noop :: "('c, 'x) crypto_scheme \<Rightarrow> bool" where
  "missing_field_is_noop P =
     (let val = JObject [(''name'', JString ''Bob'')] :: int json in
      unwrapped (encrypt_pii_fields P [''ssn''] test_dek val) (\<lambda>val.
        as_str (index_json val ''name'') = Some ''Bob''))"

definition decrypt_flat_field_round_trip :: "('c, 'x) crypto_scheme \<Rightarrow> bool" where
  "decrypt_flat_field_round_trip P =
     (let plaintext = ''123-45-6789'' in
      unwrapped (encrypt_field P (as_bytes plaintext) test_dek) (\<lambda>encrypted_field.
        let val = JObject [(''ssn'', JString (to_string_repr P encrypted_field)), (''name'', JString ''Alice'')] :: int json in
        unwrapped (decrypt_pii_fields P [''ssn''] test_dek val) (\<lambda>val.
          as_str (index_json val ''ssn'') = Some plaintext \<and>
          as_str (index_json val ''name'') = Some ''Alice'')))"

definition decrypt_non_encrypted_field_is_noop :: "('c, 'x) crypto_scheme \<Rightarrow> bool" where
  "decrypt_non_encrypted_field_is_noop P =
     (let val = JObject [(''ssn'', JString ''plaintext-already''), (''name'', JString ''Bob'')] :: int json in
      unwrapped (decrypt_pii_fields P [''ssn''] test_dek val) (\<lambda>val.
        as_str (index_json val ''ssn'') = Some ''plaintext-already''))"

definition decrypt_nested_field_round_trip :: "('c, 'x) crypto_scheme \<Rightarrow> bool" where
  "decrypt_nested_field_round_trip P =
     (let plaintext = ''90210'' in
      unwrapped (encrypt_field P (as_bytes plaintext) test_dek) (\<lambda>encrypted_field.
        let val = JObject [(''user'', JObject [(''address'', JObject
              [(''zip'', JString (to_string_repr P encrypted_field))])])] :: int json in
        unwrapped (decrypt_pii_fields P [''user.address.zip''] test_dek val) (\<lambda>val.
          as_str (index_json (index_json (index_json val ''user'') ''address'') ''zip'') = Some plaintext)))"

definition decrypt_array_field_round_trip :: "('c, 'x) crypto_scheme \<Rightarrow> bool" where
  "decrypt_array_field_round_trip P =
     (let cards = [''4111111111111111'', ''5500000000000004''] in
      unwrapped (try_map (\<lambda>c. encrypt_field P (as_bytes c) test_dek) cards) (\<lambda>fields.
        let encrypted = map (to_string_repr P) fields;
            val = JObject [(''orders'', JArray
              [JObject [(''card_number'', JString (encrypted ! 0))],
               JObject [(''card_number'', JString (encrypted ! 1))]])] :: int json in
        unwrapped (decrypt_pii_fields P [''orders[].card_number''] test_dek val) (\<lambda>val.
          (case as_array (index_json val ''orders'') of
             Some orders \<Rightarrow> map (\<lambda>order. as_str (index_json order ''card_number'')) orders = map Some cards
           | None \<Rightarrow> False))))"

definition encrypt_then_decrypt_idempotent :: "('c, 'x) crypto_scheme \<Rightarrow> bool" where
  "encrypt_then_decrypt_idempotent P =
     (let original = JObject [(''ssn'', JString ''123-45-6789''), (''name'', JString ''Alice'')] :: int json in
      unwrapped (encrypt_pii_fields P [''ssn''] test_dek original) (\<lambda>val.
      unwrapped (decrypt_pii_fields P [''ssn''] test_dek val) (\<lambda>val. val = original)))"

section \<open>All tests hold\<close>

definition cipher_tests :: "('c, 'x) crypto_scheme \<Rightarrow> bool" where
  "cipher_tests P \<longleftrightarrow>
     encrypt_decrypt_round_trip P \<and> deterministic_same_plaintext_same_dek P \<and>
     invalid_key_length_rejected P \<and> string_repr_round_trip P \<and> from_str_rejects_bad_prefix P \<and>
     from_str_rejects_too_few_parts P \<and> from_str_rejects_bad_base64 P"

definition payload_tests :: "('c, 'x) crypto_scheme \<Rightarrow> bool" where
  "payload_tests P \<longleftrightarrow>
     parse_path_flat \<and> parse_path_nested \<and> parse_path_array \<and> encrypt_flat_field P \<and>
     encrypt_nested_field P \<and> encrypt_array_field P \<and> missing_field_is_noop P \<and>
     decrypt_flat_field_round_trip P \<and> decrypt_non_encrypted_field_is_noop P \<and>
     decrypt_nested_field_round_trip P \<and> decrypt_array_field_round_trip P \<and>
     encrypt_then_decrypt_idempotent P"

lemma unwrapped_Ok [simp]: "unwrapped (Ok x) rest = rest x"
  by (simp add: unwrapped_def)

lemma unwrappedI: "r = Ok x \<Longrightarrow> rest x \<Longrightarrow> unwrapped r rest"
  by simp

lemma test_key_lengths [simp]:
  "length test_dek_a = KEY_LEN" "length test_dek_b = KEY_LEN" "length test_dek = KEY_LEN"
  by (simp_all add: test_dek_a_def test_dek_b_def test_dek_def)

lemma test_encrypts:
  assumes "crypto_ok P" "length dek = KEY_LEN" "length s \<le> 100"
  obtains f where "encrypt_field P (as_bytes s) dek = Ok f" "decrypt_field P f dek = Ok (as_bytes s)"
    "from_str P (to_string_repr P f) = Ok f"
proof -
  have "length (as_bytes s) \<le> 2 ^ 36" using assms(3) by (simp add: as_bytes_def)
  with assms obtain f where f: "encrypt_field P (as_bytes s) dek = Ok f" "field_ok f"
    using encrypt_field_Ok by blast
  have P: "aead_ok P" "b64_ok P" using assms(1) by (simp_all add: crypto_ok_def)
  show thesis
    using that [OF f(1)] decrypt_encrypt_field [OF P(1) f(1)] from_str_canonical [OF P(2)] f(2) by simp
qed

lemma cipher_tests_hold:
  assumes "crypto_ok P"
  shows "cipher_tests P"
proof -
  obtain f where f: "encrypt_field P (as_bytes ''123-45-6789'') test_dek_a = Ok f"
    "decrypt_field P f test_dek_a = Ok (as_bytes ''123-45-6789'')"
    using test_encrypts [OF assms, of test_dek_a "''123-45-6789''"] by auto
  obtain g where g: "encrypt_field P (as_bytes ''4111111111111111'') test_dek_a = Ok g"
    using test_encrypts [OF assms, of test_dek_a "''4111111111111111''"] by auto
  obtain h where h: "encrypt_field P (as_bytes ''hello'') test_dek_a = Ok h"
    "from_str P (to_string_repr P h) = Ok h"
    using test_encrypts [OF assms, of test_dek_a "''hello''"] by auto
  have parts: "splitn 3 CHR ''.'' ''v2.abc.def'' = [''v2'', ''abc'', ''def'']"
    "splitn 3 CHR ''.'' ''v1.abc'' = [''v1'', ''abc'']" "splitn 3 CHR ''.'' ''v1.!!!.abc'' = [''v1'', ''!!!'', ''abc'']"
    by code_simp+
  have "b64_decode P ''!!!'' = None"
  proof (rule ccontr)
    assume "b64_decode P ''!!!'' \<noteq> None"
    then obtain bs where "b64_decode P ''!!!'' = Some bs" by blast
    with assms have "set ''!!!'' \<subseteq> b64_alphabet"
      by (metis b64_ok_def b64_ok_encode crypto_ok_def)
    then show False by (simp add: b64_alphabet_def)
  qed
  then show ?thesis
    using f g h
    by (simp add: cipher_tests_def encrypt_decrypt_round_trip_def deterministic_same_plaintext_same_dek_def
        invalid_key_length_rejected_def string_repr_round_trip_def from_str_rejects_bad_prefix_def
        from_str_rejects_too_few_parts_def from_str_rejects_bad_base64_def Let_def to_string_repr_prefix
        bad_key_length KEY_LEN_def is_err_def from_str_def parts VERSION_PREFIX_def)
qed

lemma test_paths:
  "parse_path ''ssn'' = [Key ''ssn'']"
  "parse_path ''user.address.zip'' = [Key ''user'', Key ''address'', Key ''zip'']"
  "parse_path ''orders[].card_number'' = [Key ''orders'', ArrayItem, Key ''card_number'']"
  by code_simp+

text \<open>A field encrypted under the key of the tests, as the walks see it.\<close>

definition test_token :: "('c, 'x) crypto_scheme \<Rightarrow> string \<Rightarrow> encrypted_field" where
  "test_token P s = (case encrypt_field P (as_bytes s) test_dek of Ok f \<Rightarrow> f | _ \<Rightarrow> \<lparr>nonce = [], ciphertext = []\<rparr>)"

lemma test_token:
  assumes "crypto_ok P" "length s \<le> 100"
  shows "encrypt_field P (as_bytes s) test_dek = Ok (test_token P s)"
    and "encrypt_leaf P test_dek s = Ok (to_string_repr P (test_token P s))"
    and "valid_str s \<Longrightarrow> decrypt_leaf P test_dek (to_string_repr P (test_token P s)) = Ok s"
proof -
  obtain f where "encrypt_field P (as_bytes s) test_dek = Ok f"
    using test_encrypts [OF assms(1), of test_dek s] assms(2) by auto
  then show e: "encrypt_field P (as_bytes s) test_dek = Ok (test_token P s)"
    by (simp add: test_token_def)
  then show leaf: "encrypt_leaf P test_dek s = Ok (to_string_repr P (test_token P s))"
    by (simp add: encrypt_leaf_def)
  show "valid_str s \<Longrightarrow> decrypt_leaf P test_dek (to_string_repr P (test_token P s)) = Ok s"
    using decrypt_encrypt_leaf [OF assms(1) _ leaf] by simp
qed

lemma test_strings_valid:
  "valid_str ''123-45-6789''" "valid_str ''90210''" "valid_str ''4111111111111111''" "valid_str ''5500000000000004''"
  by code_simp+

lemmas payload_test_defs =
  encrypt_pii_fields_def decrypt_pii_fields_def test_paths Let_def holds_str_def to_string_repr_prefix

lemma parse_tests_hold: "parse_path_flat" "parse_path_nested" "parse_path_array"
  by (simp_all add: parse_path_flat_def parse_path_nested_def parse_path_array_def test_paths Let_def)

lemma encrypt_tests_hold:
  assumes "crypto_ok P"
  shows "encrypt_flat_field P" "encrypt_nested_field P" "encrypt_array_field P" "missing_field_is_noop P"
  by (simp_all add: payload_test_defs test_token(2) [OF assms] encrypt_flat_field_def encrypt_nested_field_def
      encrypt_array_field_def missing_field_is_noop_def)

lemma decrypt_tests_hold:
  assumes "crypto_ok P"
  shows "decrypt_flat_field_round_trip P" "decrypt_non_encrypted_field_is_noop P"
    "decrypt_nested_field_round_trip P" "decrypt_array_field_round_trip P"
    "encrypt_then_decrypt_idempotent P"
  by (simp_all add: payload_test_defs test_token [OF assms] test_strings_valid decrypt_flat_field_round_trip_def
      decrypt_nested_field_round_trip_def decrypt_array_field_round_trip_def encrypt_then_decrypt_idempotent_def
      decrypt_non_encrypted_field_is_noop_def decrypt_leaf_def [of P _ "''plaintext-already''"] starts_with_def)

lemma payload_tests_hold: "crypto_ok P \<Longrightarrow> payload_tests P"
  by (simp add: payload_tests_def parse_tests_hold encrypt_tests_hold decrypt_tests_hold)

text \<open>The tests of the cipher's strength, on the sample instance.\<close>

lemma strength_tests_hold:
  "deterministic_different_plaintext_differs sample_crypto" "deterministic_different_dek_differs sample_crypto"
  "wrong_key_fails_decryption sample_crypto" "tampered_ciphertext_fails_auth sample_crypto"
  by code_simp+

end
