(* ===== verification/Schema_Tests.thy ===== *)
theory Schema_Tests
  imports Schema_Cache Crypto_Tests
begin

text \<open>
  The unit tests of \<open>src/crates/enclave/src/schema\<close>: the resolver, the cache and the naming of schemas.
  The YAML parser is third-party, so the documents of the tests are written down as the parsed
  values; \<open>frames\<close> is the stack that the resolver has.
\<close>

section \<open>Documents\<close>

definition plain_schema :: "int schema" where
  "plain_schema = Schema [] OtherKind"

definition pii_string :: "int schema" where
  "pii_string = Schema [(''x-pii'', JBool True)] OtherKind"

definition object_schema :: "(string \<times> int schema reference_or) list \<Rightarrow> int schema" where
  "object_schema properties = Schema [] (TypeObject properties)"

definition array_schema :: "int schema reference_or \<Rightarrow> int schema" where
  "array_schema items = Schema [] (TypeArray (Some items))"

text \<open>\<open>parse_api\<close> on a document with these components.\<close>

definition api_with :: "(string \<times> int schema) list \<Rightarrow> int openapi" where
  "api_with schemas = \<lparr>components = Some (map (\<lambda>(name, s). (name, Item s)) schemas)\<rparr>"

definition resolved :: "nat \<Rightarrow> int openapi \<Rightarrow> (string set \<Rightarrow> bool) \<Rightarrow> bool" where
  "resolved frames api assertions =
     (case resolve_pii_paths frames api of Some paths \<Rightarrow> assertions paths | None \<Rightarrow> False)"

section \<open>Tests of the resolver\<close>

definition flat_pii_field_detected :: "nat \<Rightarrow> bool" where
  "flat_pii_field_detected frames =
     resolved frames (api_with [(''Person'', object_schema
         [(''name'', Item plain_schema), (''ssn'', Item pii_string)])])
       (\<lambda>paths. ''ssn'' \<in> paths \<and> ''name'' \<notin> paths)"

definition nested_pii_field_detected :: "nat \<Rightarrow> bool" where
  "nested_pii_field_detected frames =
     resolved frames (api_with [(''User'', object_schema
         [(''address'', Item (object_schema [(''zip'', Item pii_string), (''city'', Item plain_schema)]))])])
       (\<lambda>paths. ''address.zip'' \<in> paths \<and> ''address.city'' \<notin> paths)"

definition no_components_returns_empty :: "nat \<Rightarrow> bool" where
  "no_components_returns_empty frames = resolved frames \<lparr>components = None\<rparr> (\<lambda>paths. paths = {})"

definition ref_property_pii_paths_resolved :: "nat \<Rightarrow> bool" where
  "ref_property_pii_paths_resolved frames =
     resolved frames (api_with
         [(''Address'', object_schema [(''street'', Item pii_string), (''country'', Item plain_schema)]),
          (''Payment'', object_schema [(''amount'', Item plain_schema),
             (''creditorAddress'', Reference ''#/components/schemas/Address'')])])
       (\<lambda>paths. ''creditorAddress.street'' \<in> paths \<and> ''creditorAddress.country'' \<notin> paths \<and>
          ''amount'' \<notin> paths)"

definition array_of_pii_strings_emits_array_path :: "nat \<Rightarrow> bool" where
  "array_of_pii_strings_emits_array_path frames =
     resolved frames (api_with [(''Addr'', object_schema
         [(''AddressLine'', Item (array_schema (Item pii_string))), (''Country'', Item plain_schema)])])
       (\<lambda>paths. ''AddressLine[]'' \<in> paths \<and> ''Country'' \<notin> paths \<and> ''AddressLine'' \<notin> paths)"

definition array_of_ref_objects_pii_resolved :: "nat \<Rightarrow> bool" where
  "array_of_ref_objects_pii_resolved frames =
     resolved frames (api_with
         [(''Account'', object_schema [(''Identification'', Item pii_string), (''Currency'', Item plain_schema)]),
          (''Payment'', object_schema [(''accounts'',
             Item (array_schema (Reference ''#/components/schemas/Account'')))])])
       (\<lambda>paths. ''accounts[].Identification'' \<in> paths \<and> ''accounts[].Currency'' \<notin> paths)"

definition double_nested_array_paths :: "nat \<Rightarrow> bool" where
  "double_nested_array_paths frames =
     resolved frames (api_with
         [(''DocRef'', object_schema [(''Number'', Item pii_string)]),
          (''Remittance'', object_schema [(''Structured'', Item (array_schema (Item (object_schema
             [(''ReferredDocumentInformation'',
                Item (array_schema (Reference ''#/components/schemas/DocRef'')))]))))])])
       (\<lambda>paths. ''Structured[].ReferredDocumentInformation[].Number'' \<in> paths)"

section \<open>Tests of the cache\<close>

definition make_empty_api :: "int openapi" where
  "make_empty_api = \<lparr>components = None\<rparr>"

definition initially_empty :: bool where
  "initially_empty =
     (let cache = schema_cache_new :: int schema_cache in cache_is_empty cache \<and> cache_len cache = 0)"

definition unknown_schema_returns_error :: bool where
  "unknown_schema_returns_error =
     (let cache = schema_cache_new :: int schema_cache in is_err (cache_get ''nonexistent'' cache))"

definition replace_all_and_get :: "nat \<Rightarrow> bool" where
  "replace_all_and_get frames =
     (case replace_all frames [(''payments-v1'', make_empty_api)] schema_cache_new of
        Some cache \<Rightarrow> cache_len cache = 1 \<and> is_ok (cache_get ''payments-v1'' cache) \<and> is_err (cache_get ''other'' cache)
      | None \<Rightarrow> False)"

definition replace_all_is_atomic :: "nat \<Rightarrow> bool" where
  "replace_all_is_atomic frames =
     (case Option.bind (replace_all frames [(''schema-a'', make_empty_api)] schema_cache_new)
             (replace_all frames [(''schema-b'', make_empty_api)]) of
        Some cache \<Rightarrow> is_err (cache_get ''schema-a'' cache) \<and> is_ok (cache_get ''schema-b'' cache)
      | None \<Rightarrow> False)"

section \<open>Tests of the naming\<close>

definition schema_name_strips_prefix_and_extension :: bool where
  "schema_name_strips_prefix_and_extension \<longleftrightarrow>
     schema_name_from_key ''schemas/payments-v1.yaml'' ''schemas/'' = ''payments-v1'' \<and>
     schema_name_from_key ''schemas/users.json'' ''schemas/'' = ''users'' \<and>
     schema_name_from_key ''schemas/orders.yml'' ''schemas/'' = ''orders''"

definition schema_name_no_prefix_match :: bool where
  "schema_name_no_prefix_match \<longleftrightarrow>
     schema_name_from_key ''other/file.yaml'' ''schemas/'' = ''other/file''"

definition schema_name_no_extension :: bool where
  "schema_name_no_extension \<longleftrightarrow> schema_name_from_key ''schemas/bare'' ''schemas/'' = ''bare''"

section \<open>All tests hold\<close>

definition schema_tests :: "nat \<Rightarrow> bool" where
  "schema_tests frames \<longleftrightarrow>
     flat_pii_field_detected frames \<and> nested_pii_field_detected frames \<and> no_components_returns_empty frames \<and>
     ref_property_pii_paths_resolved frames \<and> array_of_pii_strings_emits_array_path frames \<and>
     array_of_ref_objects_pii_resolved frames \<and> double_nested_array_paths frames \<and>
     initially_empty \<and> unknown_schema_returns_error \<and> replace_all_and_get frames \<and>
     replace_all_is_atomic frames \<and> schema_name_strips_prefix_and_extension \<and>
     schema_name_no_prefix_match \<and> schema_name_no_extension"

text \<open>Six frames are enough for the deepest of the documents, and more change nothing.\<close>

lemma resolver_tests_hold:
  "flat_pii_field_detected 6" "nested_pii_field_detected 6" "no_components_returns_empty 6"
  "ref_property_pii_paths_resolved 6" "array_of_pii_strings_emits_array_path 6"
  "array_of_ref_objects_pii_resolved 6" "double_nested_array_paths 6"
  by code_simp+

lemma cache_tests_hold:
  "initially_empty" "unknown_schema_returns_error" "replace_all_and_get 6" "replace_all_is_atomic 6"
  by code_simp+

lemma naming_tests_hold:
  "schema_name_strips_prefix_and_extension" "schema_name_no_prefix_match" "schema_name_no_extension"
  by code_simp+

lemma resolved_mono: "resolved n api assertions \<Longrightarrow> n \<le> m \<Longrightarrow> resolved m api assertions"
  by (auto simp: resolved_def split: option.splits dest: resolve_pii_paths_mono)

lemma replace_all_empty_api:
  "replace_all frames [(name, make_empty_api)] cache = Some [(name, \<lparr>cached_api = make_empty_api, pii_paths = {}\<rparr>)]"
  by (simp add: replace_all_def make_empty_api_def resolve_pii_paths_def)

lemma schema_tests_hold: "6 \<le> frames \<Longrightarrow> schema_tests frames"
  using resolver_tests_hold cache_tests_hold naming_tests_hold
  unfolding schema_tests_def flat_pii_field_detected_def nested_pii_field_detected_def
    no_components_returns_empty_def ref_property_pii_paths_resolved_def
    array_of_pii_strings_emits_array_path_def array_of_ref_objects_pii_resolved_def
    double_nested_array_paths_def replace_all_and_get_def replace_all_is_atomic_def
  by (auto simp: replace_all_empty_api intro: resolved_mono)

end
