(* ===== verification/Iso_20022.thy ===== *)
theory Iso_20022
  imports Schema_Check Schema_Tests
begin

text \<open>
  The document that the repository ships, \<open>src/config/iso-20022.yaml\<close>: the component schemas as the
  parser presents them to the resolver, that is the properties, the items, the references and the
  \<open>x-\<close> extensions, in the order of the file. Descriptions, formats, enumerations, bounds and
  required lists are not part of what the resolver sees.
\<close>

section \<open>The document\<close>

definition unmarked :: "int schema" where
  "unmarked = Schema [] OtherKind"

definition pii :: "string \<Rightarrow> string \<Rightarrow> int schema" where
  "pii category algo =
     Schema [(''x-pii'', JBool True), (''x-pii-category'', JString category),
       (''x-pii-encrypt-algo'', JString algo)] OtherKind"

definition pii_noted :: "string \<Rightarrow> string \<Rightarrow> string \<Rightarrow> int schema" where
  "pii_noted category algo notes =
     Schema [(''x-pii'', JBool True), (''x-pii-category'', JString category),
       (''x-pii-encrypt-algo'', JString algo), (''x-pii-notes'', JString notes)] OtherKind"

definition object_of :: "(string \<times> int schema reference_or) list \<Rightarrow> int schema" where
  "object_of properties = Schema [] (TypeObject properties)"

definition array_of :: "int schema reference_or \<Rightarrow> int schema" where
  "array_of items = Schema [] (TypeArray (Some items))"

definition ref :: "string \<Rightarrow> int schema reference_or" where
  "ref name = Reference (''#/components/schemas/'' @ name)"

definition OBBranchAndFinancialInstitutionIdentification6 :: "int schema" where
  "OBBranchAndFinancialInstitutionIdentification6 =
    object_of
      [(''SchemeName'', Item unmarked),
       (''Identification'', Item (pii ''FINANCIAL'' ''FPE-FF3-1'')),
       (''Name'', Item (pii ''DIRECT_IDENTIFIER'' ''AES-256-GCM'')),
       (''LEI'', Item (pii ''DIRECT_IDENTIFIER'' ''FPE-FF3-1'')),
       (''PostalAddress'', ref ''OBPostalAddress6'')]"

definition OBCashAccount3 :: "int schema" where
  "OBCashAccount3 =
    object_of
      [(''SchemeName'', Item unmarked),
       (''Identification'', Item (pii_noted ''FINANCIAL'' ''FPE-FF3-1''
         ''IBAN / SortCodeAccountNumber. Consider tokenization for storage; FPE for transit.'')),
       (''Name'', Item (pii ''DIRECT_IDENTIFIER'' ''AES-256-GCM'')),
       (''SecondaryIdentification'', Item (pii ''FINANCIAL'' ''AES-256-GCM''))]"

definition OBPartyIdentification43 :: "int schema" where
  "OBPartyIdentification43 =
    object_of
      [(''Name'', Item (pii_noted ''DIRECT_IDENTIFIER'' ''AES-256-GCM''
         ''Natural person full name. Encrypt before storage. Mask in logs.'')),
       (''PostalAddress'', ref ''OBPostalAddress6''),
       (''Identification'', ref ''OBPartyPrivateIdentification''),
       (''ContactDetails'', ref ''OBPartyContactDetails'')]"

definition OBPostalAddress6 :: "int schema" where
  "OBPostalAddress6 =
    object_of
      [(''AddressType'', Item unmarked),
       (''Department'', Item (pii ''CONTACT'' ''AES-256-GCM'')),
       (''SubDepartment'', Item (pii ''CONTACT'' ''AES-256-GCM'')),
       (''StreetName'', Item (pii ''CONTACT'' ''AES-256-GCM'')),
       (''BuildingNumber'', Item (pii ''CONTACT'' ''AES-256-GCM'')),
       (''BuildingName'', Item (pii ''CONTACT'' ''AES-256-GCM'')),
       (''Floor'', Item (pii ''CONTACT'' ''AES-256-GCM'')),
       (''PostBox'', Item (pii ''CONTACT'' ''AES-256-GCM'')),
       (''Room'', Item (pii ''CONTACT'' ''AES-256-GCM'')),
       (''PostCode'', Item (pii ''QUASI_IDENTIFIER'' ''AES-256-GCM'')),
       (''TownName'', Item (pii ''CONTACT'' ''AES-256-GCM'')),
       (''TownLocationName'', Item (pii ''CONTACT'' ''AES-256-GCM'')),
       (''DistrictName'', Item (pii ''CONTACT'' ''AES-256-GCM'')),
       (''CountrySubDivision'', Item (pii ''CONTACT'' ''AES-256-GCM'')),
       (''Country'', Item unmarked),
       (''AddressLine'', Item (array_of (Item (pii ''CONTACT'' ''AES-256-GCM''))))]"

definition OBPartyPrivateIdentification :: "int schema" where
  "OBPartyPrivateIdentification =
    object_of
      [(''DateAndPlaceOfBirth'', Item (object_of
         [(''BirthDate'', Item (pii ''QUASI_IDENTIFIER'' ''AES-256-GCM'')),
          (''ProvinceOfBirth'', Item (pii ''QUASI_IDENTIFIER'' ''AES-256-GCM'')),
          (''CityOfBirth'', Item (pii ''QUASI_IDENTIFIER'' ''AES-256-GCM'')),
          (''CountryOfBirth'', Item (pii ''QUASI_IDENTIFIER'' ''AES-256-GCM''))])),
       (''Other'', Item (object_of
         [(''Identification'', Item (pii_noted ''DIRECT_IDENTIFIER'' ''AES-256-GCM''
            ''Must never appear in logs. Encrypt with separate key from financial data.'')),
          (''SchemeName'', Item (object_of
            [(''Code'', Item unmarked),
             (''Proprietary'', Item unmarked)])),
          (''Issuer'', Item (pii ''DIRECT_IDENTIFIER'' ''AES-256-GCM''))]))]"

definition OBPartyContactDetails :: "int schema" where
  "OBPartyContactDetails =
    object_of
      [(''EmailAddress'', Item (pii_noted ''CONTACT'' ''AES-256-GCM''
         ''Hash for lookup/dedup; encrypt full value for storage.'')),
       (''PhoneNumber'', Item (pii ''CONTACT'' ''AES-256-GCM'')),
       (''MobileNumber'', Item (pii ''CONTACT'' ''AES-256-GCM''))]"

definition OBDomesticPaymentInitiation4 :: "int schema" where
  "OBDomesticPaymentInitiation4 =
    object_of
      [(''InstructionIdentification'', Item unmarked),
       (''EndToEndIdentification'', Item (pii_noted ''FINANCIAL'' ''FPE-FF3-1''
         ''Often contains invoice refs which may be linked to person. Treat as PII.'')),
       (''LocalInstrument'', Item unmarked),
       (''InstructedAmount'', ref ''OBActiveOrHistoricCurrencyAndAmount''),
       (''DebtorAccount'', ref ''OBCashAccount3''),
       (''CreditorAccount'', ref ''OBCashAccount3''),
       (''CreditorPostalAddress'', ref ''OBPostalAddress6''),
       (''RemittanceInformation'', ref ''OBRemittanceInformation2''),
       (''SupplementaryData'', Item (object_of []))]"

definition OBRemittanceInformation2 :: "int schema" where
  "OBRemittanceInformation2 =
    object_of
      [(''Unstructured'', Item (array_of (Item (pii_noted ''FINANCIAL'' ''AES-256-GCM''
         ''Free text often contains names, account refs, or invoice IDs. Always encrypt.'')))),
       (''Structured'', Item (array_of (ref ''OBRemittanceInformationStructured'')))]"

definition OBRemittanceInformationStructured :: "int schema" where
  "OBRemittanceInformationStructured =
    object_of
      [(''ReferredDocumentInformation'', Item (array_of (Item (object_of
         [(''Code'', Item unmarked),
          (''Number'', Item (pii ''FINANCIAL'' ''FPE-FF3-1'')),
          (''RelatedDate'', Item unmarked)])))),
       (''AdditionalRemittanceInformation'', Item (pii ''FINANCIAL'' ''AES-256-GCM'')),
       (''CreditorReferenceInformation'', Item (object_of
         [(''Code'', Item unmarked),
          (''Reference'', Item (pii ''FINANCIAL'' ''FPE-FF3-1''))]))]"

definition OBInternationalPaymentInitiation :: "int schema" where
  "OBInternationalPaymentInitiation =
    object_of
      [(''InstructionIdentification'', Item unmarked),
       (''EndToEndIdentification'', Item (pii ''FINANCIAL'' ''FPE-FF3-1'')),
       (''LocalInstrument'', Item unmarked),
       (''InstructionPriority'', Item unmarked),
       (''Purpose'', Item unmarked),
       (''ExtendedPurpose'', Item (pii_noted ''FINANCIAL'' ''AES-256-GCM''
         ''Extended purpose may describe relationship to payee. Encrypt.'')),
       (''ChargeBearer'', Item unmarked),
       (''CurrencyOfTransfer'', Item unmarked),
       (''ExchangeRateInformation'', ref ''OBExchangeRate1''),
       (''DebtorAccount'', ref ''OBCashAccount3''),
       (''Creditor'', ref ''OBPartyIdentification43''),
       (''CreditorAgent'', ref ''OBBranchAndFinancialInstitutionIdentification6''),
       (''CreditorAccount'', ref ''OBCashAccount3''),
       (''RemittanceInformation'', ref ''OBRemittanceInformation2'')]"

definition OBExchangeRate1 :: "int schema" where
  "OBExchangeRate1 =
    object_of
      [(''UnitCurrency'', Item unmarked),
       (''ExchangeRate'', Item unmarked),
       (''RateType'', Item unmarked),
       (''ContractIdentification'', Item (pii ''FINANCIAL'' ''FPE-FF3-1'')),
       (''ExpirationDateTime'', Item unmarked)]"

definition OBActiveOrHistoricCurrencyAndAmount :: "int schema" where
  "OBActiveOrHistoricCurrencyAndAmount =
    object_of
      [(''Amount'', Item unmarked),
       (''Currency'', Item unmarked)]"

definition OBAccount6 :: "int schema" where
  "OBAccount6 =
    object_of
      [(''AccountId'', Item (pii ''FINANCIAL'' ''TOKENIZE'')),
       (''Status'', Item unmarked),
       (''Currency'', Item unmarked),
       (''AccountType'', Item unmarked),
       (''AccountSubType'', Item unmarked),
       (''Description'', Item (pii ''DIRECT_IDENTIFIER'' ''AES-256-GCM'')),
       (''Nickname'', Item (pii ''DIRECT_IDENTIFIER'' ''AES-256-GCM'')),
       (''OpeningDate'', Item unmarked),
       (''MaturityDate'', Item unmarked),
       (''SwitchStatus'', Item unmarked),
       (''Account'', Item (array_of (ref ''OBCashAccount3''))),
       (''Servicer'', ref ''OBBranchAndFinancialInstitutionIdentification6'')]"

definition OBTransaction6 :: "int schema" where
  "OBTransaction6 =
    object_of
      [(''AccountId'', Item (pii ''FINANCIAL'' ''TOKENIZE'')),
       (''TransactionId'', Item unmarked),
       (''TransactionReference'', Item (pii ''FINANCIAL'' ''FPE-FF3-1'')),
       (''StatementReference'', Item (array_of (Item unmarked))),
       (''CreditDebitIndicator'', Item unmarked),
       (''Status'', Item unmarked),
       (''BookingDateTime'', Item unmarked),
       (''ValueDateTime'', Item unmarked),
       (''TransactionInformation'', Item (pii_noted ''FINANCIAL'' ''AES-256-GCM''
         ''Free text narrative may contain payee names or personal references.'')),
       (''AddressLine'', Item (pii ''CONTACT'' ''AES-256-GCM'')),
       (''Amount'', ref ''OBActiveOrHistoricCurrencyAndAmount''),
       (''ChargeAmount'', ref ''OBActiveOrHistoricCurrencyAndAmount''),
       (''CurrencyExchange'', Item (object_of
         [(''SourceCurrency'', Item unmarked),
          (''TargetCurrency'', Item unmarked),
          (''UnitCurrency'', Item unmarked),
          (''ExchangeRate'', Item unmarked),
          (''ContractIdentification'', Item (pii ''FINANCIAL'' ''FPE-FF3-1'')),
          (''QuotationDate'', Item unmarked)])),
       (''BankTransactionCode'', Item (object_of
         [(''Code'', Item unmarked),
          (''SubCode'', Item unmarked)])),
       (''ProprietaryBankTransactionCode'', Item (object_of
         [(''Code'', Item unmarked),
          (''Issuer'', Item unmarked)])),
       (''Balance'', Item (object_of
         [(''Amount'', ref ''OBActiveOrHistoricCurrencyAndAmount''),
          (''CreditDebitIndicator'', Item unmarked),
          (''Type'', Item unmarked)])),
       (''MerchantDetails'', Item (object_of
         [(''MerchantName'', Item unmarked),
          (''MerchantCategoryCode'', Item unmarked)])),
       (''CreditorAgent'', ref ''OBBranchAndFinancialInstitutionIdentification6''),
       (''CreditorAccount'', ref ''OBCashAccount3''),
       (''DebtorAgent'', ref ''OBBranchAndFinancialInstitutionIdentification6''),
       (''DebtorAccount'', ref ''OBCashAccount3''),
       (''CardInstrument'', Item (object_of
         [(''CardSchemeName'', Item unmarked),
          (''AuthorisationType'', Item unmarked),
          (''Name'', Item (pii ''DIRECT_IDENTIFIER'' ''AES-256-GCM'')),
          (''Identification'', Item (pii_noted ''FINANCIAL'' ''TOKENIZE''
            ''Even masked PAN is PCI-DSS regulated. Never store full PAN.''))])),
       (''SupplementaryData'', Item (object_of []))]"

definition OBWriteDomesticConsent4 :: "int schema" where
  "OBWriteDomesticConsent4 =
    object_of
      [(''Data'', Item (object_of
         [(''ReadRefundAccount'', Item unmarked),
          (''Initiation'', ref ''OBDomesticPaymentInitiation4''),
          (''Authorisation'', Item (object_of
            [(''AuthorisationType'', Item unmarked),
             (''CompletionDateTime'', Item unmarked)])),
          (''SCASupportData'', Item (object_of
            [(''RequestedSCAExemptionType'', Item unmarked),
             (''AppliedAuthenticationApproach'', Item unmarked),
             (''ReferencePaymentOrderId'', Item unmarked)]))])),
       (''Risk'', ref ''OBRisk1'')]"

definition OBWriteDomesticConsentResponse5 :: "int schema" where
  "OBWriteDomesticConsentResponse5 =
    object_of
      [(''Data'', Item (object_of
         [(''ConsentId'', Item (pii ''FINANCIAL'' ''TOKENIZE'')),
          (''CreationDateTime'', Item unmarked),
          (''Status'', Item unmarked),
          (''StatusUpdateDateTime'', Item unmarked),
          (''ReadRefundAccount'', Item unmarked),
          (''CutOffDateTime'', Item unmarked),
          (''ExpectedExecutionDateTime'', Item unmarked),
          (''ExpectedSettlementDateTime'', Item unmarked),
          (''Charges'', Item (array_of (ref ''OBCharge2''))),
          (''Initiation'', ref ''OBDomesticPaymentInitiation4''),
          (''Authorisation'', Item (object_of
            [(''AuthorisationType'', Item unmarked),
             (''CompletionDateTime'', Item unmarked)])),
          (''SCASupportData'', Item (object_of []))])),
       (''Risk'', ref ''OBRisk1''),
       (''Links'', ref ''Links''),
       (''Meta'', ref ''Meta'')]"

definition OBWriteDomestic2 :: "int schema" where
  "OBWriteDomestic2 =
    object_of
      [(''Data'', Item (object_of
         [(''ConsentId'', Item unmarked),
          (''Initiation'', ref ''OBDomesticPaymentInitiation4'')])),
       (''Risk'', ref ''OBRisk1'')]"

definition OBWriteDomesticResponse5 :: "int schema" where
  "OBWriteDomesticResponse5 =
    object_of
      [(''Data'', Item (object_of
         [(''DomesticPaymentId'', Item unmarked),
          (''ConsentId'', Item (pii ''FINANCIAL'' ''TOKENIZE'')),
          (''CreationDateTime'', Item unmarked),
          (''Status'', Item unmarked),
          (''StatusUpdateDateTime'', Item unmarked),
          (''Charges'', Item (array_of (ref ''OBCharge2''))),
          (''Initiation'', ref ''OBDomesticPaymentInitiation4''),
          (''MultiAuthorisation'', Item (object_of
            [(''Status'', Item unmarked),
             (''NumberRequired'', Item unmarked),
             (''NumberReceived'', Item unmarked),
             (''LastUpdateDateTime'', Item unmarked),
             (''ExpirationDateTime'', Item unmarked)])),
          (''Debtor'', ref ''OBCashAccount3'')])),
       (''Risk'', ref ''OBRisk1''),
       (''Links'', ref ''Links''),
       (''Meta'', ref ''Meta'')]"

definition OBWriteInternationalConsent5 :: "int schema" where
  "OBWriteInternationalConsent5 =
    object_of
      [(''Data'', Item (object_of
         [(''ReadRefundAccount'', Item unmarked),
          (''Initiation'', ref ''OBInternationalPaymentInitiation''),
          (''Authorisation'', Item (object_of [])),
          (''SCASupportData'', Item (object_of []))])),
       (''Risk'', ref ''OBRisk1'')]"

definition OBWriteInternationalConsentResponse6 :: "int schema" where
  "OBWriteInternationalConsentResponse6 =
    object_of
      [(''Data'', Item (object_of
         [(''ConsentId'', Item (pii ''FINANCIAL'' ''TOKENIZE'')),
          (''CreationDateTime'', Item unmarked),
          (''Status'', Item unmarked),
          (''Initiation'', ref ''OBInternationalPaymentInitiation''),
          (''ExchangeRateInformation'', ref ''OBExchangeRate1'')])),
       (''Risk'', ref ''OBRisk1''),
       (''Links'', ref ''Links''),
       (''Meta'', ref ''Meta'')]"

definition OBReadAccount6 :: "int schema" where
  "OBReadAccount6 =
    object_of
      [(''Data'', Item (object_of
         [(''Account'', Item (array_of (ref ''OBAccount6'')))])),
       (''Links'', ref ''Links''),
       (''Meta'', ref ''Meta'')]"

definition OBReadTransaction6 :: "int schema" where
  "OBReadTransaction6 =
    object_of
      [(''Data'', Item (object_of
         [(''Transaction'', Item (array_of (ref ''OBTransaction6'')))])),
       (''Links'', ref ''Links''),
       (''Meta'', ref ''Meta'')]"

definition OBRisk1 :: "int schema" where
  "OBRisk1 =
    object_of
      [(''PaymentContextCode'', Item unmarked),
       (''MerchantCategoryCode'', Item unmarked),
       (''MerchantCustomerIdentification'', Item (pii ''DIRECT_IDENTIFIER'' ''TOKENIZE'')),
       (''ContractPresentIndicator'', Item unmarked),
       (''BeneficiaryPrepopulatedIndicator'', Item unmarked),
       (''PaymentPurposeCode'', Item unmarked),
       (''BeneficiaryAccountType'', Item unmarked),
       (''DeliveryAddress'', Item (object_of
         [(''AddressLine'', Item (array_of (Item (pii ''CONTACT'' ''AES-256-GCM'')))),
          (''StreetName'', Item (pii ''CONTACT'' ''AES-256-GCM'')),
          (''BuildingNumber'', Item (pii ''CONTACT'' ''AES-256-GCM'')),
          (''PostCode'', Item (pii ''QUASI_IDENTIFIER'' ''AES-256-GCM'')),
          (''TownName'', Item (pii ''CONTACT'' ''AES-256-GCM'')),
          (''CountrySubDivision'', Item (pii ''CONTACT'' ''AES-256-GCM'')),
          (''Country'', Item unmarked)]))]"

definition OBCharge2 :: "int schema" where
  "OBCharge2 =
    object_of
      [(''ChargeBearer'', Item unmarked),
       (''Type'', Item unmarked),
       (''Amount'', ref ''OBActiveOrHistoricCurrencyAndAmount'')]"

definition Links :: "int schema" where
  "Links =
    object_of
      [(''Self'', Item unmarked),
       (''First'', Item unmarked),
       (''Prev'', Item unmarked),
       (''Next'', Item unmarked),
       (''Last'', Item unmarked)]"

definition Meta :: "int schema" where
  "Meta =
    object_of
      [(''TotalPages'', Item unmarked),
       (''FirstAvailableDateTime'', Item unmarked),
       (''LastAvailableDateTime'', Item unmarked)]"

definition OBErrorResponse1 :: "int schema" where
  "OBErrorResponse1 =
    object_of
      [(''Code'', Item unmarked),
       (''Id'', Item unmarked),
       (''Message'', Item unmarked),
       (''Errors'', Item (array_of (Item (object_of
         [(''ErrorCode'', Item unmarked),
          (''Message'', Item unmarked),
          (''Path'', Item unmarked),
          (''Url'', Item unmarked)]))))]"

definition ISO_20022 :: "int openapi" where
  "ISO_20022 = \<lparr>components = Some
     [(''OBBranchAndFinancialInstitutionIdentification6'', Item OBBranchAndFinancialInstitutionIdentification6),
      (''OBCashAccount3'', Item OBCashAccount3),
      (''OBPartyIdentification43'', Item OBPartyIdentification43),
      (''OBPostalAddress6'', Item OBPostalAddress6),
      (''OBPartyPrivateIdentification'', Item OBPartyPrivateIdentification),
      (''OBPartyContactDetails'', Item OBPartyContactDetails),
      (''OBDomesticPaymentInitiation4'', Item OBDomesticPaymentInitiation4),
      (''OBRemittanceInformation2'', Item OBRemittanceInformation2),
      (''OBRemittanceInformationStructured'', Item OBRemittanceInformationStructured),
      (''OBInternationalPaymentInitiation'', Item OBInternationalPaymentInitiation),
      (''OBExchangeRate1'', Item OBExchangeRate1),
      (''OBActiveOrHistoricCurrencyAndAmount'', Item OBActiveOrHistoricCurrencyAndAmount),
      (''OBAccount6'', Item OBAccount6),
      (''OBTransaction6'', Item OBTransaction6),
      (''OBWriteDomesticConsent4'', Item OBWriteDomesticConsent4),
      (''OBWriteDomesticConsentResponse5'', Item OBWriteDomesticConsentResponse5),
      (''OBWriteDomestic2'', Item OBWriteDomestic2),
      (''OBWriteDomesticResponse5'', Item OBWriteDomesticResponse5),
      (''OBWriteInternationalConsent5'', Item OBWriteInternationalConsent5),
      (''OBWriteInternationalConsentResponse6'', Item OBWriteInternationalConsentResponse6),
      (''OBReadAccount6'', Item OBReadAccount6),
      (''OBReadTransaction6'', Item OBReadTransaction6),
      (''OBRisk1'', Item OBRisk1),
      (''OBCharge2'', Item OBCharge2),
      (''Links'', Item Links),
      (''Meta'', Item Meta),
      (''OBErrorResponse1'', Item OBErrorResponse1)]\<rparr>"

section \<open>Its tests\<close>

definition iso_20022_parses_successfully :: bool where
  "iso_20022_parses_successfully =
     (case components ISO_20022 of Some schemas \<Rightarrow> length schemas > 0 | None \<Rightarrow> False)"

definition iso_20022_flat_pii_fields_detected :: "nat \<Rightarrow> bool" where
  "iso_20022_flat_pii_fields_detected frames =
     resolved frames ISO_20022 (\<lambda>paths.
       list_all (\<lambda>field. field \<in> paths) [''Identification'', ''Name'', ''SecondaryIdentification''])"

definition iso_20022_array_of_pii_strings_detected :: "nat \<Rightarrow> bool" where
  "iso_20022_array_of_pii_strings_detected frames =
     resolved frames ISO_20022 (\<lambda>paths. ''AddressLine[]'' \<in> paths)"

definition iso_20022_ref_pii_fields_resolved :: "nat \<Rightarrow> bool" where
  "iso_20022_ref_pii_fields_resolved frames =
     resolved frames ISO_20022 (\<lambda>paths.
       list_all (\<lambda>field. ''DebtorAccount.'' @ field \<in> paths) [''Identification'', ''Name''])"

section \<open>The document is safe\<close>

text \<open>The components that refer to others, with the length of the longest chain of references.\<close>

definition iso_ranks :: "(string \<times> nat) list" where
  "iso_ranks =
     [(''OBBranchAndFinancialInstitutionIdentification6'', 1), (''OBPartyIdentification43'', 1),
      (''OBDomesticPaymentInitiation4'', 2), (''OBRemittanceInformation2'', 1),
      (''OBInternationalPaymentInitiation'', 2), (''OBAccount6'', 2), (''OBTransaction6'', 2),
      (''OBWriteDomesticConsent4'', 3), (''OBWriteDomesticConsentResponse5'', 3),
      (''OBWriteDomestic2'', 3), (''OBWriteDomesticResponse5'', 3),
      (''OBWriteInternationalConsent5'', 3), (''OBWriteInternationalConsentResponse6'', 3),
      (''OBReadAccount6'', 3), (''OBReadTransaction6'', 3), (''OBCharge2'', 1)]"

lemma iso_ranked: "ranked_api 4 iso_ranks ISO_20022"
  by code_simp

lemma iso_safe: "safe_api 16 ISO_20022"
  using ranked_api_safe [OF iso_ranked, of 3] by (simp add: iso_ranks_def)

lemma iso_resolved: "16 \<le> frames \<Longrightarrow> resolve_pii_paths frames ISO_20022 = Some (render '''' ` api_pii ISO_20022)"
  using safe_api_returns [OF iso_safe, of frames] resolve_pii_paths_exact by blast

text \<open>Paths that the tests ask for.\<close>

lemma iso_component:
  "\<exists>schemas. components ISO_20022 = Some schemas \<and> map_of schemas name = Some (Item s) \<Longrightarrow>
     pii_at ISO_20022 s p \<Longrightarrow> p \<in> api_pii ISO_20022"
  by (auto simp: api_pii_def dest: map_of_SomeD)

lemma cash_account:
  "\<exists>schemas. components ISO_20022 = Some schemas \<and> map_of schemas ''OBCashAccount3'' = Some (Item OBCashAccount3)"
  by (simp add: ISO_20022_def)

lemma cash_account_pii:
  "pii_at ISO_20022 OBCashAccount3 [Key ''Identification'']" "pii_at ISO_20022 OBCashAccount3 [Key ''Name'']"
  "pii_at ISO_20022 OBCashAccount3 [Key ''SecondaryIdentification'']"
  by (auto intro!: pii_at.here simp: sub_schemas_def OBCashAccount3_def object_of_def map_filter_simps
      resolve_item_def is_pii_def pii_def pii_noted_def unmarked_def)

lemma address_pii: "[Key ''AddressLine'', ArrayItem] \<in> api_pii ISO_20022"
proof (rule iso_component)
  show "\<exists>schemas. components ISO_20022 = Some schemas \<and> map_of schemas ''OBPostalAddress6'' = Some (Item OBPostalAddress6)"
    by (simp add: ISO_20022_def)
  let ?lines = "array_of (Item (pii ''CONTACT'' ''AES-256-GCM''))"
  have "pii_at ISO_20022 ?lines [ArrayItem]"
    by (auto intro!: pii_at.here simp: sub_schemas_def array_of_def resolve_item_def is_pii_def pii_def)
  moreover have "(Key ''AddressLine'', ?lines) \<in> set (sub_schemas ISO_20022 OBPostalAddress6)"
    by (simp add: sub_schemas_def OBPostalAddress6_def object_of_def map_filter_simps resolve_item_def)
  ultimately show "pii_at ISO_20022 OBPostalAddress6 [Key ''AddressLine'', ArrayItem]"
    by (rule pii_at.below [rotated])
qed

lemma debtor_pii:
  assumes "pii_at ISO_20022 OBCashAccount3 p"
  shows "Key ''DebtorAccount'' # p \<in> api_pii ISO_20022"
proof (rule iso_component)
  show "\<exists>schemas. components ISO_20022 = Some schemas \<and>
      map_of schemas ''OBDomesticPaymentInitiation4'' = Some (Item OBDomesticPaymentInitiation4)"
    by (simp add: ISO_20022_def)
  have "resolve_ref ISO_20022 (schemas_prefix @ ''OBCashAccount3'') = Some OBCashAccount3"
    using cash_account by (auto simp: resolve_ref_Some_iff strip_prefix_Some_iff)
  then have "(Key ''DebtorAccount'', OBCashAccount3) \<in> set (sub_schemas ISO_20022 OBDomesticPaymentInitiation4)"
    by (simp add: sub_schemas_def OBDomesticPaymentInitiation4_def object_of_def map_filter_def resolve_item_def
        ref_def schemas_prefix_def)
  then show "pii_at ISO_20022 OBDomesticPaymentInitiation4 (Key ''DebtorAccount'' # p)"
    using assms by (rule pii_at.below)
qed

lemma iso_tests_hold:
  "iso_20022_parses_successfully" "16 \<le> frames \<Longrightarrow> iso_20022_flat_pii_fields_detected frames"
  "16 \<le> frames \<Longrightarrow> iso_20022_array_of_pii_strings_detected frames"
  "16 \<le> frames \<Longrightarrow> iso_20022_ref_pii_fields_resolved frames"
proof -
  have flat: "render '''' [Key k] = k" for k by (simp add: property_path_def)
  have debtor: "render '''' [Key ''DebtorAccount'', Key k] = ''DebtorAccount.'' @ k" for k
    by (simp add: property_path_def)
  have lines: "render '''' [Key ''AddressLine'', ArrayItem] = ''AddressLine[]''"
    by (simp add: property_path_def array_path_def)
  show "iso_20022_parses_successfully" by (simp add: iso_20022_parses_successfully_def ISO_20022_def)
  assume "16 \<le> frames"
  note paths = iso_resolved [OF this]
  have "k \<in> render '''' ` api_pii ISO_20022" if "pii_at ISO_20022 OBCashAccount3 [Key k]" for k
    using iso_component [OF cash_account that] flat [of k] by (metis imageI)
  with cash_account_pii show "iso_20022_flat_pii_fields_detected frames"
    by (simp add: iso_20022_flat_pii_fields_detected_def resolved_def paths)
  show "iso_20022_array_of_pii_strings_detected frames"
    using address_pii lines
    by (simp only: iso_20022_array_of_pii_strings_detected_def resolved_def paths option.case) (metis imageI)
  have "''DebtorAccount.'' @ k \<in> render '''' ` api_pii ISO_20022" if "pii_at ISO_20022 OBCashAccount3 [Key k]" for k
    using debtor_pii [OF that] debtor [of k] by (metis imageI)
  from this [OF cash_account_pii(1)] this [OF cash_account_pii(2)]
  show "iso_20022_ref_pii_fields_resolved frames"
    by (simp only: iso_20022_ref_pii_fields_resolved_def resolved_def paths option.case list.pred_inject simp_thms)
qed

section \<open>The other shipped document\<close>

text \<open>\<open>src/schemas/example-payments-v1.yaml\<close>, the example that the documentation uses.\<close>

definition marked :: "int schema" where
  "marked = Schema [(''x-pii'', JBool True)] OtherKind"

definition PAYMENTS_V1 :: "int openapi" where
  "PAYMENTS_V1 = \<lparr>components = Some [(''PaymentRequest'', Item (object_of
     [(''merchant_id'', Item unmarked),
      (''card_number'', Item marked),
      (''card_holder_name'', Item marked),
      (''billing_address'', Item (object_of
         [(''street'', Item marked), (''city'', Item unmarked), (''zip'', Item marked)])),
      (''amount_cents'', Item unmarked)]))]\<rparr>"

lemma payments_ranked: "ranked_api 3 [] PAYMENTS_V1"
  by code_simp

lemma payments_paths:
  "3 \<le> frames \<Longrightarrow> resolve_pii_paths frames PAYMENTS_V1 =
     Some {''card_number'', ''card_holder_name'', ''billing_address.street'', ''billing_address.zip''}"
proof -
  have "resolve_pii_paths 3 PAYMENTS_V1 =
     Some {''card_number'', ''card_holder_name'', ''billing_address.street'', ''billing_address.zip''}"
    by code_simp
  then show "3 \<le> frames \<Longrightarrow> resolve_pii_paths frames PAYMENTS_V1 =
     Some {''card_number'', ''card_holder_name'', ''billing_address.street'', ''billing_address.zip''}"
    by (rule resolve_pii_paths_mono)
qed

text \<open>
  The instructions upload the document from \<open>schemas/payments-v1.yaml\<close>. The file has another name, and
  under the name that it has the service would know it by that one.
\<close>

lemma payments_name:
  "schema_name_from_key ''schemas/example-payments-v1.yaml'' ''schemas/'' = ''example-payments-v1''"
  "schema_name_from_key ''schemas/payments-v1.yaml'' ''schemas/'' = ''payments-v1''"
  using schema_name_round_trip [of "''.yaml''" "''schemas/''" "''example-payments-v1''"]
    schema_name_round_trip [of "''.yaml''" "''schemas/''" "''payments-v1''"] by simp_all

section \<open>Properties\<close>

text \<open>
  C9. A document that passes the one-pass check is fully protected: the resolver returns on any stack
  that is deep enough for the check, and in every \<open>200\<close> answer of \<open>POST /encrypt\<close> every string at any
  path that the document marks is the token of the string the request had there. None of the
  defects of the path notation or of the reference walk concerns such a document.
\<close>

theorem checked_document_is_protected:
  assumes "ranked_api n ranks api" "\<forall>(name, r) \<in> set ranks. r \<le> highest" "n * Suc highest \<le> frames"
    and "crypto_ok P" "iter_ok iter" "app_ok s" "wf_json (encrypt_request_payload req)"
    and "schema_and_dek http s headers = Ok (cached, dek)" "cached_api cached = api"
    and "encrypt P http iter t s headers req = (log, Some (200, EncryptBody resp))"
    and "p \<in> api_pii api" "(p, x) \<in> set (leaves (encrypt_response_payload resp))"
  shows "(\<exists>paths. resolve_pii_paths frames api = Some paths) \<and>
    (\<exists>y. (p, y) \<in> set (leaves (encrypt_request_payload req)) \<and>
       encrypt_leaf P dek y = Ok x \<and> decrypt_leaf P dek x = Ok y)"
proof -
  have safe: "safe_api (n * Suc highest) api" by (rule ranked_api_safe [OF assms(1,2)])
  have "p \<in> api_pii (cached_api cached)" using assms(9,11) by simp
  from encrypt_200_leaf [OF assms(4-8,10) this safe_api_readable [OF safe assms(11)] assms(12)]
    safe_api_returns [OF safe assms(3)]
  show ?thesis by blast
qed

definition payer :: "int json" where
  "payer = JObject [(''DebtorAccount'', JObject [(''Name'', JString ''Jane'')])]"

lemma payer_wf: "wf_json payer"
  by (simp add: payer_def hmap_ok_def) code_simp

theorem checked_document_is_protected_witness:
  "\<exists>log resp x. encrypt sample_crypto sample_http sorted_list_of_set (0 :: nat)
       (state_for ISO_20022 (render '''' ` api_pii ISO_20022)) sample_headers \<lparr>encrypt_request_payload = payer\<rparr> =
       (log, Some (200, EncryptBody resp)) \<and>
     ([Key ''DebtorAccount'', Key ''Name''], x) \<in> set (leaves (encrypt_response_payload resp)) \<and>
     decrypt_leaf sample_crypto sample_dek x = Ok ''Jane''"
proof -
  let ?paths = "render '''' ` api_pii ISO_20022"
  let ?p = "[Key ''DebtorAccount'', Key ''Name'']"
  let ?resp = "\<lparr>encrypt_response_payload = at_paths ?paths (encrypt_leaf sample_crypto sample_dek) payer\<rparr>"
  note paths = iso_resolved [OF order.refl]
  have run: "encrypt sample_crypto sample_http sorted_list_of_set (0 :: nat) (state_for ISO_20022 ?paths)
      sample_headers \<lparr>encrypt_request_payload = payer\<rparr> =
    ([Add (encrypt_requests metrics_new) 1 success_attrs, Record (encrypt_latency_ms metrics_new) 0 success_attrs],
     Some (200, EncryptBody ?resp))"
    by (rule sample_encrypts [OF resolve_pii_paths_finite [OF paths] wf_json_keys_ok [OF payer_wf]])
      (simp add: payer_def)
  obtain x where x: "(?p, x) \<in> set (leaves (encrypt_response_payload ?resp))"
    unfolding encrypt_response.select_convs leaves_at_paths by (simp add: payer_def)
  have ranks: "\<forall>(name, r) \<in> set iso_ranks. r \<le> 3" by (simp add: iso_ranks_def)
  have frames: "4 * Suc 3 \<le> (16 :: nat)" by simp
  have "\<exists>y. (?p, y) \<in> set (leaves payer) \<and> decrypt_leaf sample_crypto sample_dek x = Ok y"
    using checked_document_is_protected [OF iso_ranked ranks frames sample_crypto_ok sorted_iter_ok
        state_for_ok [OF paths] _ state_for_lookup _ run debtor_pii [OF cash_account_pii(2)] x] payer_wf
    by auto
  then have "decrypt_leaf sample_crypto sample_dek x = Ok ''Jane''" by (simp add: payer_def)
  with run x show ?thesis by blast
qed

text \<open>
  C27. The document that the repository ships is such a document: sixteen stack frames are enough for
  the resolver, the paths it finds are exactly the marked ones, each of them is read back by the
  payload traversal as it was meant, and the assertions of the repository's tests on it hold.
\<close>

theorem iso_20022_is_protected:
  assumes "16 \<le> frames"
  shows "resolve_pii_paths frames ISO_20022 = Some (render '''' ` api_pii ISO_20022) \<and>
    (\<forall>p \<in> api_pii ISO_20022. parse_path (render '''' p) = p) \<and>
    iso_20022_parses_successfully \<and> iso_20022_flat_pii_fields_detected frames \<and>
    iso_20022_array_of_pii_strings_detected frames \<and> iso_20022_ref_pii_fields_resolved frames"
  using iso_resolved [OF assms] iso_tests_hold iso_tests_hold(2-4) [OF assms]
    parse_path_render [OF safe_api_readable [OF iso_safe]] api_pii_not_Nil
  by blast

theorem iso_20022_is_protected_witness:
  "iso_20022_ref_pii_fields_resolved 16"
  using iso_20022_is_protected [of 16] by simp

end
