(* ===== verification/Service_Tests.thy ===== *)
theory Service_Tests
  imports Service Crypto_Tests
begin

text \<open>
  The remaining unit tests: \<open>src/crates/common/src\<close>, \<open>dek/store.rs\<close>, \<open>config.rs\<close>,
  \<open>aws/vsock_connector.rs\<close>, \<open>server/router.rs\<close>, \<open>server/tls.rs\<close> and the health test of
  \<open>server/handlers.rs\<close> under \<open>src/crates/enclave/src\<close>, and \<open>src/crates/vsock-proxy/src/config.rs\<close>.
\<close>

section \<open>Common types\<close>

definition http_status_codes :: bool where
  "http_status_codes \<longleftrightarrow>
     http_status (BadRequest ''x'') = 400 \<and> http_status (EncryptionFailure ''x'') = 500 \<and>
     http_status (Unavailable ''x'') = 503 \<and> http_status (Internal ''x'') = 500"

definition display_includes_message :: bool where
  "display_includes_message =
     (let e = BadRequest ''missing schema header'' in
      contains (show_service_error e) ''missing schema header'')"

definition test_error_response_new :: bool where
  "test_error_response_new =
     (let e = error_response_new ''bad_request'' ''missing schema header'' in
      err_code e = ''bad_request'' \<and> contains (err_message e) ''missing schema header'')"

section \<open>Key store\<close>

definition initially_not_ready :: bool where
  "initially_not_ready \<longleftrightarrow> \<not> is_ready dek_store_new \<and> is_err (current dek_store_new)"

definition store_and_retrieve :: bool where
  "store_and_retrieve =
     (let key = replicate KEY_LEN 0x42 in
      (case store key dek_store_new of
         (d, r) \<Rightarrow> unwrapped r (\<lambda>_. is_ready d \<and> unwrapped (current d) (\<lambda>retrieved. retrieved = key))))"

definition rejects_wrong_length :: bool where
  "rejects_wrong_length = is_err (snd (store (replicate 16 0) dek_store_new))"

definition rotation_replaces_key :: bool where
  "rotation_replaces_key =
     (let key1 = replicate KEY_LEN 0x01; key2 = replicate KEY_LEN 0x02 in
      (case store key1 dek_store_new of
         (d1, r1) \<Rightarrow> unwrapped r1 (\<lambda>_.
           (case store key2 d1 of
              (d2, r2) \<Rightarrow> unwrapped r2 (\<lambda>_. unwrapped (current d2) (\<lambda>retrieved. retrieved = key2))))))"

definition dek_bytes_redacted_in_debug :: bool where
  "dek_bytes_redacted_in_debug =
     (let buf = (replicate KEY_LEN 0)[0 := 0xFF] in contains (fmt_dek_bytes buf) ''REDACTED'')"

section \<open>Configuration\<close>

definition defaults_are_correct :: bool where
  "defaults_are_correct \<longleftrightarrow>
     default_s3_prefix = ''schemas/'' \<and> default_schema_header = ''X-Schema-Name'' \<and>
     default_dek_rotation_interval = 3600 \<and> default_schema_refresh_interval = 300 \<and>
     default_vsock_proxy_port = 8000 \<and> default_tls_port = 443 \<and> default_log_level = ''info''"

definition test_config :: "string \<Rightarrow> u32 \<Rightarrow> config" where
  "test_config arn cid =
     \<lparr>secret_arn = arn, kms_key_id = ''key'', s3_bucket = ''bucket'', s3_prefix = default_s3_prefix,
      schema_header_name = default_schema_header, dek_rotation_interval_secs = default_dek_rotation_interval,
      schema_refresh_interval_secs = default_schema_refresh_interval, vsock_proxy_cid = cid,
      vsock_proxy_port = default_vsock_proxy_port, tls_port = default_tls_port,
      tls_cert_path = ''/run/acm/tls.crt'', tls_key_path = ''/run/acm/tls.key'',
      otel_exporter_otlp_endpoint = ''vsock://3:4317'', log_level = default_log_level\<rparr>"

definition validate_rejects_empty_secret_arn :: bool where
  "validate_rejects_empty_secret_arn = is_err (validate (test_config '''' 3))"

definition validate_rejects_zero_cid :: bool where
  "validate_rejects_zero_cid = is_err (validate (test_config ''arn'' 0))"

definition proxy_defaults :: bool where
  "proxy_defaults \<longleftrightarrow>
     default_listen_port = 8443 \<and> default_enclave_port = 443 \<and> default_proxy_log_level = ''info''"

definition test_proxy_config :: "u32 \<Rightarrow> string \<Rightarrow> proxy_config" where
  "test_proxy_config cid addr =
     \<lparr>listen_port = 8443, enclave_cid = cid, enclave_port = 443, main_app_addr = addr,
      proxy_log_level = ''info''\<rparr>"

definition proxy_validate_rejects_zero_cid :: bool where
  "proxy_validate_rejects_zero_cid = is_err (proxy_validate (test_proxy_config 0 ''127.0.0.1:8080''))"

definition proxy_validate_rejects_empty_main_app_addr :: bool where
  "proxy_validate_rejects_empty_main_app_addr = is_err (proxy_validate (test_proxy_config 16 ''  ''))"

definition proxy_validate_accepts_valid_config :: bool where
  "proxy_validate_accepts_valid_config = is_ok (proxy_validate (test_proxy_config 16 ''127.0.0.1:8080''))"

section \<open>Connector\<close>

definition port_mapping_kms :: bool where
  "port_mapping_kms \<longleftrightarrow> vsock_port ''kms.us-east-2.amazonaws.com'' 8000 = 8001"

definition port_mapping_secretsmanager :: bool where
  "port_mapping_secretsmanager \<longleftrightarrow> vsock_port ''secretsmanager.us-east-2.amazonaws.com'' 8000 = 8002"

definition port_mapping_s3 :: bool where
  "port_mapping_s3 \<longleftrightarrow>
     vsock_port ''s3.us-east-2.amazonaws.com'' 8000 = 8003 \<and> vsock_port ''s3.amazonaws.com'' 8000 = 8003 \<and>
     vsock_port ''my-bucket.s3.us-east-2.amazonaws.com'' 8000 = 8003"

section \<open>Server\<close>

text \<open>The status of the router's answer on a state with neither key nor schema.\<close>

definition default_status ::
  "('c, 'x) crypto_scheme \<Rightarrow> ('h, 'v, 'y) http_scheme \<Rightarrow> ('h, 'b, 'n, 'z) axum_scheme \<Rightarrow>
     (string set \<Rightarrow> string list) \<Rightarrow> ('h, 'b) http_request \<Rightarrow> u16 option" where
  "default_status P http ax iter req =
     (case snd (build P http ax iter (0 :: nat) 0 app_state_default req) of
        Some (Answer (status, _)) \<Rightarrow> Some status
      | Some (Foreign status) \<Rightarrow> Some status
      | None \<Rightarrow> None)"

definition unknown_route_returns_404 ::
  "('c, 'x) crypto_scheme \<Rightarrow> ('h, 'v, 'y) http_scheme \<Rightarrow> ('h, 'b, 'n, 'z) axum_scheme \<Rightarrow>
     (string set \<Rightarrow> string list) \<Rightarrow> 'h \<Rightarrow> 'b \<Rightarrow> bool" where
  "unknown_route_returns_404 P http ax iter no_headers empty_body \<longleftrightarrow>
     default_status P http ax iter \<lparr>request_method = GET, request_path = ''/unknown'',
       request_headers = no_headers, request_body = empty_body\<rparr> = Some 404"

definition decrypt_route_exists ::
  "('c, 'x) crypto_scheme \<Rightarrow> ('h, 'v, 'y) http_scheme \<Rightarrow> ('h, 'b, 'n, 'z) axum_scheme \<Rightarrow>
     (string set \<Rightarrow> string list) \<Rightarrow> 'h \<Rightarrow> 'b \<Rightarrow> bool" where
  "decrypt_route_exists P http ax iter content_type body \<longleftrightarrow>
     default_status P http ax iter \<lparr>request_method = POST, request_path = ''/decrypt'',
       request_headers = content_type, request_body = body\<rparr> = Some 400"

definition health_route_exists ::
  "('c, 'x) crypto_scheme \<Rightarrow> ('h, 'v, 'y) http_scheme \<Rightarrow> ('h, 'b, 'n, 'z) axum_scheme \<Rightarrow>
     (string set \<Rightarrow> string list) \<Rightarrow> 'h \<Rightarrow> 'b \<Rightarrow> bool" where
  "health_route_exists P http ax iter no_headers empty_body \<longleftrightarrow>
     default_status P http ax iter \<lparr>request_method = GET, request_path = ''/health'',
       request_headers = no_headers, request_body = empty_body\<rparr> = Some 503"

definition health_returns_503_when_not_ready :: bool where
  "health_returns_503_when_not_ready \<longleftrightarrow> fst (health (app_state_default :: int app_state)) = 503"

definition rejects_empty_cert_pem :: "('cert, 'key, 'cfg, 'x) tls_io_scheme \<Rightarrow> bool" where
  "rejects_empty_cert_pem tls = is_err (build_server_config tls [] [])"

definition rejects_garbage_pem :: "('cert, 'key, 'cfg, 'x) tls_io_scheme \<Rightarrow> bool" where
  "rejects_garbage_pem tls =
     is_err (build_server_config tls (as_bytes ''not a pem'') (as_bytes ''also not a pem''))"

section \<open>All tests hold\<close>

definition service_tests :: bool where
  "service_tests \<longleftrightarrow>
     http_status_codes \<and> display_includes_message \<and> test_error_response_new \<and>
     initially_not_ready \<and> store_and_retrieve \<and> rejects_wrong_length \<and> rotation_replaces_key \<and>
     dek_bytes_redacted_in_debug \<and> defaults_are_correct \<and> validate_rejects_empty_secret_arn \<and>
     validate_rejects_zero_cid \<and> proxy_defaults \<and> proxy_validate_rejects_zero_cid \<and>
     proxy_validate_rejects_empty_main_app_addr \<and> proxy_validate_accepts_valid_config \<and>
     port_mapping_kms \<and> port_mapping_secretsmanager \<and> port_mapping_s3 \<and>
     health_returns_503_when_not_ready"

lemma common_tests_hold: "http_status_codes" "display_includes_message" "test_error_response_new"
  by code_simp+

lemma store_tests_hold:
  "initially_not_ready" "store_and_retrieve" "rejects_wrong_length" "rotation_replaces_key"
  "dek_bytes_redacted_in_debug"
  by code_simp+

lemma default_tests_hold: "defaults_are_correct" "proxy_defaults"
  by code_simp+

lemma blank: "trim_is_empty ''''" "trim_is_empty ''  ''"
  by code_simp+

lemma config_tests_hold: "validate_rejects_empty_secret_arn" "validate_rejects_zero_cid"
  by (simp_all add: validate_rejects_empty_secret_arn_def validate_rejects_zero_cid_def validate_def
      ensure_non_empty_def test_config_def is_err_def blank not_blank is_ascii_def is_whitespace_def)

lemma proxy_config_tests_hold:
  "proxy_validate_rejects_zero_cid" "proxy_validate_rejects_empty_main_app_addr"
  "proxy_validate_accepts_valid_config"
  by (simp_all add: proxy_validate_rejects_zero_cid_def proxy_validate_rejects_empty_main_app_addr_def
      proxy_validate_accepts_valid_config_def proxy_validate_def test_proxy_config_def is_err_def is_ok_def
      blank not_blank is_ascii_def is_whitespace_def)

lemma connector_tests_hold: "port_mapping_kms" "port_mapping_secretsmanager" "port_mapping_s3"
  by code_simp+

lemma health_test_holds: "health_returns_503_when_not_ready"
  by code_simp

text \<open>The router's tests, for a request without the schema header and a body that the extractor accepts.\<close>

lemma router_tests_hold:
  "unknown_route_returns_404 P http ax iter headers body" "health_route_exists P http ax iter headers body"
  "header_get http headers ''X-Schema-Name'' = None \<Longrightarrow> json_decrypt ax headers body = Ok req \<Longrightarrow>
     decrypt_route_exists P http ax iter headers body"
  by (simp_all add: unknown_route_returns_404_def health_route_exists_def decrypt_route_exists_def
      default_status_def build_def REQUEST_TIMEOUT_def not_found_def health_def app_state_default_def
      app_state_new_def dek_store_new_def is_ready_def extracted_def decrypt_def schema_and_dek_def
      schema_name_def Let_def split: prod.split)

text \<open>The TLS tests, where the parser finds neither certificates nor a key in the data.\<close>

lemma tls_tests_hold:
  "(\<And>data. parse_certs tls data = Ok []) \<Longrightarrow> (\<And>data. parse_private_key tls data = Ok None) \<Longrightarrow>
     rejects_empty_cert_pem tls \<and> rejects_garbage_pem tls"
  by (simp add: rejects_empty_cert_pem_def rejects_garbage_pem_def build_server_config_def with_context_def is_err_def)

lemma service_tests_hold: "service_tests"
  by (simp add: service_tests_def common_tests_hold store_tests_hold default_tests_hold config_tests_hold
      proxy_config_tests_hold connector_tests_hold health_test_holds)

end
