(* ===== verification/Spec2Isabelle.thy ===== *)
theory Spec2Isabelle
  imports Flight_Metrics Key_Lock Deployment Iso_20022 Service_Tests
begin

text \<open>
  Verification of \<open>nitro-enc-svc\<close>, a field encryption service that runs inside an AWS Nitro Enclave.

  \<^bold>\<open>The program.\<close> A caller posts a JSON payload and names a schema in a header. The enclave looks up
  the schema, finds the properties that the schema marks \<open>x-pii: true\<close>, and replaces the strings
  there by tokens \<open>v1.<nonce>.<ciphertext>\<close> under the current data encryption key (DEK);
  \<open>/decrypt\<close> does the reverse. Schemas come from S3 and the DEK from Secrets Manager and KMS, both
  at startup and again periodically; all outside connections go over vsock, through a sidecar that
  forwards bytes and through bridges inside the enclave. The sources are the crates \<open>common\<close>,
  \<open>enclave\<close> and \<open>vsock-proxy\<close> under \<open>src/crates\<close>, two schema documents under \<open>src/config\<close> and
  \<open>src/schemas\<close>, and the scripts and manifests that wire a node.

  \<^bold>\<open>The theories\<close>, from the bottom up:

  \<^item> \<open>Prelude\<close> and \<open>Rust_Str\<close>: \<open>Result\<close> with panics as a third outcome, the \<open>?\<close> operator and fallible
    loops, hash maps as association lists with distinct keys, the methods of \<open>str\<close>, UTF-8, and the
    locale \<open>step_machine\<close> for runs with an invariant.
  \<^item> \<open>Protocol\<close> (\<open>common/src\<close>): errors, bodies, JSON values, and two views of a JSON value used in
    specifications, \<open>leaves\<close> and \<open>map_strings\<close>.
  \<^item> \<open>Cipher\<close> (\<open>crypto/cipher.rs\<close>): token format, nonce, encryption and decryption of one field.
  \<^item> \<open>Payload\<close> (second half of \<open>server/handlers.rs\<close>): the walks along a path. The locales
    \<open>path_walker\<close> and \<open>walker_pair\<close> state what a walk does to a payload; both walks interpret them.
  \<^item> \<open>Resolver\<close> (\<open>schema/resolver.rs\<close>): the PII paths of a document. \<open>Schema_Check\<close>: a one-pass check of a document
    that implies that the resolver returns and that its paths are readable.
  \<^item> \<open>Config\<close> (both \<open>config.rs\<close>), \<open>Metrics\<close> (\<open>telemetry/metrics.rs\<close>).
  \<^item> \<open>Dek\<close> (\<open>dek\<close>): key store, fetch, rotation. The locale \<open>key_store\<close> is the store's contract.
  \<^item> \<open>Schema_Cache\<close> (\<open>schema/cache.rs\<close>, \<open>schema/mod.rs\<close>): cache, load, refresh. The locale
    \<open>snapshot_cache\<close> is the contract of a cache that is replaced as a whole.
  \<^item> \<open>Handlers\<close> (first half of \<open>server/handlers.rs\<close>, \<open>server/state.rs\<close>) and \<open>Router\<close>
    (\<open>server/router.rs\<close>).
  \<^item> \<open>Connector\<close> (\<open>aws/vsock_connector.rs\<close>, \<open>telemetry/log_writer.rs\<close>), \<open>Aws_Clients\<close>
    (\<open>aws/clients.rs\<close>: the adapter between SDK and hyper, its errors, the clients) and \<open>Relay\<close>
    (\<open>vsock-proxy/src\<close> and the bridges of \<open>main.rs\<close>).
  \<^item> \<open>Service\<close> (\<open>main.rs\<close>, \<open>telemetry/init.rs\<close>, \<open>server/tls.rs\<close>): startup, accept loop, the running
    service as a machine whose requests are atomic, its abstract counterpart and the refinement.
  \<^item> \<open>In_Flight\<close>: the service with requests as tasks. A handler touches the shared state twice, when it
    reads the cache and when it clones the key; the machine interleaves requests, rotations, refreshes
    and cancellations at these points. \<open>Flight_Metrics\<close> accounts for the measurements.
  \<^item> \<open>Key_Memory\<close> and \<open>Key_Lock\<close> (\<open>dek\<close> and the handlers once more, below the level of values): the boxes that hold
    keys with their allocation, cloning and overwriting, and the waits for the \<open>RwLock\<close> around the store. What
    \<open>In_Flight\<close> has as single steps is shown to be a correct view of this code.
  \<^item> \<open>Crypto_Tests\<close>, \<open>Schema_Tests\<close>, \<open>Service_Tests\<close>: unit tests of the crates as definitions, with lemmas that they
    hold, as a check of the model. Tests that need only the laws of the primitives hold for every instance
    of them; four that speak of the strength of the cipher are evaluated on the sample instance.
    \<open>Iso_20022\<close>: the two shipped documents and their tests.
  \<^item> \<open>Runner\<close> (\<open>src/scripts/run-enclave.sh\<close>): launch and supervision of the enclave. \<open>Deployment\<close>: the proxies
    of the parent and the environments of image, sidecar and runner, composed with \<open>Connector\<close>,
    \<open>Relay\<close> and \<open>Config\<close> into the paths of a connection out of the enclave and into it.

  \<^bold>\<open>How state and effects are represented.\<close> An operation that changes a store takes it and returns
  the new one. An operation on one of the two shared stores is one step, so a run of the service is a
  sequence of events; the schema cache is swapped atomically by \<open>arc_swap\<close>, and for the key, which is behind
  a lock, \<open>Key_Lock\<close> derives this from the lock. What the code does not define is an argument: the
  cryptographic primitives (\<open>crypto\<close>, with the laws \<open>crypto_ok\<close> that the crates document), the AWS
  calls (\<open>dek_aws\<close>, \<open>s3_io\<close>, \<open>sdk_http\<close>, \<open>sdk_builders\<close>), the parsers, the header map, the extractors of the
  framework, the iteration order of a hash set (\<open>iter_ok\<close>), the copy loop and the lock of tokio (\<open>copy_faithful\<close>,
  \<open>rwlock_ok\<close>), sockets, \<open>nitro-cli\<close> and \<open>jq\<close> (\<open>nitro_cli\<close>), the proxy of the parent (\<open>vsock_proxy_ok\<close>). The
  sample instances \<open>sample_crypto\<close>, \<open>sample_s3\<close> and so on meet the laws and serve the witnesses.

  \<^bold>\<open>What is shown.\<close>

  \<^item> Fields and payloads: tokens have one canonical form, decrypt to what was encrypted and are equal exactly
    for equal plaintexts; walking a payload path by path is one pass that touches exactly the strings at
    the PII paths, in any order of the paths, and keeps everything else.
  \<^item> Schemas: the resolver finds exactly the marked paths, and returns exactly for documents without a
    cycle; a load is a snapshot or nothing; a document that passes the check is protected without exception,
    and the shipped ones pass it.
  \<^item> Handlers: every marked string at a path the notation can carry is answered as a token, decryption undoes
    encryption, no request is left without an answer, and failures with the same status differ in nothing but the
    time they took.
  \<^item> The running service: it starts only with a key, keeps one for ever, never answers 503 afterwards, and
    refines its abstract counterpart.
  \<^item> Requests in flight: every answer is that of the abstract service on the paths of one moment and the key of
    the same or a later one; every answered request is counted once, a cancelled one not at all.
  \<^item> Keys: the lock makes taking and replacing the key atomic and cannot deadlock; every \<open>DekBytes\<close> that a rotation
    has replaced or a request has used is overwritten. The answers of KMS, from which they are copied, are not.
  \<^item> Connections: each side of a connection receives what the other sends until one direction ends, which ends
    both, as documented; a connection out of the enclave arrives at the service it is meant
    for and at nothing else, in particular not at the certificate proxy; one into the node reaches the
    enclave; the runner watches the enclave as long as it runs and reports a failure when it does not.
  \<^item> Defects: PII inside arrays of arrays is answered in the clear, a recursive schema overflows the stack, a
    bucket named like a service is misrouted, an enclave whose identifier cannot be read is left running, the
    example environment is refused.

  \<^bold>\<open>Bounds.\<close> The only fuel is the number of stack frames of the resolver. It is not a bound chosen for
  the proofs: \<open>None\<close> means that the stack is exhausted, \<open>resolver_returns_iff\<close> says when enough
  frames exist, and more frames never change the answer (\<open>resolve_pii_paths_mono\<close>). The shipped ISO 20022
  document needs no more than 16 frames, the example of payments no more than 3. Words have the
  widths of the source; \<open>u32\<close> ports wrap as in a release build. Plaintexts are limited to \<open>2 ^ 36\<close>
  bytes where a theorem claims that encryption succeeds, the limit of AES-GCM-SIV.

  \<^bold>\<open>Not modelled.\<close> The TLS handshake, the HTTP protocol and the text of JSON and YAML, which are the work of
  third-party crates (so the \<open>serde\<close> round trips among the tests of \<open>protocol.rs\<close>, which test nothing else,
  are left out); log lines and traces; wall-clock time, except as ticks and as the seconds a request has
  waited; whether the compiler keeps the writes that zero a buffer, and copies of key material inside the cipher
  crates; the parts of an OpenAPI document that the
  resolver ignores; Terraform resources, the remaining manifests, the pipeline and the operator scripts,
  which call other systems and contain no logic of the service. Below the context that the
  code adds, the messages of third-party errors are whatever the argument gives, and the message of
  a UTF-8 error is left out.
\<close>

section \<open>Lemmas on runs of the service\<close>

lemma run_service_ok:
  assumes "startup frames io = Some (Ok svc)"
    and "opt_fold (service_step frames (service_config svc) P http ax iter) events (service_state svc, log0) = Some (s, log)"
  shows "service_ok s"
  using svc_run.run_invar [OF _ assms(2)] startup_service_ok(1) [OF assms(1)] by simp

lemma encrypt_no_503: "service_ok s \<Longrightarrow> snd (encrypt P http iter t s headers req) \<noteq> Some (503, body)"
proof
  assume "service_ok s" "snd (encrypt P http iter t s headers req) = Some (503, body)"
  then show False
    using encrypt_failure [of P http iter t s headers req _ 503 body] service_ok_no_503 [of s http headers]
    by (cases "encrypt P http iter t s headers req") auto
qed

lemma decrypt_no_503: "service_ok s \<Longrightarrow> snd (decrypt P http iter t s headers req) \<noteq> Some (503, body)"
proof
  assume "service_ok s" "snd (decrypt P http iter t s headers req) = Some (503, body)"
  then show False
    using decrypt_failure [of P http iter t s headers req _ 503 body] service_ok_no_503 [of s http headers]
    by (cases "decrypt P http iter t s headers req") auto
qed

lemma encrypt_served:
  assumes "crypto_ok P" "iter_ok iter" "app_ok s" "keys_ok (encrypt_request_payload req)"
    and "schema_and_dek http s headers = Ok (cached, dek)"
    and "\<forall>(p, x) \<in> set (leaves (encrypt_request_payload req)). length x \<le> 2 ^ 36"
  shows "\<exists>r. snd (encrypt P http iter t s headers req) = Some (200, EncryptBody r)"
proof -
  note found = schema_and_dek_app_ok [OF assms(3,5)]
  have "all_at_paths (pii_paths cached) (encrypt_leaf P dek) (encrypt_request_payload req)"
    using encrypt_leaf_Ok [OF assms(1) found(1)] assms(6) by (auto simp: all_at_paths_def)
  then have "\<exists>w. encrypt_pii_fields P (iter (pii_paths cached)) dek (encrypt_request_payload req) = Ok w"
    using iter_fields(1) [OF assms(2) found(2) assms(4)] by blast
  with assms(5) show ?thesis by (auto simp: encrypt_def Let_def)
qed

text \<open>A run of the sample service: a rotation that fails and a request.\<close>

definition sample_events :: "(unit, int, (string \<times> string) list, int json option, nat) event list" where
  "sample_events =
     [Rotate (sample_aws None),
      Request 0 0 \<lparr>request_method = GET, request_path = ''/health'', request_headers = [], request_body = None\<rparr>]"

abbreviation sample_step ::
  "(unit, int, (string \<times> string) list, int json option, nat) event \<Rightarrow>
     int app_state \<times> nat measurement list \<Rightarrow> (int app_state \<times> nat measurement list) option" where
  "sample_step \<equiv> service_step 10 sample_config sample_crypto sample_http sample_axum sorted_list_of_set"

lemma sample_run: "\<exists>s'. opt_fold sample_step sample_events (s, log) = Some s'"
  by (simp add: sample_events_def case_prod_beta)

lemma sample_service:
  obtains svc where "startup 10 sample_startup = Some (Ok svc)" "service_config svc = sample_config"
    "app_state.schema_header_name (service_state svc) = ''X-Schema-Name''"
proof -
  obtain svc where svc: "startup 10 sample_startup = Some (Ok svc)" using sample_startup_Ok by blast
  then obtain cfg aws d c where s: "startup_dek sample_startup = Ok (cfg, aws, d)"
    "startup_server sample_startup cfg aws d c = Ok svc"
    by (auto simp: startup_Ok_iff)
  from s(1) have "cfg = sample_config"
    by (simp add: startup_dek_Ok_iff sample_startup_def sample_env_config)
  then have "service_state svc = app_state_new d c ''X-Schema-Name'' metrics_new"
    using startup_server_Ok(1) [OF s(2)] by (simp add: sample_config_def)
  then have "app_state.schema_header_name (service_state svc) = ''X-Schema-Name''"
    by (simp add: app_state_new_def)
  with svc startup_server_Ok(2) [OF s(2)] \<open>cfg = sample_config\<close> show thesis
    by (intro that) simp_all
qed

lemma sample_service_knows:
  assumes "startup 10 sample_startup = Some (Ok svc)"
  shows "spec_paths (service_abs (service_state svc)) ''users'' \<noteq> None"
proof -
  from assms obtain cfg aws d c where s: "startup_dek sample_startup = Ok (cfg, aws, d)"
    "load_all 10 (start_s3 sample_startup aws) cfg schema_cache_new = Some (c, Ok ())"
    "startup_server sample_startup cfg aws d c = Ok svc"
    by (auto simp: startup_Ok_iff)
  from s(1) have cfg: "cfg = sample_config"
    by (simp add: startup_dek_Ok_iff sample_startup_def sample_env_config)
  have list: "list_objects_v2 sample_s3 b p = Ok [Some ''schemas/users.yaml'', None]" for b p
    by (simp add: sample_s3_def)
  have keys: "keys_named sample_config [Some ''schemas/users.yaml'', None] ''users'' = [''schemas/users.yaml'']"
    by code_simp
  have "object_api sample_s3 sample_config ''schemas/users.yaml'' = Some sample_api"
    by (simp add: object_api_def sample_s3_def from_utf8_as_bytes sample_text_valid)
  then have "cache_get ''users'' c = Ok \<lparr>cached_api = sample_api, pii_paths = render '''' ` api_pii sample_api\<rparr>"
    using load_all_contents [OF list, where cfg = sample_config and frames = 10 and c = schema_cache_new and c' = c] s(2)
    by (simp add: cfg keys sample_startup_def)
  then show ?thesis
    using startup_server_Ok(1) [OF s(3)] by (simp add: service_abs_def app_state_new_def cache_get_map_of)
qed

section \<open>Properties of the whole service\<close>

text \<open>
  C4. The running service implements the abstract one: after any interleaving of rotations, schema
  refreshes and requests, the current key and the PII paths of every schema are what the abstract
  service has after the same events. In particular a failed rotation or refresh changes nothing.
\<close>

theorem service_refines_spec:
  assumes "opt_fold (service_step frames cfg P http ax iter) events (s, log) = Some (s', log')"
  shows "service_abs s' = fold (spec_step cfg) events (service_abs s)"
  using service_runs_abs [OF assms] by simp

theorem service_refines_spec_witness:
  "\<exists>s' log'. opt_fold sample_step sample_events (sample_state, []) = Some (s', log') \<and>
     spec_key (service_abs s') = Some sample_dek"
proof -
  obtain s' log' where run: "opt_fold sample_step sample_events (sample_state, []) = Some (s', log')"
    using sample_run by (metis surj_pair)
  have "spec_key (service_abs s') = spec_key (service_abs sample_state)"
    using service_refines_spec [OF run]
    by (simp add: sample_events_def sample_aws_def fetched_key_def)
  with run show ?thesis
    by (simp add: service_abs_def sample_state_def state_for_def app_state_new_def store_def sample_dek_length)
qed

text \<open>
  C5. A service that has started always has a key: in every state reachable by rotations, refreshes
  and requests, whatever AWS answers, the store holds a key of 32 bytes, and no \<open>POST /encrypt\<close> or
  \<open>POST /decrypt\<close> is answered \<open>503\<close>.
\<close>

theorem always_ready:
  assumes "startup frames io = Some (Ok svc)"
    and "opt_fold (service_step frames (service_config svc) P http ax iter) events (service_state svc, []) = Some (s, log)"
  shows "(\<exists>k. current (dek_store s) = Ok k \<and> length k = 32) \<and>
    snd (encrypt P http iter t s headers req) \<noteq> Some (503, body) \<and>
    snd (decrypt P http iter t s headers dreq) \<noteq> Some (503, body)"
proof -
  have ok: "service_ok s" by (rule run_service_ok [OF assms])
  then obtain k where k: "current (dek_store s) = Ok k"
    by (auto simp: service_ok_def dek.ready_iff is_ok_iff)
  moreover have "length k = 32"
    using ok dek.invar_valid [OF _ k] by (simp add: service_ok_def app_ok_def KEY_LEN_def)
  ultimately show ?thesis by (simp add: encrypt_no_503 [OF ok] decrypt_no_503 [OF ok])
qed

theorem always_ready_witness:
  "\<exists>svc s log. startup 10 sample_startup = Some (Ok svc) \<and>
     opt_fold sample_step sample_events (service_state svc, []) = Some (s, log) \<and>
     (\<exists>k. current (dek_store s) = Ok k \<and> length k = 32)"
proof -
  obtain svc where svc: "startup 10 sample_startup = Some (Ok svc)" "service_config svc = sample_config"
    by (rule sample_service)
  obtain s log where run: "opt_fold sample_step sample_events (service_state svc, []) = Some (s, log)"
    using sample_run by (metis surj_pair)
  have "\<exists>k. current (dek_store s) = Ok k \<and> length k = 32"
    by (rule always_ready [OF svc(1), unfolded svc(2), OF run, THEN conjunct1])
  with svc(1) run show ?thesis by blast
qed

text \<open>
  C17. End to end: once the service has started, after any history of rotations, refreshes and
  requests, a \<open>POST /encrypt\<close> that names a schema the cache holds, with strings of at most
  \<open>2 ^ 36\<close> bytes, is answered \<open>200\<close>.
\<close>

theorem known_schema_is_served:
  assumes "startup frames io = Some (Ok svc)"
    and "opt_fold (service_step frames (service_config svc) P http ax iter) events (service_state svc, []) = Some (s, log)"
    and "crypto_ok P" "iter_ok iter" "keys_ok (encrypt_request_payload req)"
    and "\<forall>(p, x) \<in> set (leaves (encrypt_request_payload req)). length x \<le> 2 ^ 36"
    and "header_get http headers (app_state.schema_header_name s) = Some v" "to_str http v = Some name"
    and "spec_paths (service_abs s) name \<noteq> None"
  shows "\<exists>r. snd (encrypt P http iter t s headers req) = Some (200, EncryptBody r)"
proof -
  have ok: "service_ok s" by (rule run_service_ok [OF assms(1,2)])
  then obtain k where "current (dek_store s) = Ok k"
    by (auto simp: service_ok_def dek.ready_iff is_ok_iff)
  moreover obtain e where "cache_get name (schema_cache s) = Ok e"
    using assms(9) by (auto simp: service_abs_def cache_get_map_of)
  ultimately have "schema_and_dek http s headers = Ok (e, k)"
    using assms(7,8) by (simp add: schema_and_dek_Ok_iff)
  from encrypt_served [OF assms(3,4) _ assms(5) this assms(6)] ok show ?thesis
    by (simp add: service_ok_def)
qed

theorem known_schema_is_served_witness:
  "\<exists>svc r. startup 10 sample_startup = Some (Ok svc) \<and>
     snd (encrypt sample_crypto sample_http sorted_list_of_set (0 :: nat) (service_state svc)
       sample_headers \<lparr>encrypt_request_payload = user_payload\<rparr>) = Some (200, EncryptBody r)"
proof -
  obtain svc where svc: "startup 10 sample_startup = Some (Ok svc)" "service_config svc = sample_config"
    "app_state.schema_header_name (service_state svc) = ''X-Schema-Name''"
    by (rule sample_service)
  have "spec_paths (service_abs (service_state svc)) ''users'' \<noteq> None"
    by (rule sample_service_knows [OF svc(1)])
  moreover have run: "opt_fold sample_step [] (service_state svc, []) = Some (service_state svc, [])" by simp
  ultimately have "\<exists>r. snd (encrypt sample_crypto sample_http sorted_list_of_set (0 :: nat) (service_state svc)
       sample_headers \<lparr>encrypt_request_payload = user_payload\<rparr>) = Some (200, EncryptBody r)"
    using wf_json_keys_ok [OF user_payload_wf] user_payload_short
    by (intro known_schema_is_served [OF svc(1), unfolded svc(2), OF run sample_crypto_ok sorted_iter_ok])
      (simp_all add: svc(3) sample_http_def sample_headers_def)
  with svc(1) show ?thesis by blast
qed

lemma schema_and_dek_mixed:
  assumes "schema_and_dek http (mixed s1 s2) headers = Ok (cached, dek)"
  shows "\<exists>v name. header_get http headers (app_state.schema_header_name s2) = Some v \<and> to_str http v = Some name \<and>
      cache_get name (schema_cache s1) = Ok cached" and "current (dek_store s2) = Ok dek"
  using assms by (auto simp: schema_and_dek_Ok_iff mixed_def)

text \<open>
  C6. The guarantee of \<open>POST /encrypt\<close> survives concurrency: after startup, however rotations, refreshes
  and other requests interleave with a request, if it is answered \<open>200\<close> then there are one schema,
  held under the name in the request's header by the cache at some moment of the run, and one key of
  32 bytes, held by the store at some moment, such that every string at a readable path that the
  schema marks is the token under this one key of the string that the request had there.
\<close>

theorem in_flight_protects_pii:
  assumes "startup frames io = Some (Ok svc)"
    and "opt_fold (flight_step frames (service_config svc) P http iter) events (flight_new (service_state svc)) = Some w"
    and "Answered (EncryptCall headers req) t (Some (200, EncryptBody r)) \<in> set (tasks w)"
    and "crypto_ok P" "iter_ok iter" "wf_json (encrypt_request_payload req)"
  shows "\<exists>w1 w2 v name cached dek. length dek = 32 \<and>
    header_get http headers (app_state.schema_header_name (service_state svc)) = Some v \<and> to_str http v = Some name \<and>
    (\<exists>j. opt_fold (flight_step frames (service_config svc) P http iter) (take j events)
       (flight_new (service_state svc)) = Some w1) \<and> cache_get name (schema_cache (shared w1)) = Ok cached \<and>
    (\<exists>k. opt_fold (flight_step frames (service_config svc) P http iter) (take k events)
       (flight_new (service_state svc)) = Some w2) \<and> current (dek_store (shared w2)) = Ok dek \<and>
    (\<forall>p x. p \<in> api_pii (cached_api cached) \<longrightarrow> readable p \<longrightarrow>
       (p, x) \<in> set (leaves (encrypt_response_payload r)) \<longrightarrow>
       (\<exists>y. (p, y) \<in> set (leaves (encrypt_request_payload req)) \<and> encrypt_leaf P dek y = Ok x))"
proof -
  let ?step = "flight_step frames (service_config svc) P http iter"
  let ?w0 = "flight_new (service_state svc)"
  have ok: "flight_ok ?w0"
    using startup_service_ok(1) [OF assms(1)] by (simp add: flight_ok_def flight_new_def)
  have "task_ok (passed ?step events ?w0) P http iter (Answered (EncryptCall headers req) t (Some (200, EncryptBody r)))"
    using run_tasks_ok [OF assms(2)] assms(3) by (auto simp: flight_new_def simp del: task_ok.simps)
  then obtain j w1 k w2 where seen: "passed ?step events ?w0 j w1" "passed ?step events ?w0 k w2"
    and answer: "snd (encrypt P http iter t (mixed (shared w1) (shared w2)) headers req) = Some (200, EncryptBody r)"
    by auto
  from answer obtain log where run:
    "encrypt P http iter t (mixed (shared w1) (shared w2)) headers req = (log, Some (200, EncryptBody r))"
    by (metis prod.collapse)
  then obtain cached dek where found:
    "schema_and_dek http (mixed (shared w1) (shared w2)) headers = Ok (cached, dek)"
    by (auto simp: encrypt_200_iff)
  have app: "app_ok (mixed (shared w1) (shared w2))"
    using mixed_app_ok passed_flight_ok [OF ok] seen by blast
  have "length dek = 32" using schema_and_dek_app_ok(1) [OF app found] by (simp add: KEY_LEN_def)
  moreover have "\<exists>y. (p, y) \<in> set (leaves (encrypt_request_payload req)) \<and> encrypt_leaf P dek y = Ok x"
    if "p \<in> api_pii (cached_api cached)" "readable p" "(p, x) \<in> set (leaves (encrypt_response_payload r))" for p x
    using encrypt_200_leaf [OF assms(4,5) app assms(6) found run that] by blast
  moreover have "app_state.schema_header_name (shared w2) = app_state.schema_header_name (service_state svc)"
    using passed_setup [OF seen(2)] by (simp add: same_setup_def flight_new_def)
  moreover from this schema_and_dek_mixed [OF found] obtain v name
    where "header_get http headers (app_state.schema_header_name (service_state svc)) = Some v"
      "to_str http v = Some name" "cache_get name (schema_cache (shared w1)) = Ok cached"
      "current (dek_store (shared w2)) = Ok dek" by auto
  ultimately show ?thesis
    using seen unfolding passed_def by blast
qed

text \<open>The sample service answers the sample call after three steps.\<close>

lemma sample_service_flight:
  assumes "startup 10 sample_startup = Some (Ok svc)" "service_config svc = sample_config"
    and "app_state.schema_header_name (service_state svc) = ''X-Schema-Name''"
  shows "\<exists>w r. opt_fold sample_flight_step (Arrive sample_call # replicate 3 (Advance 0 0))
      (flight_new (service_state svc)) = Some w \<and>
    Answered sample_call 0 (Some (200, EncryptBody r)) \<in> set (tasks w)"
proof -
  have ok: "service_ok (service_state svc)" by (rule startup_service_ok(1) [OF assms(1)])
  then obtain k where "current (dek_store (service_state svc)) = Ok k"
    by (auto simp: service_ok_def dek.ready_iff is_ok_iff)
  moreover obtain e where "cache_get ''users'' (schema_cache (service_state svc)) = Ok e"
    using sample_service_knows [OF assms(1)] by (auto simp: service_abs_def cache_get_map_of)
  ultimately have found: "schema_and_dek sample_http (service_state svc) sample_headers = Ok (e, k)"
    by (simp add: schema_and_dek_Ok_iff assms(3) sample_http_def sample_headers_def)
  have "app_ok (service_state svc)" using ok by (simp add: service_ok_def)
  from encrypt_served [OF sample_crypto_ok sorted_iter_ok this _ found, where t = "0 :: nat"
      and req = "\<lparr>encrypt_request_payload = user_payload\<rparr>"]
  obtain r where "snd (encrypt sample_crypto sample_http sorted_list_of_set (0 :: nat) (service_state svc)
      sample_headers \<lparr>encrypt_request_payload = user_payload\<rparr>) = Some (200, EncryptBody r)"
    using wf_json_keys_ok [OF user_payload_wf] user_payload_short by auto
  moreover have "schema_and_dek sample_http (shared (flight_new (service_state svc)
      :: ((string \<times> string) list, int, nat) flight)) (call_headers sample_call) = Ok (e, k)"
    using found by (simp add: flight_new_def sample_call_def)
  note undisturbed [OF this, where frames = 10 and cfg = sample_config and P = sample_crypto
      and iter = sorted_list_of_set and t = "0 :: nat"]
  ultimately show ?thesis by (auto simp: flight_new_def sample_call_def)
qed

theorem in_flight_protects_pii_witness:
  "\<exists>svc w r w2 dek. startup 10 sample_startup = Some (Ok svc) \<and>
     opt_fold sample_flight_step (Arrive sample_call # replicate 3 (Advance 0 0))
       (flight_new (service_state svc)) = Some w \<and>
     Answered sample_call 0 (Some (200, EncryptBody r)) \<in> set (tasks w) \<and>
     current (dek_store (shared (w2 :: ((string \<times> string) list, int, nat) flight))) = Ok dek \<and> length dek = 32"
proof -
  obtain svc where svc: "startup 10 sample_startup = Some (Ok svc)" "service_config svc = sample_config"
    "app_state.schema_header_name (service_state svc) = ''X-Schema-Name''"
    by (rule sample_service)
  obtain w r where w: "opt_fold sample_flight_step (Arrive sample_call # replicate 3 (Advance 0 0))
      (flight_new (service_state svc)) = Some w"
    "Answered sample_call 0 (Some (200, EncryptBody r)) \<in> set (tasks w)"
    using sample_service_flight [OF svc] by blast
  have "wf_json (encrypt_request_payload \<lparr>encrypt_request_payload = user_payload\<rparr>)" using user_payload_wf by simp
  from in_flight_protects_pii [OF svc(1), unfolded svc(2), OF w(1) w(2) [unfolded sample_call_def]
      sample_crypto_ok sorted_iter_ok this]
  obtain dek and w2 :: "((string \<times> string) list, int, nat) flight"
    where "length dek = 32" "current (dek_store (shared w2)) = Ok dek" by auto
  with svc(1) w show ?thesis by blast
qed

text \<open>
  C18. The service fails closed: it starts listening only after a valid configuration, both
  mandatory bridges, AWS clients built around the configured vsock proxy, a key of 32 bytes
  that Secrets Manager and KMS gave through these clients, and a complete load of the schemas through
  them; it then listens on the configured port with this key and these schemas. (The load is complete in
  the sense of \<open>load_all\<close>: every object of the one page that it lists.)
\<close>

theorem startup_fails_closed:
  assumes "startup frames io = Some (Ok svc)"
  shows "\<exists>cfg aws key c. from_env (start_env io) = Ok cfg \<and> config_ok cfg \<and> service_config svc = cfg \<and>
    imds_bind io = Ok () \<and> otlp_bind io = Ok () \<and>
    aws_clients_init (start_sdk io) (vsock_proxy_cid cfg) (vsock_proxy_port cfg) = Ok aws \<and> service_aws svc = aws \<and>
    fetched_key (start_dek_aws io aws) cfg = Some key \<and> length key = 32 \<and>
    current (dek_store (service_state svc)) = Ok key \<and>
    load_all frames (start_s3 io aws) cfg [] = Some (c, Ok ()) \<and> schema_cache (service_state svc) = c \<and>
    unat (snd (service_addr svc)) = unat (tls_port cfg)"
proof -
  from assms obtain cfg aws d c where s: "startup_dek io = Ok (cfg, aws, d)"
    "load_all frames (start_s3 io aws) cfg schema_cache_new = Some (c, Ok ())"
    "startup_server io cfg aws d c = Ok svc" by (auto simp: startup_Ok_iff)
  note svc = startup_server_Ok [OF s(3)]
  from s(1) have d: "fetch_and_store (start_dek_aws io aws) cfg dek_store_new = (d, Ok ())"
    and started: "from_env (start_env io) = Ok cfg" "imds_bind io = Ok ()" "otlp_bind io = Ok ()"
      "aws_clients_init (start_sdk io) (vsock_proxy_cid cfg) (vsock_proxy_port cfg) = Ok aws"
    by (simp_all add: startup_dek_Ok_iff)
  obtain key where key: "fetched_key (start_dek_aws io aws) cfg = Some key" "length key = KEY_LEN"
    using d fetch_and_store_Ok_iff [of "start_dek_aws io aws" cfg dek_store_new] by auto
  have "current d = Ok key"
    using d fetch_and_store_state [of "start_dek_aws io aws" cfg dek_store_new] key by (simp add: dek.put_valid)
  moreover have "unat (ucast (tls_port cfg) :: u32) = unat (tls_port cfg)"
    using unsigned_less [of "tls_port cfg", where 'a = nat]
    by (simp add: unsigned_ucast_eq take_bit_nat_eq_self)
  ultimately show ?thesis
    using key started s(2) svc from_env_Ok_iff [of "start_env io" cfg]
    by (intro exI [of _ cfg] exI [of _ aws] exI [of _ key] exI [of _ c])
      (simp add: KEY_LEN_def app_state_new_def schema_cache_new_def)
qed

theorem startup_fails_closed_witness:
  "\<exists>svc. startup 10 sample_startup = Some (Ok svc) \<and> current (dek_store (service_state svc)) = Ok sample_dek"
proof -
  obtain svc where svc: "startup 10 sample_startup = Some (Ok svc)" by (rule sample_service)
  from startup_fails_closed [OF svc] have "current (dek_store (service_state svc)) = Ok sample_dek"
    by (auto simp: sample_startup_def fetched_key_def sample_aws_def)
  with svc show ?thesis by blast
qed

text \<open>
  An accepted configuration never panics the background tasks: both intervals are positive, so
  the timers of the rotation task and of the refresh task are created, whatever the ticks bring.
\<close>

lemma background_tasks_run:
  assumes "from_env env = Ok cfg"
  shows "rotation_task cfg i dek_ticks d \<noteq> Panic \<and> refresh_task frames cfg s3_ticks c \<noteq> Panic"
  using assms by (simp add: from_env_Ok_iff config_ok_def rotation_task_def refresh_task_def)

text \<open>
  The enclave's accept loop serves the connections before the first failed accept and then
  ends with that error; unlike the sidecar's loop it does not go on.
\<close>

lemma enclave_stops_accepting:
  "main_accept (map Ok peers @ Err e # accepts) = (peers, Some (Err e)) \<and>
   main_accept (map Ok peers) = (peers, None) \<and>
   accept_all cid port (map Ok peers @ Err e # accepts) =
     map (\<lambda>peer. (peer, cid, port)) peers @ accept_all cid port accepts"
  by (induction peers) auto

end
